(* ===== verification/Prelude.thy ===== *)
theory Prelude
  imports Main "HOL-Library.Word" "HOL-Library.Signed_Division"
begin

text \<open>
  What every component of the model shares: Go's fixed-width integers, error values and
  run-time panics as results, slice indexing with its bounds check, the wrap-around index of
  the selection loops, and the generic facts about rotated lists and first minima on which the
  selection proofs rest.

  Go's \<open>int\<close> and \<open>int64\<close> are 64-bit two's complement values (the router is built for
  linux/amd64), \<open>uint64\<close> is the same word read unsigned.
\<close>

section \<open>Integers, errors and results\<close>

type_synonym int64 = "64 word"
type_synonym uint64 = "64 word"

named_theorems frame_simps \<open>what an operation leaves unchanged\<close>
named_theorems wf_intros \<open>well-formedness is kept\<close>

text \<open>
  An \<open>error\<close> value of the code is the sentinel \<open>ErrNoHealthyBackend\<close> or an error that is
  known by its message only.  A call returns a value, an error, or panics (an index out of range
  or a division by zero; \<open>net/http\<close> recovers the panic of a handler).
\<close>

datatype gerror = ErrNoHealthyBackend | ErrMsg string

datatype 'a outcome = Ok 'a | Err gerror | Panic

section \<open>Slices\<close>

text \<open>Indexing a slice: out of range (a negative index included) is a run-time panic.\<close>

definition go_index :: "'a list \<Rightarrow> int \<Rightarrow> 'a outcome" where
  "go_index xs i = (if 0 \<le> i \<and> i < int (length xs) then Ok (xs ! nat i) else Panic)"

text \<open>
  \<open>int(r.next.Add(1)-1) % len(backends)\<close>: the counter's old value read as a \<^emph>\<open>signed\<close>
  integer, and Go's \<open>%\<close>, which takes the sign of the dividend.
\<close>

definition start_index :: "uint64 \<Rightarrow> nat \<Rightarrow> int" where
  "start_index old n = sint old smod int n"

text \<open>\<open>(start+i)%len(backends)\<close>; both operands are below the slice length, so the sum does not wrap.\<close>

definition rot_index :: "int \<Rightarrow> nat \<Rightarrow> nat \<Rightarrow> int" where
  "rot_index start i n = (start + int i) smod int n"

lemma signed_take_bit_63:
  fixes k :: int
  assumes "0 \<le> k" and "k < 2 ^ 64"
  shows "signed_take_bit 63 k = (if k < 2 ^ 63 then k else k - 2 ^ 64)"
proof -
  have "signed_take_bit 63 k = (k + 2 ^ 63) mod 2 ^ 64 - 2 ^ 63"
    by (simp add: signed_take_bit_eq_take_bit_shift take_bit_eq_mod)
  moreover have "(k + 2 ^ 63) mod 2 ^ 64 = (if k < 2 ^ 63 then k + 2 ^ 63 else k - 2 ^ 63)"
  proof (cases "k < 2 ^ 63")
    case True
    with assms show ?thesis by (simp add: mod_pos_pos_trivial)
  next
    case False
    have "(k + 2 ^ 63) mod 2 ^ 64 = (k - 2 ^ 63) mod 2 ^ 64"
      using mod_add_self2 [of "k - 2 ^ 63" "2 ^ 64"] by (simp add: algebra_simps)
    also have "\<dots> = k - 2 ^ 63"
      using False assms by (intro mod_pos_pos_trivial) simp_all
    finally show ?thesis using False by simp
  qed
  ultimately show ?thesis by simp
qed

lemma sint_unat:
  fixes w :: uint64
  shows "sint w = (if unat w < 2 ^ 63 then int (unat w) else int (unat w) - 2 ^ 64)"
proof -
  have bnd: "unat w < 2 ^ 64" using unsigned_less [of w] by simp
  have len: "LENGTH(64) - Suc 0 = 63" by simp
  have "sint w = signed_take_bit 63 (uint w)"
    unfolding sint_uint by (simp only: len)
  also have "\<dots> = signed_take_bit 63 (int (unat w))"
    by (simp only: uint_nat)
  also have "\<dots> = (if int (unat w) < 2 ^ 63 then int (unat w) else int (unat w) - 2 ^ 64)"
    using bnd by (intro signed_take_bit_63) (simp_all only: of_nat_0_le_iff of_nat_less_numeral_power_cancel_iff)
  finally show ?thesis
    by (simp only: of_nat_less_numeral_power_cancel_iff)
qed

lemma sint_small: "unat w < 2 ^ 63 \<Longrightarrow> sint w = int (unat w)" for w :: uint64
  unfolding sint_unat by simp

lemma sint_large: "\<not> unat w < 2 ^ 63 \<Longrightarrow> sint w = int (unat w) - 2 ^ 64" for w :: uint64
  unfolding sint_unat by simp

lemma unat_next: "unat w < 2 ^ 63 \<Longrightarrow> unat (w + 1) = Suc (unat w)" for w :: uint64
  by (simp add: unat_word_ariths)

lemma sint_add:
  fixes v w :: int64
  assumes "- (2 ^ 63) \<le> sint v + sint w" and "sint v + sint w < 2 ^ 63"
  shows "sint (v + w) = sint v + sint w"
proof -
  have len: "LENGTH(64) - 1 = 63" by simp
  have "sint (v + w) = signed_take_bit 63 (sint v + sint w)"
    unfolding sint_word_ariths len ..
  also have "\<dots> = sint v + sint w"
    using assms by (intro signed_take_bit_int_eq_self)
  finally show ?thesis .
qed

lemma smod_int_nat: "int k smod int n = int (k mod n)"
  by (cases "k = 0") (simp_all add: signed_modulo_int_def of_nat_mod)

lemma smod_int_neg_nat: "- int k smod int n = - int (k mod n)"
  by (cases "k = 0") (simp_all add: signed_modulo_int_def of_nat_mod)

lemma smod_smod: "(k smod int n) smod int n = k smod int n"
proof (cases k rule: int_cases2)
  case (nonneg a)
  then show ?thesis by (simp only: smod_int_nat mod_mod_trivial)
next
  case (nonpos a)
  then show ?thesis by (simp only: smod_int_neg_nat mod_mod_trivial)
qed

lemma start_index_small: "unat w < 2 ^ 63 \<Longrightarrow> start_index w n = int (unat w mod n)"
  unfolding start_index_def by (simp only: sint_small smod_int_nat)

lemma rot_index_nonneg:
  "rot_index (int s) i n = int ((s + i) mod n)"
  unfolding rot_index_def by (simp only: smod_int_nat flip: of_nat_add)

lemma go_index_nth [simp]:
  "i < length xs \<Longrightarrow> go_index xs (int i) = Ok (xs ! i)"
  by (simp add: go_index_def)

lemma go_index_negative [simp]: "i < 0 \<Longrightarrow> go_index xs i = Panic"
  by (simp add: go_index_def)

text \<open>The elements a loop from \<open>start\<close> visits, in its order: the rotated list.\<close>

lemma visited_eq_rotate:
  "map (\<lambda>i. xs ! ((s + i) mod length xs)) [0..<length xs] = rotate s xs"
  by (rule nth_equalityI) (simp_all add: nth_rotate)

section \<open>First minimum\<close>

text \<open>The element with the least key, the first one among equals.\<close>

fun first_min :: "('a \<Rightarrow> 'b::linorder) \<Rightarrow> 'a list \<Rightarrow> 'a option" where
  "first_min f [] = None"
| "first_min f (x # xs) =
     (case first_min f xs of
        None \<Rightarrow> Some x
      | Some y \<Rightarrow> if f y < f x then Some y else Some x)"

lemma first_min_None [simp]: "first_min f xs = None \<longleftrightarrow> xs = []"
  by (cases xs) (auto split: option.splits)

lemma first_min_in: "first_min f xs = Some x \<Longrightarrow> x \<in> set xs"
  by (induction xs arbitrary: x) (auto split: option.splits if_splits)

lemma first_min_le: "first_min f xs = Some x \<Longrightarrow> y \<in> set xs \<Longrightarrow> f x \<le> f y"
  by (induction xs arbitrary: x y) (fastforce split: option.splits if_splits)+

text \<open>Everything before the chosen element is strictly worse.\<close>

lemma first_min_split:
  "first_min f xs = Some x \<Longrightarrow> \<exists>as bs. xs = as @ x # bs \<and> (\<forall>a\<in>set as. f x < f a)"
proof (induction xs arbitrary: x)
  case Nil
  then show ?case by simp
next
  case (Cons y ys)
  show ?case
  proof (cases "first_min f ys")
    case None
    with Cons.prems have "y # ys = [] @ x # ys" by simp
    then show ?thesis by fastforce
  next
    case (Some z)
    show ?thesis
    proof (cases "f z < f y")
      case True
      with Some Cons.prems have "x = z" by simp
      from Cons.IH [OF Some] obtain as bs
        where "ys = as @ z # bs" and "\<forall>a\<in>set as. f z < f a" by blast
      with True \<open>x = z\<close> have "y # ys = (y # as) @ x # bs \<and> (\<forall>a\<in>set (y # as). f x < f a)"
        by simp
      then show ?thesis by blast
    next
      case False
      with Some Cons.prems have "y # ys = [] @ x # ys" by simp
      then show ?thesis by fastforce
    qed
  qed
qed

text \<open>The running minimum of a left-to-right loop is the first minimum.\<close>

fun min_from :: "('a \<Rightarrow> 'b::linorder) \<Rightarrow> 'a option \<Rightarrow> 'a list \<Rightarrow> 'a option" where
  "min_from f acc [] = acc"
| "min_from f acc (x # xs) =
     min_from f (case acc of None \<Rightarrow> Some x | Some y \<Rightarrow> if f x < f y then Some x else Some y) xs"

lemma min_from_Some:
  "min_from f (Some y) xs = first_min f (y # xs)"
  by (induction xs arbitrary: y) (auto split: option.splits)

lemma min_from_first_min: "min_from f None xs = first_min f xs"
  by (cases xs) (simp_all add: min_from_Some del: first_min.simps(2))

section \<open>Lists\<close>

lemma find_SomeD: "find P xs = Some x \<Longrightarrow> x \<in> set xs \<and> P x"
  by (auto simp: find_Some_iff)

lemma dropWhile_twice [simp]: "dropWhile P (dropWhile P xs) = dropWhile P xs"
  by (induction xs) simp_all

lemma find_None_set: "find P xs = None \<longleftrightarrow> (\<forall>x\<in>set xs. \<not> P x)"
  by (auto simp: find_None_iff)

end
