(* ===== verification/GoStrings.thy ===== *)
theory GoStrings
  imports Prelude "HOL-Library.Sublist"
begin

text \<open>
  The string functions of Go's standard library that the program calls, on byte strings: a Go
  \<open>string\<close> is a sequence of bytes, and so is \<open>char list\<close>.  Functions that Go defines on runes
  (\<open>strings.TrimSpace\<close>, \<open>[]rune(s)\<close>, \<open>strings.ToLower\<close>) are written out on the UTF-8 bytes.
\<close>

section \<open>Bytes and runes\<close>

abbreviation byte :: "char \<Rightarrow> nat" where
  "byte c \<equiv> of_char c"

definition cont_byte :: "char \<Rightarrow> bool" where
  "cont_byte c \<longleftrightarrow> 128 \<le> byte c \<and> byte c \<le> 191"

definition byte_in :: "nat \<Rightarrow> nat \<Rightarrow> char \<Rightarrow> bool" where
  "byte_in lo hi c \<longleftrightarrow> lo \<le> byte c \<and> byte c \<le> hi"

text \<open>
  The width of the rune at the front of a non-empty string, as \<open>utf8.DecodeRuneInString\<close> finds
  it: an invalid or short sequence is one replacement rune of width 1.
\<close>

fun rune_width :: "string \<Rightarrow> nat" where
  "rune_width [] = 0"
| "rune_width (a # s) =
     (if byte_in 0xC2 0xDF a \<and> (case s of b # _ \<Rightarrow> cont_byte b | _ \<Rightarrow> False) then 2
      else if byte_in 0xE0 0xEF a \<and>
        (case s of b # c # _ \<Rightarrow>
            byte_in (if byte a = 0xE0 then 0xA0 else 0x80) (if byte a = 0xED then 0x9F else 0xBF) b
            \<and> cont_byte c
         | _ \<Rightarrow> False) then 3
      else if byte_in 0xF0 0xF4 a \<and>
        (case s of b # c # d # _ \<Rightarrow>
            byte_in (if byte a = 0xF0 then 0x90 else 0x80) (if byte a = 0xF4 then 0x8F else 0xBF) b
            \<and> cont_byte c \<and> cont_byte d
         | _ \<Rightarrow> False) then 4
      else 1)"

lemma rune_width_bounds: "s \<noteq> [] \<Longrightarrow> 1 \<le> rune_width s \<and> rune_width s \<le> 4"
  by (cases s) auto

lemma rune_width_length: "rune_width s \<le> length s"
  by (cases s) (auto split: list.splits)

declare rune_width.simps [simp del]

text \<open>\<open>len([]rune(s))\<close>\<close>

fun rune_count :: "string \<Rightarrow> nat" where
  "rune_count [] = 0"
| "rune_count (a # s) = Suc (rune_count (drop (rune_width (a # s) - 1) s))"

lemma rune_count_le_length: "rune_count s \<le> length s"
proof (induction s rule: rune_count.induct)
  case (2 a s)
  then show ?case by simp
qed simp

lemma length_le_rune_count: "length s \<le> 4 * rune_count s"
proof (induction s rule: rune_count.induct)
  case (2 a s)
  have "rune_width (a # s) \<le> 4" using rune_width_bounds [of "a # s"] by blast
  with 2 show ?case by simp
qed simp

lemma rune_count_eq_0 [simp]: "rune_count s = 0 \<longleftrightarrow> s = []"
  by (cases s) simp_all

section \<open>Trimming\<close>

text \<open>The UTF-8 encodings of the runes \<open>unicode.IsSpace\<close> accepts.\<close>

definition go_spaces :: "string list" where
  "go_spaces =
    [[CHR 0x09], [CHR 0x0A], [CHR 0x0B], [CHR 0x0C], [CHR 0x0D], [CHR 0x20],
     [CHR 0xC2, CHR 0x85], [CHR 0xC2, CHR 0xA0], [CHR 0xE1, CHR 0x9A, CHR 0x80],
     [CHR 0xE2, CHR 0x80, CHR 0x80], [CHR 0xE2, CHR 0x80, CHR 0x81], [CHR 0xE2, CHR 0x80, CHR 0x82],
     [CHR 0xE2, CHR 0x80, CHR 0x83], [CHR 0xE2, CHR 0x80, CHR 0x84], [CHR 0xE2, CHR 0x80, CHR 0x85],
     [CHR 0xE2, CHR 0x80, CHR 0x86], [CHR 0xE2, CHR 0x80, CHR 0x87], [CHR 0xE2, CHR 0x80, CHR 0x88],
     [CHR 0xE2, CHR 0x80, CHR 0x89], [CHR 0xE2, CHR 0x80, CHR 0x8A], [CHR 0xE2, CHR 0x80, CHR 0xA8],
     [CHR 0xE2, CHR 0x80, CHR 0xA9], [CHR 0xE2, CHR 0x80, CHR 0xAF], [CHR 0xE2, CHR 0x81, CHR 0x9F],
     [CHR 0xE3, CHR 0x80, CHR 0x80]]"

text \<open>Remove the first of the given encodings that the string starts with.\<close>

fun strip_one :: "string list \<Rightarrow> string \<Rightarrow> string option" where
  "strip_one [] s = None"
| "strip_one (e # es) s =
     (if e \<noteq> [] \<and> take (length e) s = e then Some (drop (length e) s) else strip_one es s)"

lemma strip_one_shorter: "strip_one es s = Some t \<Longrightarrow> length t < length s"
proof (induction es)
  case (Cons e es)
  show ?case
  proof (cases "e \<noteq> [] \<and> take (length e) s = e")
    case True
    then have "length e \<le> length s" by (metis length_take min.cobounded1)
    moreover have "0 < length e" using True by simp
    moreover have "length t = length s - length e" using True Cons.prems by auto
    ultimately show ?thesis by linarith
  next
    case False
    with Cons show ?thesis by simp
  qed
qed simp

function trim_front :: "string list \<Rightarrow> string \<Rightarrow> string" where
  "trim_front es s = (case strip_one es s of None \<Rightarrow> s | Some t \<Rightarrow> trim_front es t)"
  by pat_completeness auto
termination
  by (relation "measure (\<lambda>(es, s). length s)") (auto dest: strip_one_shorter)

declare trim_front.simps [simp del]

definition TrimLeftSpace :: "string \<Rightarrow> string" where
  "TrimLeftSpace s = trim_front go_spaces s"

text \<open>From the right the last rune is decoded: the same loop on the reversed bytes.\<close>

definition TrimRightSpace :: "string \<Rightarrow> string" where
  "TrimRightSpace s = rev (trim_front (map rev go_spaces) (rev s))"

definition TrimSpace :: "string \<Rightarrow> string" where
  "TrimSpace s = TrimRightSpace (TrimLeftSpace s)"

lemma trim_front_step: "strip_one es s = Some t \<Longrightarrow> trim_front es s = trim_front es t"
  by (subst trim_front.simps) simp

lemma trim_front_stop [simp]: "strip_one es s = None \<Longrightarrow> trim_front es s = s"
  by (subst trim_front.simps) simp

lemma strip_one_trim_front [simp]: "strip_one es (trim_front es s) = None"
proof (induction es s rule: trim_front.induct)
  case (1 es s)
  then show ?case by (cases "strip_one es s") (simp_all add: trim_front_step)
qed

lemma strip_one_suffix: "strip_one es s = Some t \<Longrightarrow> suffix t s"
  by (induction es) (auto simp: suffix_drop split: if_splits)

lemma trim_front_suffix: "suffix (trim_front es s) s"
proof (induction es s rule: trim_front.induct)
  case (1 es s)
  then show ?case
    by (cases "strip_one es s")
      (auto simp: trim_front_step dest: strip_one_suffix intro: suffix_order.trans)
qed

lemma strip_one_None_prefix:
  assumes "prefix p s" and "strip_one es s = None"
  shows "strip_one es p = None"
  using assms(2)
proof (induction es)
  case (Cons e es)
  obtain q where s: "s = p @ q" using assms(1) by (auto elim: prefixE)
  have "take (length e) s = e" if "take (length e) p = e"
    using that s by (metis append_take_drop_id take_all_iff take_append length_take linorder_le_cases min_def diff_is_0_eq append.right_neutral take0)
  with Cons show ?case by (auto split: if_splits)
qed simp

lemma strip_one_Nil [simp]: "strip_one es [] = None"
  by (induction es) auto

lemma trim_front_Nil [simp]: "trim_front es [] = []"
  by simp

lemma TrimSpace_Nil [simp]: "TrimSpace [] = []"
  by (simp add: TrimSpace_def TrimLeftSpace_def TrimRightSpace_def)

lemma TrimRightSpace_prefix: "prefix (TrimRightSpace s) s"
  using trim_front_suffix [of "map rev go_spaces" "rev s"]
  by (simp add: TrimRightSpace_def suffix_to_prefix)

lemma length_TrimSpace: "length (TrimSpace s) \<le> length s"
proof -
  have "length (TrimSpace s) \<le> length (TrimLeftSpace s)"
    by (simp add: TrimSpace_def prefix_length_le TrimRightSpace_prefix)
  also have "\<dots> \<le> length s"
    by (simp add: TrimLeftSpace_def suffix_length_le trim_front_suffix)
  finally show ?thesis .
qed

lemma TrimSpace_idem [simp]: "TrimSpace (TrimSpace s) = TrimSpace s"
proof -
  let ?t = "TrimLeftSpace s"
  have "strip_one go_spaces ?t = None"
    by (simp add: TrimLeftSpace_def)
  then have "strip_one go_spaces (TrimRightSpace ?t) = None"
    by (rule strip_one_None_prefix [OF TrimRightSpace_prefix])
  then have "TrimLeftSpace (TrimRightSpace ?t) = TrimRightSpace ?t"
    by (simp add: TrimLeftSpace_def)
  moreover have "TrimRightSpace (TrimRightSpace ?t) = TrimRightSpace ?t"
    by (simp add: TrimRightSpace_def)
  ultimately show ?thesis by (simp add: TrimSpace_def)
qed

text \<open>A text that starts and ends with a visible ASCII character is left as it is.\<close>

definition visible :: "char \<Rightarrow> bool" where
  "visible c \<longleftrightarrow> byte_in 33 126 c"

lemma strip_one_hd:
  "s \<noteq> [] \<Longrightarrow> \<forall>e\<in>set es. e \<noteq> [] \<longrightarrow> hd e \<noteq> hd s \<Longrightarrow> strip_one es s = None"
proof (induction es)
  case (Cons e es)
  then have "\<not> (e \<noteq> [] \<and> take (length e) s = e)" by (cases s; cases e) auto
  with Cons show ?case by simp
qed simp

lemma go_spaces_not_visible:
  "\<forall>e\<in>set go_spaces. \<not> visible (hd e)" "\<forall>e\<in>set (map rev go_spaces). \<not> visible (hd e)"
  by code_simp+

lemma TrimSpace_visible:
  assumes "s \<noteq> []" and "visible (hd s)" and "visible (last s)"
  shows "TrimSpace s = s"
proof -
  have "strip_one go_spaces s = None"
    using assms go_spaces_not_visible(1) by (intro strip_one_hd) auto
  moreover have "strip_one (map rev go_spaces) (rev s) = None"
    using assms go_spaces_not_visible(2) by (intro strip_one_hd) (auto simp: hd_rev)
  ultimately show ?thesis by (simp add: TrimSpace_def TrimLeftSpace_def TrimRightSpace_def)
qed

text \<open>Trimming removes whole encodings of spaces, so it keeps every visible character.\<close>

lemma strip_one_split: "strip_one es s = Some t \<Longrightarrow> \<exists>e\<in>set es. s = e @ t"
proof (induction es)
  case (Cons e es)
  show ?case
  proof (cases "e \<noteq> [] \<and> take (length e) s = e")
    case True
    with Cons.prems have "t = drop (length e) s" by simp
    with True have "s = e @ t" by (metis append_take_drop_id)
    then show ?thesis by simp
  next
    case False
    with Cons show ?thesis by auto
  qed
qed simp

lemma trim_front_keeps:
  "\<forall>e\<in>set es. c \<notin> set e \<Longrightarrow> c \<in> set s \<Longrightarrow> c \<in> set (trim_front es s)"
proof (induction es s rule: trim_front.induct)
  case (1 es s)
  show ?case
  proof (cases "strip_one es s")
    case (Some t)
    with 1 strip_one_split [OF Some] show ?thesis by (auto simp: trim_front_step)
  qed (use 1 in simp)
qed

lemma go_spaces_invisible: "\<forall>e\<in>set go_spaces. \<forall>c\<in>set e. \<not> visible c"
  by code_simp

lemma TrimSpace_keeps: "visible c \<Longrightarrow> c \<in> set s \<Longrightarrow> c \<in> set (TrimSpace s)"
  using go_spaces_invisible
  by (auto simp: TrimSpace_def TrimLeftSpace_def TrimRightSpace_def intro!: trim_front_keeps)

text \<open>A text that trims to nothing is a sequence of encodings of spaces, which form a prefix code.\<close>

definition blank :: "string \<Rightarrow> bool" where
  "blank s \<longleftrightarrow> (\<exists>ws. set ws \<subseteq> set go_spaces \<and> s = concat ws)"

lemma blankE:
  assumes "blank s"
  obtains ws where "set ws \<subseteq> set go_spaces" and "s = concat ws"
proof -
  obtain ws where ws: "set ws \<subseteq> set go_spaces \<and> s = concat ws" using assms unfolding blank_def ..
  show thesis by (rule that [OF conjunct1 [OF ws] conjunct2 [OF ws]])
qed

lemma go_spaces_prefix_code:
  "\<forall>v\<in>set go_spaces. \<forall>w\<in>set go_spaces. take (length v) w = v \<longrightarrow> v = w"
  "\<forall>w\<in>set go_spaces. w \<noteq> []" "\<forall>w\<in>set go_spaces. CHR '' '' \<in> set w \<longrightarrow> w = '' ''"
  by code_simp+

lemma go_spaces_cancel:
  assumes "v @ s = w @ t" and "v \<in> set go_spaces" and "w \<in> set go_spaces"
  shows "v = w \<and> s = t"
proof -
  have "take (length v) w = v \<or> take (length w) v = w"
    using assms(1) by (metis append_eq_append_conv_if)
  then have "v = w" using go_spaces_prefix_code(1) assms(2,3) by metis
  with assms(1) show ?thesis by simp
qed

lemma trim_front_decomp: "\<exists>ws. set ws \<subseteq> set es \<and> s = concat ws @ trim_front es s"
proof (induction es s rule: trim_front.induct)
  case (1 es s)
  show ?case
  proof (cases "strip_one es s")
    case None
    then show ?thesis by (intro exI [of _ "[]"]) simp
  next
    case (Some t)
    obtain e where e: "e \<in> set es" "s = e @ t" using strip_one_split [OF Some] by blast
    obtain ws where ws: "set ws \<subseteq> set es" "t = concat ws @ trim_front es t" using 1 [OF Some] by blast
    have "s = concat (e # ws) @ trim_front es s"
      using e(2) ws(2) trim_front_step [OF Some] by (metis append_assoc concat.simps(2))
    with e(1) ws(1) show ?thesis by (intro exI [of _ "e # ws"]) simp
  qed
qed

lemma strip_one_word: "e \<in> set es \<Longrightarrow> e \<noteq> [] \<Longrightarrow> strip_one es (e @ t) \<noteq> None"
  by (induction es) auto

lemma blank_trimmed:
  assumes "set ws \<subseteq> set go_spaces" and "set vs \<subseteq> set go_spaces" and "concat ws = concat vs @ t"
    and "strip_one go_spaces t = None"
  shows "t = []"
  using assms
proof (induction vs arbitrary: ws)
  case Nil
  show ?case
  proof (cases ws)
    case (Cons w ws')
    with Nil go_spaces_prefix_code(2) strip_one_word [of w go_spaces "concat ws'"] show ?thesis by auto
  qed (use Nil in simp)
next
  case (Cons v vs)
  show ?case
  proof (cases ws)
    case Nil
    with Cons.prems go_spaces_prefix_code(2) show ?thesis by auto
  next
    case (Cons w ws')
    with Cons.prems have "v = w \<and> concat vs @ t = concat ws'" by (intro go_spaces_cancel) auto
    with Cons.IH [of ws'] Cons.prems Cons show ?thesis by simp
  qed
qed

lemma TrimSpace_eq_Nil: "TrimSpace s = [] \<longleftrightarrow> blank s"
proof
  obtain ws where ws: "set ws \<subseteq> set go_spaces" "s = concat ws @ TrimLeftSpace s"
    unfolding TrimLeftSpace_def using trim_front_decomp by blast
  let ?t = "TrimLeftSpace s"
  obtain vs where vs: "set vs \<subseteq> set (map rev go_spaces)" "rev ?t = concat vs @ trim_front (map rev go_spaces) (rev ?t)"
    using trim_front_decomp by blast
  show "blank s" if "TrimSpace s = []"
  proof -
    have "rev ?t = concat vs" using that vs(2) by (simp add: TrimSpace_def TrimRightSpace_def)
    then have "?t = concat (rev (map rev vs))" by (metis rev_concat rev_map rev_rev_ident)
    moreover have "set (rev (map rev vs)) \<subseteq> set go_spaces" using vs(1) by auto
    ultimately show ?thesis unfolding blank_def using ws
      by (intro exI [of _ "ws @ rev (map rev vs)"]) (metis concat_append le_supI set_append)
  qed
  show "TrimSpace s = []" if blank: "blank s"
  proof -
    obtain us where us: "set us \<subseteq> set go_spaces" "s = concat us" by (rule blankE [OF blank])
    have "strip_one go_spaces ?t = None" by (simp add: TrimLeftSpace_def)
    with blank_trimmed [OF us(1) ws(1)] us(2) ws(2) have "?t = []" by metis
    then show ?thesis by (simp add: TrimSpace_def TrimRightSpace_def)
  qed
qed

lemma blank_front: "blank (p @ '' '' @ q) \<Longrightarrow> blank p"
proof -
  have "set ws \<subseteq> set go_spaces \<Longrightarrow> concat ws = p @ '' '' @ q \<Longrightarrow> blank p" for ws
  proof (induction ws arbitrary: p)
    case (Cons w ws)
    show ?case
    proof (cases "length w \<le> length p")
      case True
      with Cons.prems(2) have w: "p = w @ drop (length w) p" "concat ws = drop (length w) p @ '' '' @ q"
        by (simp_all add: append_eq_append_conv_if) (metis append_take_drop_id)
      then have "blank (drop (length w) p)" using Cons.IH Cons.prems(1) by simp
      then obtain vs where vs: "set vs \<subseteq> set go_spaces" "drop (length w) p = concat vs" by (auto simp: blank_def)
      have "p = concat (w # vs)" using w(1) vs(2) by simp
      moreover have "set (w # vs) \<subseteq> set go_spaces" using Cons.prems(1) vs(1) by simp
      ultimately show ?thesis unfolding blank_def by blast
    next
      case False
      have "w ! length p = CHR '' ''"
        using False Cons.prems(2) by (metis append_Cons concat.simps(2) nth_append nth_append_length not_le)
      then have "w = '' ''" using False Cons.prems(1) go_spaces_prefix_code(3) nth_mem [of "length p" w] by auto
      with False have "p = []" by (cases p) simp_all
      then show ?thesis unfolding blank_def by (intro exI [of _ "[]"]) simp
    qed
  qed simp
  then show "blank (p @ '' '' @ q) \<Longrightarrow> blank p" by (metis blank_def)
qed

text \<open>\<open>strings.TrimRight(s, c)\<close> for a one-byte ASCII cutset.\<close>

definition TrimRight :: "string \<Rightarrow> char \<Rightarrow> string" where
  "TrimRight s c = rev (dropWhile (\<lambda>x. x = c) (rev s))"

lemma TrimRight_idem [simp]: "TrimRight (TrimRight s c) c = TrimRight s c"
  by (simp add: TrimRight_def)

lemma TrimRight_last: "TrimRight s c \<noteq> [] \<Longrightarrow> last (TrimRight s c) \<noteq> c"
  using hd_dropWhile [of "\<lambda>x. x = c" "rev s"] by (simp add: TrimRight_def last_rev)

section \<open>Splitting, joining, replacing\<close>

text \<open>\<open>strings.Split\<close> at a one-byte separator: never the empty list.\<close>

fun Split :: "string \<Rightarrow> char \<Rightarrow> string list" where
  "Split [] sep = [[]]"
| "Split (c # s) sep =
     (if c = sep then [] # Split s sep
      else (case Split s sep of [] \<Rightarrow> [[c]] | p # ps \<Rightarrow> (c # p) # ps))"

fun Join :: "string list \<Rightarrow> string \<Rightarrow> string" where
  "Join [] sep = []"
| "Join [p] sep = p"
| "Join (p # q # ps) sep = p @ sep @ Join (q # ps) sep"

lemma Join_blank:
  assumes "\<forall>p\<in>set parts. TrimSpace p \<noteq> []"
  shows "TrimSpace (Join parts '' '') = [] \<longleftrightarrow> parts = []"
proof (cases parts rule: list.exhaust)
  case (Cons p ps)
  have "blank p" if "blank (Join parts '' '')"
    using that Cons blank_front [of p] by (cases ps) auto
  with assms Cons show ?thesis by (auto simp: TrimSpace_eq_Nil)
qed simp

lemma Split_not_Nil [simp]: "Split s sep \<noteq> []"
  by (cases s) (auto split: list.splits)

lemma Join_Split: "Join (Split s sep) [sep] = s"
proof (induction s)
  case (Cons c s)
  obtain p ps where split: "Split s sep = p # ps" by (cases "Split s sep") simp_all
  show ?case using Cons.IH split by (cases ps) auto
qed simp

lemma Split_no_sep: "p \<in> set (Split s sep) \<Longrightarrow> sep \<notin> set p"
  by (induction s arbitrary: p) (auto split: list.splits if_splits)

text \<open>\<open>strings.ReplaceAll(s, "x", "y")\<close> for one-byte arguments.\<close>

definition ReplaceAll :: "string \<Rightarrow> char \<Rightarrow> char \<Rightarrow> string" where
  "ReplaceAll s x y = map (\<lambda>c. if c = x then y else c) s"

text \<open>
  \<open>strings.ToLower\<close>.  ASCII letters are folded; of the other runes only U+0130 and U+212A have an
  ASCII lower case (\<open>i\<close> and \<open>k\<close>).  Every remaining rune maps to a non-ASCII one and is kept
  as it is here: the program only compares the result with ASCII names.
\<close>

definition lower_byte :: "char \<Rightarrow> char" where
  "lower_byte c = (if byte_in 65 90 c then char_of (byte c + 32) else c)"

fun ToLower :: "string \<Rightarrow> string" where
  "ToLower [] = []"
| "ToLower (c # s) =
     (if take 2 (c # s) = [CHR 0xC4, CHR 0xB0] then CHR ''i'' # ToLower (drop 1 s)
      else if take 3 (c # s) = [CHR 0xE2, CHR 0x84, CHR 0xAA] then CHR ''k'' # ToLower (drop 2 s)
      else lower_byte c # ToLower s)"

section \<open>Decimal numbers\<close>

definition digit :: "nat \<Rightarrow> char" where
  "digit d = char_of (48 + d)"

definition is_digit :: "char \<Rightarrow> bool" where
  "is_digit c = byte_in 48 57 c"

fun nat_str :: "nat \<Rightarrow> string" where
  "nat_str n = (if n < 10 then [digit n] else nat_str (n div 10) @ [digit (n mod 10)])"

declare nat_str.simps [simp del]

text \<open>\<open>%d\<close> of \<open>fmt\<close>\<close>

definition itoa :: "int \<Rightarrow> string" where
  "itoa k = (if k < 0 then CHR ''-'' # nat_str (nat (- k)) else nat_str (nat k))"

definition digits_val :: "string \<Rightarrow> nat" where
  "digits_val s = foldl (\<lambda>acc c. 10 * acc + (byte c - 48)) 0 s"

text \<open>\<open>strconv.Atoi\<close>: an optional sign and decimal digits, in the range of a 64-bit \<open>int\<close>.\<close>

definition Atoi :: "string \<Rightarrow> int option" where
  "Atoi s =
     (let neg = (s \<noteq> [] \<and> hd s = CHR ''-'');
          ds = (if s \<noteq> [] \<and> (hd s = CHR ''-'' \<or> hd s = CHR ''+'') then tl s else s);
          v = (if neg then - int (digits_val ds) else int (digits_val ds))
      in if ds = [] \<or> \<not> list_all is_digit ds then None
         else if - (2 ^ 63) \<le> v \<and> v < 2 ^ 63 then Some v else None)"

lemma byte_digit [simp]: "d < 10 \<Longrightarrow> byte (digit d) = 48 + d"
  by (simp add: digit_def)

lemma is_digit_digit [simp]: "d < 10 \<Longrightarrow> is_digit (digit d)"
  by (simp add: is_digit_def byte_in_def)

lemma nat_str_digits: "list_all is_digit (nat_str n)"
proof (induction n rule: nat_str.induct)
  case (1 n)
  then show ?case by (subst nat_str.simps) simp
qed

lemma nat_str_not_Nil [simp]: "nat_str n \<noteq> []"
  by (subst nat_str.simps) simp

lemma digits_val_nat_str [simp]: "digits_val (nat_str n) = n"
proof (induction n rule: nat_str.induct)
  case (1 n)
  then show ?case by (subst nat_str.simps) (simp add: digits_val_def)
qed

lemma nat_str_inject [simp]: "nat_str m = nat_str n \<longleftrightarrow> m = n"
  by (metis digits_val_nat_str)

lemma hd_nat_str: "is_digit (hd (nat_str n))"
  using nat_str_digits [of n] by (cases "nat_str n") simp_all

lemma sign_not_digit [simp]: "\<not> is_digit CHR ''-''" "\<not> is_digit CHR ''+''"
  by (simp_all add: is_digit_def byte_in_def)

lemma hd_nat_str_sign [simp]: "hd (nat_str n) \<noteq> CHR ''-''" "hd (nat_str n) \<noteq> CHR ''+''"
  using hd_nat_str [of n] sign_not_digit by metis+

lemma itoa_inject [simp]: "itoa j = itoa k \<longleftrightarrow> j = k"
proof
  assume "itoa j = itoa k"
  moreover have "CHR ''-'' # t \<noteq> nat_str n" for t n
    using hd_nat_str_sign(1) [of n] by (metis list.sel(1))
  ultimately show "j = k"
    by (auto simp: itoa_def split: if_splits) (metis)+
qed simp

lemma Atoi_itoa: "- (2 ^ 63) \<le> k \<Longrightarrow> k < 2 ^ 63 \<Longrightarrow> Atoi (itoa k) = Some k"
proof (cases "k < 0")
  case True
  then have "itoa k = CHR ''-'' # nat_str (nat (- k))" by (simp add: itoa_def)
  moreover assume "- (2 ^ 63) \<le> k" "k < 2 ^ 63"
  ultimately show ?thesis
    using True by (simp add: Atoi_def Let_def nat_str_digits)
next
  case False
  then have "itoa k = nat_str (nat k)" and "int (nat k) = k" by (simp_all add: itoa_def)
  moreover assume "- (2 ^ 63) \<le> k" "k < 2 ^ 63"
  ultimately show ?thesis
    by (simp add: Atoi_def Let_def nat_str_digits del: int_nat_eq)
qed

lemma last_itoa: "is_digit (last (itoa k))"
proof -
  have "is_digit (last (nat_str n))" for n
    using nat_str_digits [of n] last_in_set [OF nat_str_not_Nil [of n]] by (simp only: list_all_iff)
  then show ?thesis by (simp add: itoa_def)
qed

section \<open>Hexadecimal\<close>

definition hex_digit :: "nat \<Rightarrow> char" where
  "hex_digit n = (if n < 10 then char_of (48 + n) else char_of (87 + n))"

text \<open>\<open>hex.EncodeToString\<close>\<close>

fun hex_encode :: "string \<Rightarrow> string" where
  "hex_encode [] = []"
| "hex_encode (c # s) = hex_digit (byte c div 16) # hex_digit (byte c mod 16) # hex_encode s"

lemma length_hex_encode [simp]: "length (hex_encode s) = 2 * length s"
  by (induction s) simp_all

lemma byte_hex_digit: "n < 16 \<Longrightarrow> byte (hex_digit n) = (if n < 10 then 48 + n else 87 + n)"
  by (simp add: hex_digit_def)

lemma hex_digit_inject: "m < 16 \<Longrightarrow> n < 16 \<Longrightarrow> hex_digit m = hex_digit n \<longleftrightarrow> m = n"
proof
  assume m: "m < 16" and n: "n < 16" and "hex_digit m = hex_digit n"
  then have "byte (hex_digit m) = byte (hex_digit n)" by simp
  with m n show "m = n" by (simp add: byte_hex_digit split: if_splits)
qed simp

lemma hex_encode_inject: "hex_encode s = hex_encode t \<longleftrightarrow> s = t"
proof (induction s arbitrary: t)
  case Nil
  then show ?case by (cases t) simp_all
next
  case (Cons c s)
  show ?case
  proof (cases t)
    case (Cons d t')
    have bound: "byte x div 16 < 16" for x :: char
      using mod_less_divisor [of 256 "byte x"] by (intro less_mult_imp_div_less) simp
    have "byte c div 16 = byte d div 16 \<and> byte c mod 16 = byte d mod 16 \<longleftrightarrow> c = d"
      by (metis div_mult_mod_eq char_of_char)
    then have "hex_encode (c # s) = hex_encode t \<longleftrightarrow> c = d \<and> hex_encode s = hex_encode t'"
      using Cons bound [of c] bound [of d] by (simp add: hex_digit_inject) blast
    with Cons.IH [of t'] Cons show ?thesis by simp
  qed simp
qed

lemma visible_hex_encode: "c \<in> set (hex_encode s) \<Longrightarrow> visible c"
proof (induction s)
  case (Cons a s)
  have "byte a < 256" by (rule nat_of_char_less_256)
  then have "byte a div 16 < 16" by linarith
  moreover have "visible (hex_digit n)" if "n < 16" for n
    using that by (simp add: visible_def byte_in_def byte_hex_digit)
  ultimately have "visible (hex_digit (byte a div 16))" "visible (hex_digit (byte a mod 16))"
    by simp_all
  with Cons show ?case by auto
qed simp

section \<open>Quoting\<close>

text \<open>
  \<open>%q\<close> of \<open>fmt\<close> on ASCII strings: printable characters stand for themselves, a quote and a
  backslash are escaped, control characters have their escapes.  Bytes above 127 are kept (Go keeps
  printable runes and escapes the others).
\<close>

definition quote_byte :: "char \<Rightarrow> string" where
  "quote_byte c =
     (if c = CHR 0x22 then [CHR 0x5C, c]
      else if c = CHR 0x5C then [c, c]
      else if byte c = 7 then [CHR 0x5C, CHR ''a'']
      else if byte c = 8 then [CHR 0x5C, CHR ''b'']
      else if byte c = 9 then [CHR 0x5C, CHR ''t'']
      else if byte c = 10 then [CHR 0x5C, CHR ''n'']
      else if byte c = 11 then [CHR 0x5C, CHR ''v'']
      else if byte c = 12 then [CHR 0x5C, CHR ''f'']
      else if byte c = 13 then [CHR 0x5C, CHR ''r'']
      else if byte c < 32 \<or> byte c = 127 then [CHR 0x5C, CHR ''x''] @ hex_encode [c]
      else [c])"

definition quote :: "string \<Rightarrow> string" where
  "quote s = [CHR 0x22] @ concat (map quote_byte s) @ [CHR 0x22]"

end
