(* ===== verification/Backend.thy ===== *)
theory Backend
  imports GoStrings
begin

text \<open>
  \<open>internal/router/backend.go\<close> and the memory the router's objects live in.  A \<open>*Backend\<close> is an
  address: the configuration, every strategy and the request handlers share the same backend
  objects, so a health change made through one of them is seen by all.  A \<open>*atomic.Int64\<close> load
  counter is an address too, since a decision keeps the counter it has to decrement after the
  strategy that owns it is gone.
\<close>

section \<open>Memory\<close>

type_synonym baddr = nat
type_synonym cref = nat

record backend =
  backend_Name :: string
  backend_BaseURL :: string
  backend_healthy :: bool

record mem =
  mem_backend :: "baddr \<Rightarrow> backend"
  mem_next_backend :: baddr
  mem_cell :: "cref \<Rightarrow> int64"
  mem_next_cell :: cref

definition empty_mem :: mem where
  "empty_mem = \<lparr>mem_backend = (\<lambda>_. \<lparr>backend_Name = [], backend_BaseURL = [], backend_healthy = False\<rparr>),
     mem_next_backend = 0, mem_cell = (\<lambda>_. 0), mem_next_cell = 0\<rparr>"

text \<open>\<open>&atomic.Int64{}\<close>, \<open>c.Load()\<close> and \<open>c.Add(d)\<close> (which returns the new value and wraps around).\<close>

definition new_cell :: "mem \<Rightarrow> cref \<times> mem" where
  "new_cell m = (mem_next_cell m,
     m\<lparr>mem_cell := (mem_cell m)(mem_next_cell m := 0), mem_next_cell := Suc (mem_next_cell m)\<rparr>)"

definition cell_Load :: "mem \<Rightarrow> cref \<Rightarrow> int64" where
  "cell_Load m c = mem_cell m c"

definition cell_Add :: "cref \<Rightarrow> int64 \<Rightarrow> mem \<Rightarrow> int64 \<times> mem" where
  "cell_Add c d m = (mem_cell m c + d, m\<lparr>mem_cell := (mem_cell m)(c := mem_cell m c + d)\<rparr>)"

section \<open>Backends\<close>

text \<open>
  \<open>url.ParseRequestURI\<close> is the argument \<open>parse_uri\<close>: the error it returns, if any.
\<close>

definition NewBackend ::
  "(string \<Rightarrow> gerror option) \<Rightarrow> string \<Rightarrow> string \<Rightarrow> mem \<Rightarrow> baddr outcome \<times> mem" where
  "NewBackend parse_uri name baseURL m =
     (case parse_uri baseURL of
        Some e \<Rightarrow> (Err e, m)
      | None \<Rightarrow>
          (Ok (mem_next_backend m),
           m\<lparr>mem_backend := (mem_backend m)(mem_next_backend m :=
                \<lparr>backend_Name = TrimSpace name, backend_BaseURL = TrimRight baseURL CHR ''/'',
                 backend_healthy = True\<rparr>),
             mem_next_backend := Suc (mem_next_backend m)\<rparr>))"

definition SetHealthy :: "baddr \<Rightarrow> bool \<Rightarrow> mem \<Rightarrow> mem" where
  "SetHealthy b h m =
     m\<lparr>mem_backend := (mem_backend m)(b := (mem_backend m b)\<lparr>backend_healthy := h\<rparr>)\<rparr>"

definition Healthy :: "mem \<Rightarrow> baddr \<Rightarrow> bool" where
  "Healthy m b = backend_healthy (mem_backend m b)"

definition Name :: "mem \<Rightarrow> baddr \<Rightarrow> string" where
  "Name m b = backend_Name (mem_backend m b)"

definition BaseURL :: "mem \<Rightarrow> baddr \<Rightarrow> string" where
  "BaseURL m b = backend_BaseURL (mem_backend m b)"

section \<open>Lemmas\<close>

lemma Healthy_SetHealthy [simp]: "Healthy (SetHealthy b h m) c = (if c = b then h else Healthy m c)"
  by (simp add: Healthy_def SetHealthy_def)

lemma Name_SetHealthy [simp, frame_simps]: "Name (SetHealthy b h m) c = Name m c"
  by (simp add: Name_def SetHealthy_def)

lemma BaseURL_SetHealthy [simp, frame_simps]: "BaseURL (SetHealthy b h m) c = BaseURL m c"
  by (simp add: BaseURL_def SetHealthy_def)

lemma SetHealthy_cells [simp, frame_simps]:
  "mem_cell (SetHealthy b h m) = mem_cell m"
  "mem_next_cell (SetHealthy b h m) = mem_next_cell m"
  "mem_next_backend (SetHealthy b h m) = mem_next_backend m"
  by (simp_all add: SetHealthy_def)

lemma cell_Add_simps [simp]:
  "fst (cell_Add c d m) = cell_Load m c + d"
  "cell_Load (snd (cell_Add c d m)) e = (if e = c then cell_Load m c + d else cell_Load m e)"
  "mem_backend (snd (cell_Add c d m)) = mem_backend m"
  "mem_next_cell (snd (cell_Add c d m)) = mem_next_cell m"
  "mem_next_backend (snd (cell_Add c d m)) = mem_next_backend m"
  by (simp_all add: cell_Add_def cell_Load_def)

lemma Healthy_cell_Add [simp]: "Healthy (snd (cell_Add c d m)) b = Healthy m b"
  by (simp add: Healthy_def)

lemma new_cell_simps [simp]:
  "fst (new_cell m) = mem_next_cell m"
  "mem_backend (snd (new_cell m)) = mem_backend m"
  "mem_next_cell (snd (new_cell m)) = Suc (mem_next_cell m)"
  "mem_next_backend (snd (new_cell m)) = mem_next_backend m"
  "cell_Load (snd (new_cell m)) e = (if e = mem_next_cell m then 0 else cell_Load m e)"
  by (simp_all add: new_cell_def cell_Load_def)

lemma mem_eqI:
  "mem_backend m = mem_backend n \<Longrightarrow> mem_next_backend m = mem_next_backend n \<Longrightarrow>
   cell_Load m = cell_Load n \<Longrightarrow> mem_next_cell m = mem_next_cell n \<Longrightarrow> m = (n :: mem)"
  by (cases m, cases n) (simp add: cell_Load_def fun_eq_iff)

lemma cell_Add_cancel: "snd (cell_Add c (- d) (snd (cell_Add c d m))) = m"
  by (rule mem_eqI) (auto simp: fun_eq_iff)

text \<open>A new backend has a fresh address, is healthy, and its base URL carries no trailing slash.\<close>

lemma NewBackend_Ok:
  assumes "NewBackend parse_uri name url m = (Ok b, m')"
  shows "b = mem_next_backend m" and "Healthy m' b" and "Name m' b = TrimSpace name"
    and "BaseURL m' b = TrimRight url CHR ''/''" and "mem_next_backend m' = Suc b"
    and "c \<noteq> b \<Longrightarrow> mem_backend m' c = mem_backend m c"
    and "mem_cell m' = mem_cell m" and "mem_next_cell m' = mem_next_cell m"
    and "parse_uri url = None"
  using assms by (auto simp: NewBackend_def Healthy_def Name_def BaseURL_def split: option.splits)

lemma NewBackend_not_Panic: "NewBackend parse_uri name url m \<noteq> (Panic, m')"
  by (auto simp: NewBackend_def split: option.splits)

lemma NewBackend_Err: "NewBackend parse_uri name url m = (Err e, m') \<Longrightarrow> m' = m \<and> parse_uri url = Some e"
  by (auto simp: NewBackend_def split: option.splits)

end
