(* ===== verification/Strategy.thy ===== *)
theory Strategy
  imports Backend
begin

text \<open>
  \<open>internal/router/strategy.go\<close>: the strategy names, the input of a selection, the decision with
  its once-only release, and the \<open>Strategy\<close> interface as a locale.  The locale's assumptions are
  the contract the request handler and the readiness probe rely on; the five strategies are
  interpretations of it, each in the theory that models it.
\<close>

section \<open>Names, input and decision\<close>

definition StrategyRoundRobin :: string where "StrategyRoundRobin = ''round_robin''"
definition StrategyLeastPending :: string where "StrategyLeastPending = ''least_pending''"
definition StrategyRandom :: string where "StrategyRandom = ''random''"
definition StrategyKVAware :: string where "StrategyKVAware = ''kv_aware''"
definition StrategyCostAware :: string where "StrategyCostAware = ''cost_aware''"

lemmas strategy_names =
  StrategyRoundRobin_def StrategyLeastPending_def StrategyRandom_def StrategyKVAware_def
  StrategyCostAware_def

text \<open>The \<open>Context\<close> field is only handed to the affinity store, which does not read it.\<close>

record selection_input =
  input_EstimatedCost :: int64
  input_CacheKey :: string

text \<open>
  A release function is the closure \<open>func() { load.Add(-delta) }\<close>, or nil; \<open>decision_once\<close> is
  the state of the \<open>sync.Once\<close>.
\<close>

datatype release_fn = NoRelease | SubtractFrom cref int64

record decision =
  decision_Backend :: baddr
  decision_PendingRequests :: int64
  decision_PendingCost :: int64
  decision_CacheHit :: bool
  decision_release :: release_fn
  decision_once :: bool

definition Release :: "decision \<Rightarrow> mem \<Rightarrow> decision \<times> mem" where
  "Release d m =
     (if decision_once d then (d, m)
      else (d\<lparr>decision_once := True\<rparr>,
            (case decision_release d of
               NoRelease \<Rightarrow> m
             | SubtractFrom c k \<Rightarrow> snd (cell_Add c (- k) m))))"

lemma Release_frame [simp, frame_simps]:
  "mem_backend (snd (Release d m)) = mem_backend m"
  "mem_next_cell (snd (Release d m)) = mem_next_cell m"
  "mem_next_backend (snd (Release d m)) = mem_next_backend m"
  by (auto simp: Release_def split: release_fn.splits)

lemma Release_twice: "Release (fst (Release d m)) n = (fst (Release d m), n)"
  by (auto simp: Release_def)

lemma Release_once [simp]: "decision_once (fst (Release d m))"
  by (simp add: Release_def)

lemma Healthy_Release [simp]: "Healthy (snd (Release d m)) b = Healthy m b"
  by (simp add: Healthy_def)

section \<open>Load held by outstanding decisions\<close>

text \<open>
  The load a decision puts on a counter until it is released, and the sum over a list of
  decisions.  A run of a strategy is any interleaving of selections, releases of decisions that
  are still outstanding (each decision is released once by its request) and health changes.
\<close>

definition decision_load :: "cref \<Rightarrow> decision \<Rightarrow> int64" where
  "decision_load c d =
     (case decision_release d of
        NoRelease \<Rightarrow> 0
      | SubtractFrom c' k \<Rightarrow> if c' = c then k else 0)"

definition held :: "cref \<Rightarrow> decision list \<Rightarrow> int64" where
  "held c ds = sum_list (map (decision_load c) ds)"

lemma held_simps [simp]:
  "held c [] = 0"
  "held c (d # ds) = decision_load c d + held c ds"
  "held c (ds @ es) = held c ds + held c es"
  by (simp_all add: held_def)

lemma cell_Load_Release:
  "\<not> decision_once d \<Longrightarrow> cell_Load (snd (Release d m)) c = cell_Load m c - decision_load c d"
  by (simp add: Release_def decision_load_def split: release_fn.splits)

inductive strategy_run ::
  "(selection_input \<Rightarrow> mem \<Rightarrow> 's \<Rightarrow> decision outcome \<times> mem \<times> 's) \<Rightarrow> mem \<Rightarrow> 's \<Rightarrow>
   mem \<Rightarrow> 's \<Rightarrow> decision list \<Rightarrow> bool"
  for sel :: "selection_input \<Rightarrow> mem \<Rightarrow> 's \<Rightarrow> decision outcome \<times> mem \<times> 's" and m0 :: mem and s0 :: 's
where
  run_start: "strategy_run sel m0 s0 m0 s0 []"
| run_select: "strategy_run sel m0 s0 m s ds \<Longrightarrow> sel inp m s = (Ok d, m', s') \<Longrightarrow>
     strategy_run sel m0 s0 m' s' (d # ds)"
| run_fail: "strategy_run sel m0 s0 m s ds \<Longrightarrow> sel inp m s = (Err e, m', s') \<Longrightarrow> m' = m \<Longrightarrow>
     strategy_run sel m0 s0 m' s' ds"
| run_release: "strategy_run sel m0 s0 m s (ds @ d # es) \<Longrightarrow>
     strategy_run sel m0 s0 (snd (Release d m)) s (ds @ es)"
| run_health: "strategy_run sel m0 s0 m s ds \<Longrightarrow>
     strategy_run sel m0 s0 (SetHealthy b h m) s ds"

text \<open>Selections only, with whatever result.\<close>

fun select_all ::
  "(selection_input \<Rightarrow> mem \<Rightarrow> 's \<Rightarrow> decision outcome \<times> mem \<times> 's) \<Rightarrow> selection_input list \<Rightarrow>
   mem \<Rightarrow> 's \<Rightarrow> mem \<times> 's" where
  "select_all sel [] m s = (m, s)"
| "select_all sel (inp # inps) m s = (case sel inp m s of (r, m', s') \<Rightarrow> select_all sel inps m' s')"

section \<open>The interface\<close>

text \<open>
  \<open>invar k s\<close>: the tables of \<open>s\<close> are complete and \<open>k\<close> more selections can be made before its
  rotation counter reaches \<open>2^63\<close>.  The laws: a selection succeeds exactly when some member is
  healthy and never panics; the chosen backend is a healthy member; a selection changes no backend
  and keeps the member list; a failed one changes no memory; releasing the decision undoes the
  selection's effect on the load counters.
\<close>

locale strategy =
  fixes select :: "selection_input \<Rightarrow> mem \<Rightarrow> 's \<Rightarrow> decision outcome \<times> mem \<times> 's"
    and members :: "'s \<Rightarrow> baddr list"
    and has_healthy :: "mem \<Rightarrow> 's \<Rightarrow> bool"
    and invar :: "nat \<Rightarrow> 's \<Rightarrow> bool"
  assumes has_healthy_iff: "has_healthy m s \<longleftrightarrow> (\<exists>b\<in>set (members s). Healthy m b)"
    and select_Ok: "invar (Suc k) s \<Longrightarrow> select inp m s = (Ok d, m', s') \<Longrightarrow>
          decision_Backend d \<in> set (members s) \<and> Healthy m (decision_Backend d)"
    and select_Err: "invar (Suc k) s \<Longrightarrow> select inp m s = (Err e, m', s') \<Longrightarrow>
          e = ErrNoHealthyBackend \<and> \<not> has_healthy m s \<and> m' = m"
    and select_no_Panic: "invar (Suc k) s \<Longrightarrow> select inp m s \<noteq> (Panic, m', s')"
    and select_invar: "invar (Suc k) s \<Longrightarrow> select inp m s = (r, m', s') \<Longrightarrow> invar k s'"
    and select_members: "select inp m s = (r, m', s') \<Longrightarrow> members s' = members s"
    and select_backends: "select inp m s = (r, m', s') \<Longrightarrow> mem_backend m' = mem_backend m"
    and select_release: "select inp m s = (Ok d, m', s') \<Longrightarrow>
          \<not> decision_once d \<and> snd (Release d m') = m"
begin

lemma select_cases:
  assumes "invar (Suc k) s"
  obtains d m' s' where "select inp m s = (Ok d, m', s')" and "has_healthy m s"
      and "decision_Backend d \<in> set (members s)" and "Healthy m (decision_Backend d)"
  | s' where "select inp m s = (Err ErrNoHealthyBackend, m, s')" and "\<not> has_healthy m s"
proof (cases "fst (select inp m s)")
  case (Ok d)
  then obtain m' s' where eq: "select inp m s = (Ok d, m', s')" by (metis prod.collapse)
  from select_Ok [OF assms eq] has_healthy_iff [of m s] eq that(1) show ?thesis by blast
next
  case (Err e)
  then obtain m' s' where eq: "select inp m s = (Err e, m', s')" by (metis prod.collapse)
  with select_Err [OF assms eq] that(2) show ?thesis by blast
next
  case Panic
  then obtain m' s' where "select inp m s = (Panic, m', s')" by (metis prod.collapse)
  with select_no_Panic [OF assms] show ?thesis by blast
qed

text \<open>The readiness probe answers exactly the question whether a selection would succeed.\<close>

lemma ready_iff_selectable:
  "invar (Suc k) s \<Longrightarrow> has_healthy m s \<longleftrightarrow> (\<exists>d m' s'. select inp m s = (Ok d, m', s'))"
  by (rule select_cases [of k s inp m]) auto

lemma select_health: "select inp m s = (r, m', s') \<Longrightarrow> Healthy m' b = Healthy m b"
  by (simp add: Healthy_def select_backends)

lemma select_keeps_ready:
  "select inp m s = (r, m', s') \<Longrightarrow> has_healthy m' s' = has_healthy m s"
  by (simp add: has_healthy_iff select_members select_health)

lemma select_cell:
  "select inp m s = (Ok d, m', s') \<Longrightarrow> cell_Load m' c = cell_Load m c + decision_load c d"
  using select_release [of inp m s d m' s'] cell_Load_Release [of d m' c] by simp

text \<open>
  Accounting: whatever the interleaving, every counter holds its initial value plus the load of
  exactly the decisions that are still outstanding.
\<close>

lemma run_accounting:
  assumes "strategy_run select m0 s0 m s ds"
  shows "cell_Load m c = cell_Load m0 c + held c ds" and "d \<in> set ds \<Longrightarrow> \<not> decision_once d"
    and "members s = members s0"
proof -
  from assms have "cell_Load m c = cell_Load m0 c + held c ds \<and> (\<forall>d\<in>set ds. \<not> decision_once d) \<and>
      members s = members s0"
  proof (induction rule: strategy_run.induct)
    case run_start
    then show ?case by simp
  next
    case (run_select m s ds inp d m' s')
    then show ?case
      by (simp add: select_cell select_release [of inp m s d m' s'] select_members [of inp m s _ m' s'])
  next
    case (run_fail m s ds inp e m' s')
    then show ?case by (simp add: select_members [of inp m s _ m' s'])
  next
    case (run_release m s ds d es)
    then show ?case by (simp add: cell_Load_Release)
  next
    case (run_health m s ds b h)
    then show ?case by (simp add: cell_Load_def)
  qed
  then show "cell_Load m c = cell_Load m0 c + held c ds" and "d \<in> set ds \<Longrightarrow> \<not> decision_once d"
    and "members s = members s0" by simp_all
qed

end

section \<open>Strategies with load counters\<close>

text \<open>
  The strategies that count load: a selection adds the request's cost to the counter of the chosen
  backend, and no counter is touched otherwise.
\<close>

locale load_counting = strategy +
  fixes loads :: "'a \<Rightarrow> baddr \<rightharpoonup> cref"
    and cost :: "selection_input \<Rightarrow> int64"
  assumes select_loads: "select inp m s = (r, m', s') \<Longrightarrow> loads s' = loads s"
    and select_counts: "select inp m s = (Ok d, m', s') \<Longrightarrow>
          \<exists>c. loads s (decision_Backend d) = Some c \<and> decision_release d = SubtractFrom c (cost inp)"
begin

lemma select_counter:
  assumes "select inp m s = (Ok d, m', s')" and "loads s (decision_Backend d) = Some c"
  shows "cell_Load m' c' = (if c' = c then cell_Load m c + cost inp else cell_Load m c')"
  using assms select_counts [OF assms(1)] select_cell [OF assms(1), of c'] by (auto simp: decision_load_def)

lemma run_loads: "strategy_run select m0 s0 m s ds \<Longrightarrow> loads s = loads s0"
  by (induction rule: strategy_run.induct) (auto dest: select_loads)

text \<open>Every outstanding decision holds load on the counter of the backend it chose.\<close>

lemma run_decisions:
  "strategy_run select m0 s0 m s ds \<Longrightarrow> d \<in> set ds \<Longrightarrow>
   \<exists>c inp. loads s0 (decision_Backend d) = Some c \<and> decision_release d = SubtractFrom c (cost inp)"
proof (induction arbitrary: d rule: strategy_run.induct)
  case (run_select m s ds inp d' m' s')
  then show ?case using select_counts [OF run_select.hyps(2)] run_loads [OF run_select.hyps(1)] by auto
qed auto

text \<open>
  Where no two backends share a counter, the load on a backend's counter is held by the
  decisions that chose this backend.
\<close>

lemma run_decision_load:
  assumes "strategy_run select m0 s0 m s ds" and "d \<in> set ds"
    and "loads s0 b = Some c" and "\<forall>b'. loads s0 b' = Some c \<longrightarrow> b' = b"
  shows "decision_Backend d \<noteq> b \<Longrightarrow> decision_load c d = 0"
    and "decision_Backend d = b \<Longrightarrow> \<exists>inp. decision_load c d = cost inp"
proof -
  from run_decisions [OF assms(1,2)] obtain c' inp
    where c': "loads s0 (decision_Backend d) = Some c'" "decision_release d = SubtractFrom c' (cost inp)"
    by blast
  have "c' = c \<longleftrightarrow> decision_Backend d = b" using c'(1) assms(3,4) by (metis option.inject)
  then show "decision_Backend d \<noteq> b \<Longrightarrow> decision_load c d = 0"
    and "decision_Backend d = b \<Longrightarrow> \<exists>inp. decision_load c d = cost inp"
    using c'(2) by (auto simp: decision_load_def)
qed

lemma run_held:
  assumes "strategy_run select m0 s0 m s ds"
    and "loads s0 b = Some c" and "\<forall>b'. loads s0 b' = Some c \<longrightarrow> b' = b"
  shows "held c ds = held c (filter (\<lambda>d. decision_Backend d = b) ds)"
proof -
  have "\<forall>d\<in>set ds. decision_Backend d \<noteq> b \<longrightarrow> decision_load c d = 0"
    using run_decision_load(1) [OF assms(1) _ assms(2,3)] by blast
  then show ?thesis by (induction ds) simp_all
qed

end

text \<open>
  The load of a backend as a number, tables in which every listed backend has a counter of its
  own, and loads that lie between 0 and \<open>K\<close> and within \<open>C\<close> of each other.
\<close>

definition load_of :: "mem \<Rightarrow> (baddr \<rightharpoonup> cref) \<Rightarrow> baddr \<Rightarrow> int" where
  "load_of m loads b = (case loads b of None \<Rightarrow> 0 | Some c \<Rightarrow> sint (cell_Load m c))"

definition own_counters :: "(baddr \<rightharpoonup> cref) \<Rightarrow> baddr list \<Rightarrow> bool" where
  "own_counters loads bs \<longleftrightarrow> set bs \<subseteq> dom loads \<and> inj_on loads (set bs)"

definition balanced :: "mem \<Rightarrow> (baddr \<rightharpoonup> cref) \<Rightarrow> baddr list \<Rightarrow> int \<Rightarrow> int \<Rightarrow> bool" where
  "balanced m loads bs C K \<longleftrightarrow>
     (\<forall>b\<in>set bs. 0 \<le> load_of m loads b \<and> load_of m loads b \<le> K) \<and>
     (\<forall>b\<in>set bs. \<forall>b'\<in>set bs. load_of m loads b \<le> load_of m loads b' + C)"

lemma balancedD:
  assumes "balanced m loads bs C K" and "b \<in> set bs" and "b' \<in> set bs"
  shows "\<bar>load_of m loads b - load_of m loads b'\<bar> \<le> C"
proof -
  have "load_of m loads b \<le> load_of m loads b' + C" "load_of m loads b' \<le> load_of m loads b + C"
    using assms by (auto simp: balanced_def)
  then show ?thesis by linarith
qed

text \<open>A strategy that always takes a healthy member with the least load.\<close>

locale least_loaded_strategy = load_counting +
  assumes select_least: "invar (Suc k) s \<Longrightarrow> select inp m s = (Ok d, m', s') \<Longrightarrow>
      b \<in> set (members s) \<Longrightarrow> Healthy m b \<Longrightarrow> loads s (decision_Backend d) = Some c \<Longrightarrow>
      loads s b = Some c' \<Longrightarrow> sint (cell_Load m c) \<le> sint (cell_Load m c')"
begin

text \<open>
  Greedy balancing: as long as every member is healthy, selections of cost at most \<open>C\<close> keep the
  loads of any two members within \<open>C\<close> of each other.
\<close>

lemma balance_step:
  assumes inv: "invar (Suc k) s" and sel: "select inp m s = (Ok d, m', s')"
    and healthy: "\<forall>b\<in>set (members s). Healthy m b" and own: "own_counters (loads s) (members s)"
    and bal: "balanced m (loads s) (members s) C K"
    and cost: "0 \<le> sint (cost inp)" "sint (cost inp) \<le> C" and room: "K + C < 2 ^ 63"
  shows "balanced m' (loads s') (members s') C (K + C)"
proof -
  let ?b = "decision_Backend d" and ?k = "sint (cost inp)"
  have b: "?b \<in> set (members s)" using select_Ok [OF inv sel] by simp
  obtain c where c: "loads s ?b = Some c" using own b by (auto simp: own_counters_def)
  have old: "sint (cell_Load m c) = load_of m (loads s) ?b" by (simp add: load_of_def c)
  have least: "load_of m (loads s) ?b \<le> load_of m (loads s) b'" if "b' \<in> set (members s)" for b'
  proof -
    from own that obtain c' where "loads s b' = Some c'" by (auto simp: own_counters_def)
    with select_least [OF inv sel that _ c] healthy that show ?thesis by (simp add: load_of_def c)
  qed
  have add: "sint (cell_Load m c + cost inp) = sint (cell_Load m c) + ?k"
    using bal b cost room by (intro sint_add) (auto simp: old balanced_def intro: order_trans [of _ 0])
  have load: "load_of m' (loads s) b' = load_of m (loads s) b' + (if b' = ?b then ?k else 0)"
    if b': "b' \<in> set (members s)" for b'
  proof -
    obtain c' where c': "loads s b' = Some c'" using own b' by (auto simp: own_counters_def)
    have "c' = c \<longleftrightarrow> b' = ?b"
      using own b b' c c' inj_onD [of "loads s" "set (members s)" b' ?b]
      by (auto simp: own_counters_def)
    with c c' add select_counter [OF sel c] show ?thesis
      by (cases "b' = ?b") (simp_all add: load_of_def)
  qed
  show ?thesis
    using bal least b cost
    unfolding balanced_def select_loads [OF sel] select_members [OF sel]
    by (auto simp: load) (smt (verit))+
qed

lemma balance_run:
  assumes "invar (length inps) s" and "\<forall>b\<in>set (members s). Healthy m b" and "members s \<noteq> []"
    and "own_counters (loads s) (members s)" and "balanced m (loads s) (members s) C K"
    and "\<forall>inp\<in>set inps. 0 \<le> sint (cost inp) \<and> sint (cost inp) \<le> C" and "0 \<le> C"
    and "K + int (length inps) * C < 2 ^ 63"
    and "select_all select inps m s = (m', s')"
  shows "balanced m' (loads s') (members s') C (K + int (length inps) * C) \<and>
    loads s' = loads s \<and> members s' = members s"
  using assms
proof (induction inps arbitrary: m s K)
  case Nil
  then show ?case by simp
next
  case (Cons inp inps)
  have inv: "invar (Suc (length inps)) s" using Cons.prems(1) by simp
  have "has_healthy m s" using Cons.prems(2,3) by (simp add: has_healthy_iff) (meson last_in_set)
  with select_cases [OF inv, of inp m] obtain d m1 s1
    where sel: "select inp m s = (Ok d, m1, s1)" by metis
  have nonneg: "0 \<le> int (length inps) * C" using Cons.prems(7) by simp
  have sum: "K + C + int (length inps) * C = K + int (length (inp # inps)) * C"
    by (simp add: algebra_simps)
  have "K + C < 2 ^ 63" using Cons.prems(8) nonneg sum by linarith
  then have bal: "balanced m1 (loads s1) (members s1) C (K + C)"
    using Cons.prems(2,4-6) by (intro balance_step [OF inv sel]) auto
  note keeps = select_loads [OF sel] select_members [OF sel] select_health [OF sel]
  have "balanced m' (loads s') (members s') C (K + C + int (length inps) * C) \<and>
      loads s' = loads s1 \<and> members s' = members s1"
    using Cons.prems sum sel by (intro Cons.IH [OF select_invar [OF inv sel] _ _ _ bal]) (simp_all add: keeps)
  then show ?case by (metis keeps(1,2) sum)
qed

end

section \<open>A small memory\<close>

text \<open>Two healthy backends at the addresses 0 and 1, on which the properties are instantiated.\<close>

definition two_backends :: mem where
  "two_backends = SetHealthy 0 True (SetHealthy 1 True empty_mem)"

lemma two_backends_simps [simp]:
  "Healthy two_backends 0" "Healthy two_backends (Suc 0)" "mem_next_cell two_backends = 0"
  by (simp_all add: two_backends_def empty_mem_def)

end
