(* ===== verification/LoadTable.thy ===== *)
theory LoadTable
  imports Strategy
begin

text \<open>
  The state and the loops that \<open>leastpending.go\<close>, \<open>costaware.go\<close> and \<open>kvaware.go\<close> have in common
  (the code repeats them in each file): the backend list, the rotation counter and a map from
  backends to their load counters; the loop of \<open>SetBackends\<close> that keeps the counters of known
  backends, and the loop of \<open>Select\<close> that looks for the least loaded healthy backend.
\<close>

section \<open>The code\<close>

record load_table =
  lt_backends :: "baddr list"
  lt_next :: uint64
  lt_loads :: "baddr \<rightharpoonup> cref"

text \<open>\<open>for _, backend := range backends\<close> of \<open>SetBackends\<close>, building \<open>updated\<close>.\<close>

fun update_loads ::
  "(baddr \<rightharpoonup> cref) \<Rightarrow> baddr list \<Rightarrow> (baddr \<rightharpoonup> cref) \<Rightarrow> mem \<Rightarrow> (baddr \<rightharpoonup> cref) \<times> mem" where
  "update_loads loads [] updated m = (updated, m)"
| "update_loads loads (b # bs) updated m =
     (case loads b of
        Some existing \<Rightarrow> update_loads loads bs (updated(b \<mapsto> existing)) m
      | None \<Rightarrow>
          let (c, m') = new_cell m in update_loads loads bs (updated(b \<mapsto> c)) m')"

text \<open>
  The loop of \<open>Select\<close> over the remaining values of \<open>i\<close>; the accumulator is \<open>chosen\<close>,
  \<open>chosenLoad\<close> and \<open>minPending\<close>, which the code sets together.
\<close>

fun scan_loop ::
  "mem \<Rightarrow> baddr list \<Rightarrow> (baddr \<rightharpoonup> cref) \<Rightarrow> int \<Rightarrow> nat list \<Rightarrow> (baddr \<times> cref \<times> int64) option \<Rightarrow>
   (baddr \<times> cref \<times> int64) option outcome" where
  "scan_loop m backends loads start [] acc = Ok acc"
| "scan_loop m backends loads start (i # is) acc =
     (case go_index backends (rot_index start i (length backends)) of
        Err e \<Rightarrow> Err e
      | Panic \<Rightarrow> Panic
      | Ok b \<Rightarrow>
          if \<not> Healthy m b then scan_loop m backends loads start is acc
          else
            (case loads b of
               None \<Rightarrow> scan_loop m backends loads start is acc
             | Some c \<Rightarrow>
                 let pending = cell_Load m c in
                 scan_loop m backends loads start is
                   (case acc of
                      None \<Rightarrow> Some (b, c, pending)
                    | Some (chosen, chosenLoad, minPending) \<Rightarrow>
                        if pending <s minPending then Some (b, c, pending) else acc)))"

section \<open>The selection loop finds a first minimum\<close>

definition candidates ::
  "mem \<Rightarrow> (baddr \<rightharpoonup> cref) \<Rightarrow> baddr list \<Rightarrow> (baddr \<times> cref \<times> int64) list" where
  "candidates m loads bs = concat (map (\<lambda>b.
     if Healthy m b
     then (case loads b of None \<Rightarrow> [] | Some c \<Rightarrow> [(b, c, cell_Load m c)])
     else []) bs)"

definition load_key :: "baddr \<times> cref \<times> int64 \<Rightarrow> int" where
  "load_key t = sint (snd (snd t))"

definition least_loaded ::
  "mem \<Rightarrow> (baddr \<rightharpoonup> cref) \<Rightarrow> baddr list \<Rightarrow> (baddr \<times> cref \<times> int64) option" where
  "least_loaded m loads bs = first_min load_key (candidates m loads bs)"

lemma candidates_simps [simp]:
  "candidates m loads [] = []"
  "candidates m loads (b # bs) =
     (if Healthy m b then (case loads b of None \<Rightarrow> [] | Some c \<Rightarrow> [(b, c, cell_Load m c)]) else [])
     @ candidates m loads bs"
  by (simp_all add: candidates_def)

lemma set_candidates:
  "(b, c, p) \<in> set (candidates m loads bs) \<longleftrightarrow>
   b \<in> set bs \<and> Healthy m b \<and> loads b = Some c \<and> p = cell_Load m c"
  by (auto simp: candidates_def split: if_splits option.splits)

lemma scan_loop_min_from:
  assumes "backends \<noteq> []"
  shows "scan_loop m backends loads (int s) is acc =
    Ok (min_from load_key acc
         (candidates m loads (map (\<lambda>i. backends ! ((s + i) mod length backends)) is)))"
proof (induction "is" arbitrary: acc)
  case (Cons i "is")
  have idx: "go_index backends (rot_index (int s) i (length backends)) =
      Ok (backends ! ((s + i) mod length backends))"
    using assms by (simp add: rot_index_nonneg)
  show ?case
    by (auto simp: idx Cons.IH load_key_def word_sless_alt Let_def
        split: option.splits prod.splits)
qed simp

lemma scan_loop_eq:
  assumes "backends \<noteq> []" and "unat w < 2 ^ 63"
  shows "scan_loop m backends loads (start_index w (length backends)) [0..<length backends] None =
    Ok (least_loaded m loads (rotate (unat w) backends))"
proof -
  have "start_index w (length backends) = int (unat w mod length backends)"
    using assms(2) by (rule start_index_small)
  then show ?thesis
    using assms(1)
    by (simp add: scan_loop_min_from visited_eq_rotate min_from_first_min least_loaded_def
        rotate_conv_mod [of "unat w"] del: unat_eq_0)
qed

lemma least_loaded_None:
  "least_loaded m loads bs = None \<longleftrightarrow> (\<forall>b\<in>set bs. Healthy m b \<longrightarrow> loads b = None)"
proof -
  have "least_loaded m loads bs = None \<longleftrightarrow> candidates m loads bs = []"
    by (simp add: least_loaded_def)
  also have "\<dots> \<longleftrightarrow> (\<forall>b\<in>set bs. Healthy m b \<longrightarrow> loads b = None)"
    by (induction bs) (auto split: option.splits)
  finally show ?thesis .
qed

lemma least_loaded_Some:
  assumes "least_loaded m loads bs = Some (b, c, p)"
  shows "b \<in> set bs" and "Healthy m b" and "loads b = Some c" and "p = cell_Load m c"
    and "b' \<in> set bs \<Longrightarrow> Healthy m b' \<Longrightarrow> loads b' = Some c' \<Longrightarrow>
         sint (cell_Load m c) \<le> sint (cell_Load m c')"
proof -
  have min: "first_min load_key (candidates m loads bs) = Some (b, c, p)"
    using assms by (simp add: least_loaded_def)
  from first_min_in [OF min] show b: "b \<in> set bs" "Healthy m b" "loads b = Some c" "p = cell_Load m c"
    by (simp_all add: set_candidates)
  assume "b' \<in> set bs" "Healthy m b'" "loads b' = Some c'"
  then have "(b', c', cell_Load m c') \<in> set (candidates m loads bs)"
    by (simp add: set_candidates)
  from first_min_le [OF min this] b(4) show "sint (cell_Load m c) \<le> sint (cell_Load m c')"
    by (simp add: load_key_def)
qed

text \<open>Among equally loaded backends the first one visited is taken.\<close>

lemma least_loaded_split:
  "least_loaded m loads bs = Some (b, c, p) \<Longrightarrow>
   \<exists>as bs'. bs = as @ b # bs' \<and>
     (\<forall>a\<in>set as. \<forall>ca. Healthy m a \<longrightarrow> loads a = Some ca \<longrightarrow> sint p < sint (cell_Load m ca))"
proof (induction bs arbitrary: b c p)
  case Nil
  then show ?case by (simp add: least_loaded_def)
next
  case (Cons x bs)
  let ?rest = "least_loaded m loads bs"
  show ?case
  proof (cases "\<exists>cx. Healthy m x \<and> loads x = Some cx \<and>
      (\<forall>t. ?rest = Some t \<longrightarrow> sint (cell_Load m cx) \<le> load_key t)")
    case True
    with Cons.prems have "b = x"
      by (auto simp: least_loaded_def load_key_def split: option.splits if_splits)
    then have "x # bs = [] @ b # bs" by simp
    then show ?thesis by fastforce
  next
    case False
    with Cons.prems have rest: "?rest = Some (b, c, p)"
      by (auto simp: least_loaded_def load_key_def split: option.splits if_splits)
    from Cons.IH [OF this] obtain as bs' where "bs = as @ b # bs'"
      and "\<forall>a\<in>set as. \<forall>ca. Healthy m a \<longrightarrow> loads a = Some ca \<longrightarrow> sint p < sint (cell_Load m ca)"
      by blast
    moreover have "\<forall>ca. Healthy m x \<longrightarrow> loads x = Some ca \<longrightarrow> sint p < sint (cell_Load m ca)"
      using False rest by (auto simp: load_key_def not_le)
    ultimately have "x # bs = (x # as) @ b # bs' \<and>
        (\<forall>a\<in>set (x # as). \<forall>ca. Healthy m a \<longrightarrow> loads a = Some ca \<longrightarrow> sint p < sint (cell_Load m ca))"
      by simp
    then show ?thesis by blast
  qed
qed

text \<open>The loop only ever remembers a backend together with its own counter.\<close>

lemma scan_loop_counter:
  assumes "scan_loop m backends loads start is acc = Ok (Some (b, c, p))"
    and "\<forall>b c p. acc = Some (b, c, p) \<longrightarrow> loads b = Some c"
  shows "loads b = Some c"
  using assms
proof (induction "is" arbitrary: acc)
  case (Cons i "is")
  show ?case
  proof (cases "go_index backends (rot_index start i (length backends))")
    case (Ok x)
    with Cons.prems obtain acc' where "scan_loop m backends loads start is acc' = Ok (Some (b, c, p))"
      and "\<forall>b c p. acc' = Some (b, c, p) \<longrightarrow> loads b = Some c"
      by (fastforce simp: Let_def split: if_splits option.splits)
    then show ?thesis by (rule Cons.IH)
  qed (use Cons.prems in simp_all)
qed simp

section \<open>Tables\<close>

definition lt_invar :: "nat \<Rightarrow> 'a load_table_scheme \<Rightarrow> bool" where
  "lt_invar k s \<longleftrightarrow> unat (lt_next s) + k \<le> 2 ^ 63 \<and> set (lt_backends s) \<subseteq> dom (lt_loads s)"

lemma lt_invar_loads: "lt_invar k s \<Longrightarrow> b \<in> set (lt_backends s) \<Longrightarrow> lt_loads s b \<noteq> None"
  by (auto simp: lt_invar_def)

text \<open>
  The counters of a table are allocated, and two backends never share one.
\<close>

definition loads_ok :: "mem \<Rightarrow> (baddr \<rightharpoonup> cref) \<Rightarrow> bool" where
  "loads_ok m loads \<longleftrightarrow>
     ran loads \<subseteq> {..<mem_next_cell m} \<and>
     (\<forall>b b' c. loads b = Some c \<longrightarrow> loads b' = Some c \<longrightarrow> b = b')"

lemma loads_okD:
  assumes "loads_ok m loads" and "loads b = Some c"
  shows "c < mem_next_cell m" and "loads b' = Some c \<Longrightarrow> b' = b"
  using assms by (auto simp: loads_ok_def ran_def)

lemma loads_ok_empty [simp, wf_intros]: "loads_ok m Map.empty"
  by (simp add: loads_ok_def)

lemma loads_ok_mono [wf_intros]:
  "loads_ok m loads \<Longrightarrow> mem_next_cell m \<le> mem_next_cell m' \<Longrightarrow> loads_ok m' loads"
  unfolding loads_ok_def by auto

lemma loads_ok_update [wf_intros]:
  assumes "loads_ok m loads" and "c < mem_next_cell m" and "\<And>b'. loads b' = Some c \<Longrightarrow> b' = b"
  shows "loads_ok m (loads(b \<mapsto> c))"
  using assms unfolding loads_ok_def ran_def by (auto split: if_splits)

text \<open>
  What the loop of \<open>SetBackends\<close> does: exactly the listed backends have a counter afterwards, a
  backend of the old table keeps its counter, every other one gets a counter of its own that
  reads zero, and no existing counter changes.
\<close>

lemma update_loads_spec:
  assumes "update_loads loads bs updated m = (updated', m')"
    and "loads_ok m loads" and "loads_ok m updated"
    and "\<forall>b c. updated b = Some c \<longrightarrow> loads b = Some c \<or>
        loads b = None \<and> c \<notin> ran loads \<and> cell_Load m c = 0"
  shows "dom updated' = dom updated \<union> set bs \<and> loads_ok m' updated' \<and>
    (\<forall>b c. updated' b = Some c \<longrightarrow> loads b = Some c \<or>
        loads b = None \<and> c \<notin> ran loads \<and> cell_Load m' c = 0) \<and>
    mem_backend m' = mem_backend m \<and> mem_next_cell m \<le> mem_next_cell m' \<and>
    (\<forall>c<mem_next_cell m. cell_Load m' c = cell_Load m c)"
  using assms
proof (induction bs arbitrary: updated m)
  case Nil
  then show ?case by auto
next
  case (Cons b bs)
  show ?case
  proof (cases "loads b")
    case (Some c)
    have ok: "loads_ok m (updated(b \<mapsto> c))"
    proof (rule loads_ok_update [OF Cons.prems(3)])
      show "c < mem_next_cell m" using Cons.prems(2) Some by (rule loads_okD)
      show "b' = b" if "updated b' = Some c" for b'
        using Cons.prems(4) [rule_format, OF that] loads_okD(2) [OF Cons.prems(2) Some] ranI [of loads b c] Some by blast
    qed
    have prem4: "\<forall>b' c'. (updated(b \<mapsto> c)) b' = Some c' \<longrightarrow>
        loads b' = Some c' \<or> loads b' = None \<and> c' \<notin> ran loads \<and> cell_Load m c' = 0"
      using Cons.prems(4) Some by simp
    have "update_loads loads bs (updated(b \<mapsto> c)) m = (updated', m')"
      using Cons.prems(1) Some by simp
    note IH = Cons.IH [OF this Cons.prems(2) ok prem4]
    have "dom updated' = dom updated \<union> set (b # bs)" using conjunct1 [OF IH]
      by (auto simp: dom_def)
    from this conjunct2 [OF IH] show ?thesis by (rule conjI)
  next
    case None
    let ?c = "mem_next_cell m" and ?m = "snd (new_cell m)"
    have fresh: "?c \<notin> ran loads" "?c \<notin> ran updated"
      using Cons.prems(2,3) by (auto simp: loads_ok_def)
    have ok: "loads_ok ?m (updated(b \<mapsto> ?c))"
      using fresh(2) by (auto intro!: loads_ok_update loads_ok_mono [OF Cons.prems(3)] simp: ran_def)
    have ok': "loads_ok ?m loads"
      using Cons.prems(2) by (rule loads_ok_mono) simp
    have prem4: "\<forall>b' c'. (updated(b \<mapsto> ?c)) b' = Some c' \<longrightarrow>
        loads b' = Some c' \<or> loads b' = None \<and> c' \<notin> ran loads \<and> cell_Load ?m c' = 0"
    proof (intro allI impI)
      fix b' c' assume upd: "(updated(b \<mapsto> ?c)) b' = Some c'"
      show "loads b' = Some c' \<or> loads b' = None \<and> c' \<notin> ran loads \<and> cell_Load ?m c' = 0"
      proof (cases "b' = b")
        case False
        with upd have upd': "updated b' = Some c'" by simp
        then have "c' \<noteq> ?c" using fresh(2) by (auto simp: ran_def)
        with Cons.prems(4) upd' show ?thesis by simp
      qed (use upd None fresh(1) in simp)
    qed
    have "update_loads loads bs (updated(b \<mapsto> ?c)) ?m = (updated', m')"
      using Cons.prems(1) None by (simp add: Let_def case_prod_beta)
    note IH = Cons.IH [OF this ok' ok prem4]
    have "dom updated' = dom updated \<union> set (b # bs)" using conjunct1 [OF IH]
      by (auto simp: dom_def)
    moreover have "\<forall>c<mem_next_cell m. cell_Load m' c = cell_Load m c"
      using IH by (metis less_SucI less_not_refl new_cell_simps(3,5))
    moreover have "mem_next_cell m \<le> mem_next_cell m'" "mem_backend m' = mem_backend m"
      using IH by simp_all
    ultimately show ?thesis using IH by blast
  qed
qed

text \<open>From an empty or a well-formed old table; \<open>updated\<close> starts empty in the code.\<close>

lemma update_loads_table:
  assumes "update_loads loads bs Map.empty m = (updated, m')" and "loads_ok m loads"
  shows "dom updated = set bs" and "loads_ok m' updated" and "mem_backend m' = mem_backend m"
    and "b \<in> set bs \<Longrightarrow> loads b = Some c \<Longrightarrow> updated b = Some c"
    and "updated b = Some c \<Longrightarrow> loads b = None \<Longrightarrow> cell_Load m' c = 0"
    and "c < mem_next_cell m \<Longrightarrow> cell_Load m' c = cell_Load m c"
    and "mem_next_cell m \<le> mem_next_cell m'"
proof -
  note spec = update_loads_spec [OF assms loads_ok_empty, simplified]
  show "dom updated = set bs" and "loads_ok m' updated" and "mem_backend m' = mem_backend m"
    and "c < mem_next_cell m \<Longrightarrow> cell_Load m' c = cell_Load m c"
    and "mem_next_cell m \<le> mem_next_cell m'"
    using spec by simp_all
  show "updated b = Some c \<Longrightarrow> loads b = None \<Longrightarrow> cell_Load m' c = 0"
    using spec by fastforce
  assume "b \<in> set bs" and "loads b = Some c"
  moreover from this spec obtain c' where "updated b = Some c'" by blast
  ultimately show "updated b = Some c" using spec by fastforce
qed

lemma loads_ok_own_counters:
  "loads_ok m loads \<Longrightarrow> set bs \<subseteq> dom loads \<Longrightarrow> own_counters loads bs"
  unfolding own_counters_def inj_on_def by (metis domD loads_okD(2) subsetD)

lemma new_table_loads:
  assumes "update_loads Map.empty bs Map.empty m = (updated, m')"
  shows "b \<in> set bs \<Longrightarrow> load_of m' updated b = 0" and "own_counters updated bs"
    and "0 \<le> C \<Longrightarrow> balanced m' updated bs C 0"
proof -
  note table = update_loads_table [OF assms loads_ok_empty]
  show zero: "load_of m' updated b = 0" if "b \<in> set bs" for b
    using table(1,5) that by (auto simp: load_of_def split: option.splits)
  show "own_counters updated bs" using table(1,2) by (simp add: loads_ok_own_counters)
  show "0 \<le> C \<Longrightarrow> balanced m' updated bs C 0" by (simp add: balanced_def zero)
qed

section \<open>A selection on a table\<close>

text \<open>
  The body the three \<open>Select\<close> functions share, over the added cost and the decision literal they
  return: what the strategies below are proved to be instances of.
\<close>

definition lt_select ::
  "int64 \<Rightarrow> (baddr \<Rightarrow> cref \<Rightarrow> int64 \<Rightarrow> decision) \<Rightarrow> mem \<Rightarrow> 'a load_table_scheme \<Rightarrow>
   decision outcome \<times> mem \<times> 'a load_table_scheme" where
  "lt_select cost mk m s =
     (let backends = lt_backends s; loads = lt_loads s in
      if length backends = 0 then (Err ErrNoHealthyBackend, m, s)
      else
        let start = start_index (lt_next s) (length backends);
            s' = s\<lparr>lt_next := lt_next s + 1\<rparr>
        in case scan_loop m backends loads start [0..<length backends] None of
             Ok None \<Rightarrow> (Err ErrNoHealthyBackend, m, s')
           | Ok (Some (chosen, chosenLoad, _)) \<Rightarrow>
               let (pendingAfter, m') = cell_Add chosenLoad cost m
               in (Ok (mk chosen chosenLoad pendingAfter), m', s')
           | Err e \<Rightarrow> (Err e, m, s')
           | Panic \<Rightarrow> (Panic, m, s'))"

lemma lt_select_eq:
  assumes "lt_invar (Suc k) s"
  shows "lt_select cost mk m s =
    (if lt_backends s = [] then (Err ErrNoHealthyBackend, m, s)
     else case least_loaded m (lt_loads s) (rotate (unat (lt_next s)) (lt_backends s)) of
       None \<Rightarrow> (Err ErrNoHealthyBackend, m, s\<lparr>lt_next := lt_next s + 1\<rparr>)
     | Some (b, c, _) \<Rightarrow>
         (Ok (mk b c (cell_Load m c + cost)), snd (cell_Add c cost m), s\<lparr>lt_next := lt_next s + 1\<rparr>))"
proof -
  have "unat (lt_next s) < 2 ^ 63" using assms by (simp add: lt_invar_def)
  then show ?thesis
    by (simp add: lt_select_def scan_loop_eq Let_def case_prod_beta split: option.splits)
qed

lemma lt_select_Ok:
  assumes "lt_select cost mk m s = (Ok d, m', s')"
  shows "\<exists>b c. lt_loads s b = Some c \<and> d = mk b c (cell_Load m c + cost) \<and>
    m' = snd (cell_Add c cost m)"
  using assms scan_loop_counter [of m "lt_backends s" "lt_loads s" _ _ None]
  by (fastforce simp: lt_select_def Let_def case_prod_beta split: if_splits outcome.splits option.splits)

lemma lt_select_frame:
  assumes "lt_select cost mk m s = (r, m', s')"
  shows "mem_backend m' = mem_backend m" and "lt_backends s' = lt_backends s"
    and "lt_loads s' = lt_loads s" and "load_table.more s' = load_table.more s"
    and "mem_next_cell m' = mem_next_cell m"
  using assms
  by (auto simp: lt_select_def Let_def case_prod_beta split: if_splits outcome.splits option.splits)

lemma lt_select_invar:
  assumes "lt_invar (Suc k) s" and "lt_select cost mk m s = (r, m', s')"
  shows "lt_invar k s'"
proof -
  have "s' = s \<and> lt_backends s = [] \<or> s' = s\<lparr>lt_next := lt_next s + 1\<rparr>"
    using assms by (auto simp: lt_select_eq split: option.splits if_splits)
  then show ?thesis using assms(1) by (auto simp: lt_invar_def unat_next)
qed

lemma lt_select_not_Panic: "lt_invar (Suc k) s \<Longrightarrow> lt_select cost mk m s \<noteq> (Panic, m', s')"
  by (auto simp: lt_select_eq split: option.splits)

lemma lt_select_Err:
  assumes "lt_invar (Suc k) s" and "lt_select cost mk m s = (Err e, m', s')"
  shows "e = ErrNoHealthyBackend" and "\<not> list_ex (Healthy m) (lt_backends s)" and "m' = m"
  using assms
  by (auto simp: lt_select_eq least_loaded_None list_ex_iff dest: lt_invar_loads
      split: option.splits if_splits)

text \<open>The chosen backend: healthy, least loaded, first in the rotated order.\<close>

lemma lt_select_least:
  assumes inv: "lt_invar (Suc k) s" and sel: "lt_select cost mk m s = (Ok d, m', s')"
  obtains b c bs bs' where "d = mk b c (cell_Load m c + cost)" and "m' = snd (cell_Add c cost m)"
    and "rotate (unat (lt_next s)) (lt_backends s) = bs @ b # bs'" and "b \<in> set (lt_backends s)"
    and "Healthy m b" and "lt_loads s b = Some c"
    and "\<forall>a\<in>set bs. Healthy m a \<longrightarrow> sint (cell_Load m c) < load_of m (lt_loads s) a"
    and "\<forall>a\<in>set (lt_backends s). Healthy m a \<longrightarrow> sint (cell_Load m c) \<le> load_of m (lt_loads s) a"
proof -
  let ?bs = "rotate (unat (lt_next s)) (lt_backends s)"
  obtain b c p where least: "least_loaded m (lt_loads s) ?bs = Some (b, c, p)"
    and d: "d = mk b c (cell_Load m c + cost)" and m': "m' = snd (cell_Add c cost m)"
    using sel by (auto simp: lt_select_eq [OF inv] split: if_splits option.splits)
  note some = least_loaded_Some [OF least]
  have known: "\<exists>c'. lt_loads s b' = Some c'" if "b' \<in> set (lt_backends s)" for b'
    using lt_invar_loads [OF inv that] by simp
  from least_loaded_split [OF least] obtain as bs' where split: "?bs = as @ b # bs'"
    and before: "\<forall>a\<in>set as. \<forall>ca. Healthy m a \<longrightarrow> lt_loads s a = Some ca \<longrightarrow> sint p < sint (cell_Load m ca)"
    by blast
  have "set as \<subseteq> set (lt_backends s)" using arg_cong [OF split, of set] by auto
  then have strict: "\<forall>a\<in>set as. Healthy m a \<longrightarrow> sint (cell_Load m c) < load_of m (lt_loads s) a"
    using before known some(4) by (fastforce simp: load_of_def)
  have "\<forall>a\<in>set (lt_backends s). Healthy m a \<longrightarrow> sint (cell_Load m c) \<le> load_of m (lt_loads s) a"
    using some(5) known by (fastforce simp: load_of_def)
  with that [OF d m' split _ some(2,3) strict] some(1) show thesis by simp
qed

end
