(* ===== verification/CostAware.thy ===== *)
theory CostAware
  imports LoadTable
begin

text \<open>
  \<open>internal/router/costaware.go\<close>: the strategy that counts the estimated cost in flight at each
  backend.  The router never activates it (\<open>normalizeStrategyName\<close> refuses its name), but it is
  part of the package and has its own contract.
\<close>

section \<open>The code\<close>

type_synonym cost_aware = load_table

definition CostAware_SetBackends ::
  "baddr list \<Rightarrow> cost_aware \<Rightarrow> mem \<Rightarrow> cost_aware \<times> mem" where
  "CostAware_SetBackends backends s m =
     (let (updated, m') = update_loads (lt_loads s) backends Map.empty m
      in (s\<lparr>lt_backends := backends, lt_loads := updated\<rparr>, m'))"

definition NewCostAware :: "baddr list \<Rightarrow> mem \<Rightarrow> cost_aware \<times> mem" where
  "NewCostAware backends m =
     CostAware_SetBackends backends \<lparr>lt_backends = [], lt_next = 0, lt_loads = Map.empty\<rparr> m"

definition CostAware_Name :: string where
  "CostAware_Name = StrategyCostAware"

text \<open>\<open>cost := int64(input.EstimatedCost); if cost < 1 { cost = 1 }\<close>\<close>

definition request_cost :: "selection_input \<Rightarrow> int64" where
  "request_cost inp = (if input_EstimatedCost inp <s 1 then 1 else input_EstimatedCost inp)"

definition CostAware_Select ::
  "selection_input \<Rightarrow> mem \<Rightarrow> cost_aware \<Rightarrow> decision outcome \<times> mem \<times> cost_aware" where
  "CostAware_Select inp m s =
     (let backends = lt_backends s; loads = lt_loads s in
      if length backends = 0 then (Err ErrNoHealthyBackend, m, s)
      else
        let cost = request_cost inp;
            start = start_index (lt_next s) (length backends);
            s' = s\<lparr>lt_next := lt_next s + 1\<rparr>
        in case scan_loop m backends loads start [0..<length backends] None of
             Ok None \<Rightarrow> (Err ErrNoHealthyBackend, m, s')
           | Ok (Some (chosen, chosenLoad, _)) \<Rightarrow>
               let (pendingAfter, m') = cell_Add chosenLoad cost m
               in (Ok \<lparr>decision_Backend = chosen, decision_PendingRequests = 0,
                       decision_PendingCost = pendingAfter, decision_CacheHit = False,
                       decision_release = SubtractFrom chosenLoad cost, decision_once = False\<rparr>,
                   m', s')
           | Err e \<Rightarrow> (Err e, m, s')
           | Panic \<Rightarrow> (Panic, m, s'))"

definition CostAware_HasHealthyBackend :: "mem \<Rightarrow> cost_aware \<Rightarrow> bool" where
  "CostAware_HasHealthyBackend m s = list_ex (Healthy m) (lt_backends s)"

section \<open>The contract\<close>

definition ca_decision :: "int64 \<Rightarrow> baddr \<Rightarrow> cref \<Rightarrow> int64 \<Rightarrow> decision" where
  "ca_decision cost b c pendingAfter =
     \<lparr>decision_Backend = b, decision_PendingRequests = 0, decision_PendingCost = pendingAfter,
      decision_CacheHit = False, decision_release = SubtractFrom c cost, decision_once = False\<rparr>"

lemma CostAware_Select_table:
  "CostAware_Select inp m s = lt_select (request_cost inp) (ca_decision (request_cost inp)) m s"
  unfolding CostAware_Select_def lt_select_def ca_decision_def by (simp only: Let_def)

lemma request_cost_pos: "1 \<le> sint (request_cost inp)"
  by (simp add: request_cost_def word_sless_alt)

lemma request_cost_le: "1 \<le> C \<Longrightarrow> sint (input_EstimatedCost inp) \<le> C \<Longrightarrow> sint (request_cost inp) \<le> C"
  by (simp add: request_cost_def)

interpretation ca: least_loaded_strategy
  CostAware_Select lt_backends CostAware_HasHealthyBackend lt_invar lt_loads request_cost
proof (unfold_locales, unfold CostAware_Select_table CostAware_HasHealthyBackend_def)
  fix m and s :: cost_aware
  show "list_ex (Healthy m) (lt_backends s) \<longleftrightarrow> (\<exists>b\<in>set (lt_backends s). Healthy m b)"
    by (simp add: list_ex_iff)
next
  fix k inp m d m' and s s' :: cost_aware
  assume inv: "lt_invar (Suc k) s"
    and sel: "lt_select (request_cost inp) (ca_decision (request_cost inp)) m s = (Ok d, m', s')"
  then show "decision_Backend d \<in> set (lt_backends s) \<and> Healthy m (decision_Backend d)"
    by (rule lt_select_least) (simp add: ca_decision_def)
  fix b c c' assume "b \<in> set (lt_backends s)" and "Healthy m b"
    and "lt_loads s (decision_Backend d) = Some c" and "lt_loads s b = Some c'"
  with inv sel show "sint (cell_Load m c) \<le> sint (cell_Load m c')"
    by (elim lt_select_least) (auto simp: ca_decision_def load_of_def)
next
  fix k inp m e m' and s s' :: cost_aware
  assume "lt_invar (Suc k) s"
    and "lt_select (request_cost inp) (ca_decision (request_cost inp)) m s = (Err e, m', s')"
  from lt_select_Err [OF this]
  show "e = ErrNoHealthyBackend \<and> \<not> list_ex (Healthy m) (lt_backends s) \<and> m' = m" by simp
next
  fix inp m d m' and s s' :: cost_aware
  assume "lt_select (request_cost inp) (ca_decision (request_cost inp)) m s = (Ok d, m', s')"
  from lt_select_Ok [OF this]
  show "\<not> decision_once d \<and> snd (Release d m') = m"
    and "\<exists>c. lt_loads s (decision_Backend d) = Some c \<and>
      decision_release d = SubtractFrom c (request_cost inp)"
    by (auto simp: ca_decision_def Release_def cell_Add_cancel)
qed (fact lt_select_not_Panic lt_select_invar lt_select_frame)+

section \<open>Fresh strategies\<close>

lemma NewCostAware_simps:
  assumes "NewCostAware backends m = (s, m')"
  shows "lt_backends s = backends" and "lt_next s = 0" and "dom (lt_loads s) = set backends"
    and "loads_ok m' (lt_loads s)" and "mem_backend m' = mem_backend m"
    and "lt_loads s b = Some c \<Longrightarrow> cell_Load m' c = 0"
    and "0 \<le> C \<Longrightarrow> balanced m' (lt_loads s) backends C 0" and "k \<le> 2 ^ 63 \<Longrightarrow> lt_invar k s"
    and "own_counters (lt_loads s) backends"
proof -
  obtain updated where upd: "update_loads Map.empty backends Map.empty m = (updated, m')"
    and s: "s = \<lparr>lt_backends = backends, lt_next = 0, lt_loads = updated\<rparr>"
    using assms by (auto simp: NewCostAware_def CostAware_SetBackends_def split: prod.splits)
  note table = update_loads_table [OF upd loads_ok_empty]
  show "lt_backends s = backends" and "lt_next s = 0" and "dom (lt_loads s) = set backends"
    and "loads_ok m' (lt_loads s)" and "mem_backend m' = mem_backend m"
    and "lt_loads s b = Some c \<Longrightarrow> cell_Load m' c = 0"
    and "0 \<le> C \<Longrightarrow> balanced m' (lt_loads s) backends C 0" and "k \<le> 2 ^ 63 \<Longrightarrow> lt_invar k s"
    and "own_counters (lt_loads s) backends"
    using table new_table_loads(2,3) [OF upd] by (simp_all add: s lt_invar_def)
qed

section \<open>Properties\<close>

text \<open>
  C31: Greedy balance of \<open>cost_aware\<close>.  After selections by a fresh strategy whose estimated costs are
  at most \<open>C\<close> (at least 1), while all backends are healthy and as long as none of the selections has been
  released, the cost in flight at any two backends differs by at most \<open>C\<close>; the number of selections times
  \<open>C\<close> has to stay below \<open>2^63\<close>.
\<close>

theorem ca_balanced:
  assumes "NewCostAware backends m0 = (s0, m1)" and "backends \<noteq> []"
    and "\<forall>b\<in>set backends. Healthy m0 b" and "1 \<le> C"
    and "\<forall>inp\<in>set inps. sint (input_EstimatedCost inp) \<le> C"
    and "int (length inps) * C < 2 ^ 63" and "length inps \<le> 2 ^ 63"
    and "select_all CostAware_Select inps m1 s0 = (m, s)"
    and "b \<in> set backends" and "b' \<in> set backends"
  shows "\<bar>load_of m (lt_loads s) b - load_of m (lt_loads s) b'\<bar> \<le> C"
proof -
  note new = NewCostAware_simps [OF assms(1)]
  have "balanced m (lt_loads s) (lt_backends s) C (0 + int (length inps) * C) \<and>
      lt_loads s = lt_loads s0 \<and> lt_backends s = lt_backends s0"
    using assms(2-8) new(7,9) request_cost_pos request_cost_le
    by (intro ca.balance_run [OF new(8)]) (auto simp: new(1,5) Healthy_def intro: order_trans [of _ 1])
  with assms(9,10) new(1) show ?thesis by (intro balancedD) auto
qed

definition ca_example :: "cost_aware \<times> mem" where
  "ca_example = NewCostAware [0, 1] two_backends"

lemma ca_example_ok [simp]:
  "NewCostAware [0, 1] two_backends = (fst ca_example, snd ca_example)"
  by (simp add: ca_example_def)

theorem ca_balanced_witness:
  "\<exists>m s. select_all CostAware_Select
       [\<lparr>input_EstimatedCost = 120, input_CacheKey = []\<rparr>, \<lparr>input_EstimatedCost = 10, input_CacheKey = []\<rparr>]
       (snd ca_example) (fst ca_example) = (m, s)
     \<and> \<bar>load_of m (lt_loads s) 0 - load_of m (lt_loads s) 1\<bar> \<le> 120"
proof -
  let ?inps = "[\<lparr>input_EstimatedCost = 120, input_CacheKey = []\<rparr>, \<lparr>input_EstimatedCost = 10, input_CacheKey = []\<rparr>]"
  obtain m s where run: "select_all CostAware_Select ?inps (snd ca_example) (fst ca_example) = (m, s)"
    by (metis surj_pair)
  have "\<forall>b\<in>set [0, 1]. Healthy two_backends b" by simp
  from ca_balanced [OF ca_example_ok(1) _ this _ _ _ _ run, of 120 0 1] run show ?thesis by simp
qed

text \<open>
  C35: A selection of \<open>cost_aware\<close> adds the request's estimated cost, raised to at least 1, to the
  counter of the chosen backend, reports the new total, and its release subtracts exactly that
  amount: a request with a zero or negative estimate still counts, and never lowers a load.
\<close>

theorem ca_cost_accounting:
  assumes "CostAware_Select inp m s = (Ok d, m', s')"
  shows "\<exists>c. lt_loads s (decision_Backend d) = Some c \<and>
    decision_PendingCost d = cell_Load m' c \<and>
    cell_Load m' c = cell_Load m c + request_cost inp \<and>
    (\<forall>c'. c' \<noteq> c \<longrightarrow> cell_Load m' c' = cell_Load m c') \<and>
    sint (request_cost inp) = max 1 (sint (input_EstimatedCost inp)) \<and>
    snd (Release d m') = m"
proof -
  from assms have sel: "lt_select (request_cost inp) (ca_decision (request_cost inp)) m s = (Ok d, m', s')"
    by (simp add: CostAware_Select_table)
  from lt_select_Ok [OF this] obtain b c where "lt_loads s b = Some c"
    and "d = ca_decision (request_cost inp) b c (cell_Load m c + request_cost inp)"
    and "m' = snd (cell_Add c (request_cost inp) m)" by blast
  moreover have "sint (request_cost inp) = max 1 (sint (input_EstimatedCost inp))"
    by (auto simp: request_cost_def word_sless_alt max_def)
  ultimately show ?thesis
    using ca.select_release [OF assms] by (auto simp: ca_decision_def)
qed

theorem ca_cost_accounting_witness:
  "\<exists>d m' s'. CostAware_Select \<lparr>input_EstimatedCost = -5, input_CacheKey = []\<rparr>
      (snd ca_example) (fst ca_example) = (Ok d, m', s') \<and>
    (\<exists>c. lt_loads (fst ca_example) (decision_Backend d) = Some c \<and> cell_Load m' c = 1)"
proof -
  let ?inp = "\<lparr>input_EstimatedCost = -5, input_CacheKey = []\<rparr>"
  note new = NewCostAware_simps [OF ca_example_ok(1)]
  have "CostAware_HasHealthyBackend (snd ca_example) (fst ca_example)"
    by (simp add: CostAware_HasHealthyBackend_def new(1,5) Healthy_def flip: Healthy_def)
      (metis Healthy_def new(5) two_backends_simps(1))
  moreover have "lt_invar (Suc 0) (fst ca_example)" by (rule new(8)) simp
  ultimately obtain d m' s' where sel: "CostAware_Select ?inp (snd ca_example) (fst ca_example) = (Ok d, m', s')"
    using ca.ready_iff_selectable by blast
  have "(-5::int64) <s 1" by code_simp
  then have "request_cost ?inp = 1" by (simp add: request_cost_def)
  with ca_cost_accounting [OF sel] new(6) have
    "\<exists>c. lt_loads (fst ca_example) (decision_Backend d) = Some c \<and> cell_Load m' c = 1" by auto
  with sel show ?thesis by blast
qed

end
