(* ===== verification/RoundRobin.thy ===== *)
theory RoundRobin
  imports Strategy
begin

text \<open>
  \<open>internal/router/roundrobin.go\<close>.  \<open>Pick\<close> advances an unsigned counter, starts at its old value
  modulo the number of backends and returns the first healthy backend from there.  The counter is
  converted to a signed \<open>int\<close> before the modulo, so the model keeps both the conversion and the
  bounds check of the indexing.
\<close>

section \<open>The code\<close>

record round_robin =
  rr_backends :: "baddr list"
  rr_next :: uint64

definition NewRoundRobin :: "baddr list \<Rightarrow> round_robin" where
  "NewRoundRobin backends = \<lparr>rr_backends = backends, rr_next = 0\<rparr>"

definition RoundRobin_SetBackends :: "baddr list \<Rightarrow> round_robin \<Rightarrow> round_robin" where
  "RoundRobin_SetBackends backends r = r\<lparr>rr_backends := backends\<rparr>"

definition RoundRobin_Name :: string where
  "RoundRobin_Name = StrategyRoundRobin"

text \<open>The loop \<open>for i := 0; i < len(backends); i++\<close> over the remaining values of \<open>i\<close>.\<close>

fun pick_loop :: "mem \<Rightarrow> baddr list \<Rightarrow> int \<Rightarrow> nat list \<Rightarrow> baddr outcome" where
  "pick_loop m backends start [] = Err ErrNoHealthyBackend"
| "pick_loop m backends start (i # is) =
     (case go_index backends (rot_index start i (length backends)) of
        Ok b \<Rightarrow> if Healthy m b then Ok b else pick_loop m backends start is
      | Err e \<Rightarrow> Err e
      | Panic \<Rightarrow> Panic)"

definition Pick :: "mem \<Rightarrow> round_robin \<Rightarrow> baddr outcome \<times> round_robin" where
  "Pick m r =
     (let backends = rr_backends r in
      if length backends = 0 then (Err ErrNoHealthyBackend, r)
      else
        let start = start_index (rr_next r) (length backends)
        in (pick_loop m backends start [0..<length backends], r\<lparr>rr_next := rr_next r + 1\<rparr>))"

definition RoundRobin_Select ::
  "selection_input \<Rightarrow> mem \<Rightarrow> round_robin \<Rightarrow> decision outcome \<times> mem \<times> round_robin" where
  "RoundRobin_Select inp m r =
     (case Pick m r of
        (Ok b, r') \<Rightarrow>
          (Ok \<lparr>decision_Backend = b, decision_PendingRequests = 0, decision_PendingCost = 0,
               decision_CacheHit = False, decision_release = NoRelease, decision_once = False\<rparr>, m, r')
      | (Err e, r') \<Rightarrow> (Err e, m, r')
      | (Panic, r') \<Rightarrow> (Panic, m, r'))"

definition RoundRobin_HasHealthyBackend :: "mem \<Rightarrow> round_robin \<Rightarrow> bool" where
  "RoundRobin_HasHealthyBackend m r = list_ex (Healthy m) (rr_backends r)"

section \<open>The loop finds the first healthy backend of the rotation\<close>

definition rr_invar :: "nat \<Rightarrow> round_robin \<Rightarrow> bool" where
  "rr_invar k r \<longleftrightarrow> unat (rr_next r) + k \<le> 2 ^ 63"

lemma pick_loop_find:
  assumes "backends \<noteq> []"
  shows "pick_loop m backends (int s) is =
    (case find (Healthy m) (map (\<lambda>i. backends ! ((s + i) mod length backends)) is) of
       Some b \<Rightarrow> Ok b | None \<Rightarrow> Err ErrNoHealthyBackend)"
  using assms by (induction "is") (simp_all add: rot_index_nonneg)

lemma Pick_find:
  assumes "rr_invar (Suc k) r"
  shows "Pick m r =
    (if rr_backends r = [] then (Err ErrNoHealthyBackend, r)
     else (case find (Healthy m) (rotate (unat (rr_next r)) (rr_backends r)) of
             Some b \<Rightarrow> Ok b | None \<Rightarrow> Err ErrNoHealthyBackend,
           r\<lparr>rr_next := rr_next r + 1\<rparr>))"
proof (cases "rr_backends r = []")
  case False
  let ?bs = "rr_backends r" and ?n = "unat (rr_next r)"
  have "start_index (rr_next r) (length ?bs) = int (?n mod length ?bs)"
    using assms by (simp add: rr_invar_def start_index_small)
  then have "pick_loop m ?bs (start_index (rr_next r) (length ?bs)) [0..<length ?bs] =
      (case find (Healthy m) (rotate (?n mod length ?bs) ?bs) of
         Some b \<Rightarrow> Ok b | None \<Rightarrow> Err ErrNoHealthyBackend)"
    using False by (simp add: pick_loop_find visited_eq_rotate del: unat_eq_0)
  with False show ?thesis
    by (simp add: Pick_def Let_def rotate_conv_mod [of ?n])
qed (simp add: Pick_def)

lemma RoundRobin_HasHealthyBackend_iff:
  "RoundRobin_HasHealthyBackend m r \<longleftrightarrow> (\<exists>b\<in>set (rr_backends r). Healthy m b)"
  by (simp add: RoundRobin_HasHealthyBackend_def list_ex_iff)

lemma Pick_backends [simp]: "rr_backends (snd (Pick m r)) = rr_backends r"
  by (simp add: Pick_def Let_def)

lemmas rr_select_simps = RoundRobin_Select_def RoundRobin_HasHealthyBackend_iff

interpretation rr: strategy RoundRobin_Select rr_backends RoundRobin_HasHealthyBackend rr_invar
proof unfold_locales
  fix m and s :: round_robin
  show "RoundRobin_HasHealthyBackend m s \<longleftrightarrow> (\<exists>b\<in>set (rr_backends s). Healthy m b)"
    by (rule RoundRobin_HasHealthyBackend_iff)
next
  fix k s inp m d m' s'
  assume "rr_invar (Suc k) s" and "RoundRobin_Select inp m s = (Ok d, m', s')"
  then show "decision_Backend d \<in> set (rr_backends s) \<and> Healthy m (decision_Backend d)"
    by (auto simp: RoundRobin_Select_def Pick_find dest: find_SomeD
        split: outcome.splits option.splits if_splits prod.splits)
next
  fix k s inp m e m' s'
  assume "rr_invar (Suc k) s" and "RoundRobin_Select inp m s = (Err e, m', s')"
  then show "e = ErrNoHealthyBackend \<and> \<not> RoundRobin_HasHealthyBackend m s \<and> m' = m"
    by (auto simp: rr_select_simps Pick_find find_None_set
        split: outcome.splits option.splits if_splits prod.splits)
next
  fix k s inp m m' s'
  assume "rr_invar (Suc k) s"
  then show "RoundRobin_Select inp m s \<noteq> (Panic, m', s')"
    by (auto simp: RoundRobin_Select_def Pick_find split: option.splits outcome.splits prod.splits if_splits)
next
  fix k s inp m r m' s'
  assume inv: "rr_invar (Suc k) s" and "RoundRobin_Select inp m s = (r, m', s')"
  then have "s' = (if rr_backends s = [] then s else s\<lparr>rr_next := rr_next s + 1\<rparr>)"
    by (auto simp: RoundRobin_Select_def Pick_find split: option.splits outcome.splits prod.splits if_splits)
  then show "rr_invar k s'"
    using inv by (auto simp: rr_invar_def unat_next)
next
  fix inp m r m' and s s' :: round_robin
  assume eq: "RoundRobin_Select inp m s = (r, m', s')"
  then have "snd (Pick m s) = s'"
    by (auto simp: RoundRobin_Select_def split: outcome.splits prod.splits)
  then show "rr_backends s' = rr_backends s" by (metis Pick_backends)
  from eq show "mem_backend m' = mem_backend m"
    by (auto simp: RoundRobin_Select_def split: outcome.splits prod.splits)
next
  fix inp m d m' and s s' :: round_robin
  assume "RoundRobin_Select inp m s = (Ok d, m', s')"
  then show "\<not> decision_once d \<and> snd (Release d m') = m"
    by (auto simp: RoundRobin_Select_def Release_def split: outcome.splits prod.splits)
qed

section \<open>Which backend is picked\<close>

text \<open>A run of selections without health changes in between.\<close>

fun picks :: "nat \<Rightarrow> mem \<Rightarrow> round_robin \<Rightarrow> baddr outcome list" where
  "picks 0 m r = []"
| "picks (Suc k) m r = fst (Pick m r) # picks k m (snd (Pick m r))"

lemma Pick_position:
  assumes "rr_invar (Suc k) r" and "j < length (rr_backends r)"
    and "Healthy m (rr_backends r ! ((unat (rr_next r) + j) mod length (rr_backends r)))"
    and "\<And>i. i < j \<Longrightarrow>
      \<not> Healthy m (rr_backends r ! ((unat (rr_next r) + i) mod length (rr_backends r)))"
  shows "fst (Pick m r) =
    Ok (rr_backends r ! ((unat (rr_next r) + j) mod length (rr_backends r)))"
proof -
  let ?bs = "rr_backends r" and ?n = "unat (rr_next r)"
  have "find (Healthy m) (rotate ?n ?bs) = Some (?bs ! ((?n + j) mod length ?bs))"
    using assms(2-) by (auto simp: find_Some_iff nth_rotate intro!: exI [of _ j])
  moreover have "?bs \<noteq> []" using assms(2) by auto
  ultimately show ?thesis using assms(1) by (simp add: Pick_find)
qed

lemma Pick_all_healthy:
  assumes "rr_invar (Suc k) r" and "rr_backends r \<noteq> []" and "\<forall>b\<in>set (rr_backends r). Healthy m b"
  shows "fst (Pick m r) = Ok (rr_backends r ! (unat (rr_next r) mod length (rr_backends r)))"
  using assms Pick_position [of k r 0 m] by simp

lemma Pick_next [simp]:
  "rr_backends r \<noteq> [] \<Longrightarrow> rr_next (snd (Pick m r)) = rr_next r + 1"
  by (simp add: Pick_def Let_def)

lemma picks_all_healthy:
  assumes "rr_backends r \<noteq> []" and "\<forall>b\<in>set (rr_backends r). Healthy m b"
    and "unat (rr_next r) + k \<le> 2 ^ 63"
  shows "picks k m r =
    map (\<lambda>i. Ok (rr_backends r ! ((unat (rr_next r) + i) mod length (rr_backends r)))) [0..<k]"
  using assms
proof (induction k arbitrary: r)
  case (Suc k)
  let ?r = "snd (Pick m r)"
  have inv: "unat (rr_next r) < 2 ^ 63" using Suc.prems(3) by simp
  then have step: "unat (rr_next ?r) = Suc (unat (rr_next r))"
    using Suc.prems(1) by (simp add: unat_next)
  have "picks k m ?r =
      map (\<lambda>i. Ok (rr_backends r ! ((Suc (unat (rr_next r)) + i) mod length (rr_backends r)))) [0..<k]"
    using Suc.IH [of ?r] Suc.prems step by simp
  moreover have "fst (Pick m r) = Ok (rr_backends r ! (unat (rr_next r) mod length (rr_backends r)))"
    using Pick_all_healthy [of 0 r m] Suc.prems inv by (simp add: rr_invar_def)
  ultimately show ?case
    by (simp add: upt_conv_Cons map_Suc_upt [symmetric] del: upt_Suc unat_eq_0)
qed simp

lemma count_list_rotate [simp]: "count_list (rotate k xs) x = count_list xs x"
proof (induction k)
  case (Suc k)
  have "count_list (rotate1 ys) x = count_list ys x" for ys
    by (cases ys) (simp_all add: count_list_append)
  with Suc show ?case by simp
qed simp

lemma count_rounds:
  "count_list (map (\<lambda>i. xs ! ((s + i) mod length xs)) [0..<k * length xs]) x = k * count_list xs x"
proof (induction k)
  case (Suc k)
  let ?f = "\<lambda>i. xs ! ((s + i) mod length xs)" and ?n = "length xs"
  have "[0..<Suc k * ?n] = [0..<k * ?n] @ map (\<lambda>i. i + k * ?n) [0..<?n]"
    using upt_add_eq_append [of 0 "k * ?n" ?n]
    by (simp add: map_add_upt add.commute)
  then have "map ?f [0..<Suc k * ?n] = map ?f [0..<k * ?n] @ map ?f [0..<?n]"
    by (simp add: comp_def add.assoc [symmetric])
  with Suc show ?case
    by (simp add: count_list_append visited_eq_rotate)
qed simp

lemma count_list_map_Ok [simp]: "count_list (map Ok xs) (Ok x) = count_list xs x"
  by (induction xs) simp_all

lemma start_index_large:
  assumes "\<not> unat w < 2 ^ 63"
  shows "start_index w n = - int ((2 ^ 64 - unat w) mod n)"
proof -
  let ?k = "2 ^ 64 - unat w"
  have "unat w < 2 ^ 64" using unsigned_less [of w, where 'a = nat] by simp
  then have "unat w \<le> 2 ^ 64" by (rule less_imp_le)
  then have "sint w = - int ?k"
    unfolding sint_large [OF assms] by (simp only: of_nat_diff of_nat_power of_nat_numeral minus_diff_eq)
  moreover have "- int ?k smod int n = - int (?k mod n)"
    by (rule smod_int_neg_nat)
  ultimately show ?thesis by (simp only: start_index_def)
qed

lemma Pick_negative_start:
  assumes "rr_backends r \<noteq> []" and "start_index (rr_next r) (length (rr_backends r)) < 0"
  shows "fst (Pick m r) = Panic"
proof -
  let ?n = "length (rr_backends r)" and ?s = "start_index (rr_next r) (length (rr_backends r))"
  have "[0..<?n] = 0 # [1..<?n]" using assms(1) by (simp add: upt_conv_Cons)
  moreover have "rot_index ?s 0 ?n = ?s"
    by (simp add: rot_index_def start_index_def smod_smod)
  ultimately show ?thesis using assms by (simp add: Pick_def Let_def)
qed

section \<open>Properties\<close>

text \<open>
  C28: Round robin picks the first healthy backend of the list rotated to the counter's position,
  and reports \<open>ErrNoHealthyBackend\<close> when there is none; every call on a non-empty list advances
  the counter by one, whatever it returns.
\<close>

theorem rr_pick_first_healthy:
  assumes "unat (rr_next r) < 2 ^ 63"
  shows "fst (Pick m r) =
      (case find (Healthy m) (rotate (unat (rr_next r)) (rr_backends r)) of
         Some b \<Rightarrow> Ok b | None \<Rightarrow> Err ErrNoHealthyBackend)
    \<and> snd (Pick m r) = (if rr_backends r = [] then r else r\<lparr>rr_next := rr_next r + 1\<rparr>)"
  using Pick_find [of 0 r m] assms by (simp add: rr_invar_def)

theorem rr_pick_first_healthy_witness:
  "Pick (SetHealthy 7 True empty_mem) \<lparr>rr_backends = [5, 6, 7], rr_next = 1\<rparr>
   = (Ok 7, \<lparr>rr_backends = [5, 6, 7], rr_next = 2\<rparr>)"
  using rr_pick_first_healthy
      [of "\<lparr>rr_backends = [5, 6, 7], rr_next = 1\<rparr>" "SetHealthy 7 True empty_mem"]
  by (simp add: prod_eq_iff empty_mem_def Healthy_def SetHealthy_def)

text \<open>
  C27: While all backends of the list are healthy, \<open>k\<close> full rounds of selections (\<open>k\<close> times as many as
  the list is long) pick each backend exactly \<open>k\<close> times for every time it occurs in the list, wherever
  the counter starts, as long as it stays below \<open>2^63\<close> at every selection.  (With an unhealthy backend the
  next healthy one of the list gets its turns, so the healthy ones do not share them equally.)
\<close>

theorem rr_fair:
  assumes "rr_backends r \<noteq> []" and "\<forall>b\<in>set (rr_backends r). Healthy m b"
    and "unat (rr_next r) + k * length (rr_backends r) \<le> 2 ^ 63"
  shows "count_list (picks (k * length (rr_backends r)) m r) (Ok b) =
      k * count_list (rr_backends r) b"
proof -
  let ?f = "\<lambda>i. rr_backends r ! ((unat (rr_next r) + i) mod length (rr_backends r))"
  have "picks (k * length (rr_backends r)) m r = map Ok (map ?f [0..<k * length (rr_backends r)])"
    using picks_all_healthy [OF assms] by (simp add: comp_def)
  then show ?thesis by (simp add: count_rounds del: map_map)
qed

theorem rr_fair_witness:
  "count_list (picks (4 * 2) (SetHealthy 0 True (SetHealthy 1 True empty_mem)) (NewRoundRobin [0, 1])) (Ok 1) = 4"
  using rr_fair [of "NewRoundRobin [0, 1]" "SetHealthy 0 True (SetHealthy 1 True empty_mem)" 4 1]
  by (simp add: NewRoundRobin_def)

lemma Pick_zero_start:
  assumes "rr_backends r \<noteq> []" and "start_index (rr_next r) (length (rr_backends r)) = 0"
  shows "fst (Pick m r) \<noteq> Panic"
  using pick_loop_find [OF assms(1), of m 0 "[0..<length (rr_backends r)]"] assms
  by (simp add: Pick_def Let_def split: option.split)

text \<open>
  C40: Once the counter has reached \<open>2^63\<close>, a selection on a non-empty list panics exactly if the
  distance of the counter from \<open>2^64\<close> is not a multiple of the number of backends; in particular it
  never does with a single backend.
\<close>

theorem rr_counter_overflow_panics:
  assumes "rr_backends r \<noteq> []" and "2 ^ 63 \<le> unat (rr_next r)"
  shows "fst (RoundRobin_Select inp m r) = Panic \<longleftrightarrow>
    (2 ^ 64 - unat (rr_next r)) mod length (rr_backends r) \<noteq> 0"
proof -
  let ?rem = "(2 ^ 64 - unat (rr_next r)) mod length (rr_backends r)"
  have "start_index (rr_next r) (length (rr_backends r)) = - int ?rem"
    using start_index_large [of "rr_next r"] assms(2) by simp
  then have "fst (Pick m r) = Panic \<longleftrightarrow> ?rem \<noteq> 0"
    using Pick_negative_start [OF assms(1), of m] Pick_zero_start [OF assms(1), of m] by (cases "?rem = 0") simp_all
  then show ?thesis
    by (cases "Pick m r") (auto simp: RoundRobin_Select_def split: outcome.split)
qed

theorem rr_counter_overflow_panics_witness:
  "fst (RoundRobin_Select \<lparr>input_EstimatedCost = 1, input_CacheKey = []\<rparr> empty_mem
     \<lparr>rr_backends = [0, 1, 2], rr_next = 0x8000000000000000\<rparr>) = Panic"
proof -
  have "unat (0x8000000000000000 :: uint64) = 2 ^ 63" by simp
  then show ?thesis
    using rr_counter_overflow_panics [of "\<lparr>rr_backends = [0, 1, 2], rr_next = 0x8000000000000000\<rparr>"] by simp
qed

end
