(* ===== verification/RandomStrategy.thy ===== *)
theory RandomStrategy
  imports Strategy
begin

text \<open>
  \<open>internal/router/random.go\<close>.  The generator is \<open>rand.New(rand.NewSource(1))\<close>: with a fixed seed
  its next value is a function of the calls made so far, so its state is that history (the
  arguments of the previous \<open>Intn\<close> calls, latest first) and the generator itself is the argument
  \<open>intn\<close> of the definitions.  What the code relies on is that \<open>Intn(n)\<close> lies in \<open>[0,n)\<close> for
  positive \<open>n\<close>; the slice access is still bounds-checked in the model.
\<close>

section \<open>The code\<close>

record random_strategy =
  rnd_backends :: "baddr list"
  rnd_history :: "nat list"

definition intn_range :: "(nat list \<Rightarrow> nat \<Rightarrow> nat) \<Rightarrow> bool" where
  "intn_range intn \<longleftrightarrow> (\<forall>h n. 0 < n \<longrightarrow> intn h n < n)"

definition NewRandom :: "baddr list \<Rightarrow> random_strategy" where
  "NewRandom backends = \<lparr>rnd_backends = backends, rnd_history = []\<rparr>"

definition Random_Name :: string where
  "Random_Name = StrategyRandom"

definition Random_SetBackends :: "baddr list \<Rightarrow> random_strategy \<Rightarrow> random_strategy" where
  "Random_SetBackends backends r = r\<lparr>rnd_backends := backends\<rparr>"

definition Random_Select ::
  "(nat list \<Rightarrow> nat \<Rightarrow> nat) \<Rightarrow> selection_input \<Rightarrow> mem \<Rightarrow> random_strategy \<Rightarrow>
   decision outcome \<times> mem \<times> random_strategy" where
  "Random_Select intn inp m r =
     (let healthy = filter (Healthy m) (rnd_backends r) in
      if length healthy = 0 then (Err ErrNoHealthyBackend, m, r)
      else
        let idx = intn (rnd_history r) (length healthy);
            r' = r\<lparr>rnd_history := length healthy # rnd_history r\<rparr>
        in case go_index healthy (int idx) of
             Ok b \<Rightarrow>
               (Ok \<lparr>decision_Backend = b, decision_PendingRequests = 0, decision_PendingCost = 0,
                    decision_CacheHit = False, decision_release = NoRelease,
                    decision_once = False\<rparr>, m, r')
           | Err e \<Rightarrow> (Err e, m, r')
           | Panic \<Rightarrow> (Panic, m, r'))"

definition Random_HasHealthyBackend :: "mem \<Rightarrow> random_strategy \<Rightarrow> bool" where
  "Random_HasHealthyBackend m r = list_ex (Healthy m) (rnd_backends r)"

section \<open>The contract\<close>

lemma intn_rangeD: "intn_range intn \<Longrightarrow> xs \<noteq> [] \<Longrightarrow> intn h (length xs) < length xs"
  by (simp add: intn_range_def)

lemma Random_Select_eq:
  assumes "intn_range intn"
  shows "Random_Select intn inp m r =
    (let healthy = filter (Healthy m) (rnd_backends r) in
     if healthy = [] then (Err ErrNoHealthyBackend, m, r)
     else (Ok \<lparr>decision_Backend = healthy ! intn (rnd_history r) (length healthy),
               decision_PendingRequests = 0, decision_PendingCost = 0,
               decision_CacheHit = False, decision_release = NoRelease, decision_once = False\<rparr>,
           m, r\<lparr>rnd_history := length healthy # rnd_history r\<rparr>))"
proof -
  have "intn (rnd_history r) (length (filter (Healthy m) (rnd_backends r)))
      < length (filter (Healthy m) (rnd_backends r))"
    if "filter (Healthy m) (rnd_backends r) \<noteq> []"
    using assms that by (rule intn_rangeD)
  then show ?thesis by (simp add: Random_Select_def Let_def del: filter_empty_conv)
qed

lemma Random_nth_healthy:
  assumes "intn_range intn" and "filter P xs \<noteq> []"
  shows "filter P xs ! intn h (length (filter P xs)) \<in> set (filter P xs)"
  using assms by (intro nth_mem intn_rangeD)

interpretation random: strategy
  "Random_Select intn" rnd_backends Random_HasHealthyBackend "\<lambda>_ _. intn_range intn" for intn
proof unfold_locales
  fix m and s :: random_strategy
  show "Random_HasHealthyBackend m s \<longleftrightarrow> (\<exists>b\<in>set (rnd_backends s). Healthy m b)"
    by (simp add: Random_HasHealthyBackend_def list_ex_iff)
next
  fix s inp m d m' s'
  assume "intn_range intn" and "Random_Select intn inp m s = (Ok d, m', s')"
  then show "decision_Backend d \<in> set (rnd_backends s) \<and> Healthy m (decision_Backend d)"
    using Random_nth_healthy [of intn "Healthy m" "rnd_backends s" "rnd_history s"]
    by (auto simp: Random_Select_eq Let_def simp del: filter_empty_conv split: if_splits)
next
  fix s inp m e m' s'
  assume "intn_range intn" and "Random_Select intn inp m s = (Err e, m', s')"
  then show "e = ErrNoHealthyBackend \<and> \<not> Random_HasHealthyBackend m s \<and> m' = m"
    by (auto simp: Random_Select_eq Random_HasHealthyBackend_def Let_def list_ex_iff filter_empty_conv
        split: if_splits)
next
  fix s inp m m' s'
  assume "intn_range intn"
  then show "Random_Select intn inp m s \<noteq> (Panic, m', s')"
    by (auto simp: Random_Select_eq Let_def)
next
  fix k inp m r m' and s s' :: random_strategy
  assume "intn_range intn"
  then show "intn_range intn" .
next
  fix inp m r m' and s s' :: random_strategy
  assume "Random_Select intn inp m s = (r, m', s')"
  then show "rnd_backends s' = rnd_backends s" and "mem_backend m' = mem_backend m"
    by (auto simp: Random_Select_def Let_def split: outcome.splits if_splits)
next
  fix inp m d m' and s s' :: random_strategy
  assume "Random_Select intn inp m s = (Ok d, m', s')"
  then show "\<not> decision_once d \<and> snd (Release d m') = m"
    by (auto simp: Random_Select_def Let_def Release_def split: outcome.splits if_splits)
qed

section \<open>Properties\<close>

text \<open>
  Every healthy backend is one the random strategy can return: whichever it is, some value of
  the generator within \<open>Intn\<close>'s documented range selects it; and nothing else can be returned.
\<close>

theorem random_support:
  "{b. \<exists>intn d m' r'. intn_range intn \<and> Random_Select intn inp m r = (Ok d, m', r') \<and> decision_Backend d = b}
   = {b \<in> set (rnd_backends r). Healthy m b}"
proof (intro equalityI subsetI)
  fix b assume "b \<in> {b. \<exists>intn d m' r'. intn_range intn \<and>
      Random_Select intn inp m r = (Ok d, m', r') \<and> decision_Backend d = b}"
  then show "b \<in> {b \<in> set (rnd_backends r). Healthy m b}"
    using random.select_Ok by fastforce
next
  fix b assume "b \<in> {b \<in> set (rnd_backends r). Healthy m b}"
  then have "b \<in> set (filter (Healthy m) (rnd_backends r))" by simp
  then obtain i where i: "i < length (filter (Healthy m) (rnd_backends r))"
    and b: "filter (Healthy m) (rnd_backends r) ! i = b" by (metis in_set_conv_nth)
  let ?intn = "\<lambda>h n. if i < n then i else 0"
  have ok: "intn_range ?intn" by (simp add: intn_range_def)
  have "filter (Healthy m) (rnd_backends r) \<noteq> []" using i by auto
  with i b have "\<exists>d m' r'. Random_Select ?intn inp m r = (Ok d, m', r') \<and> decision_Backend d = b"
    by (simp add: Random_Select_eq [OF ok] Let_def del: filter_empty_conv)
  with ok show "b \<in> {b. \<exists>intn d m' r'. intn_range intn \<and>
      Random_Select intn inp m r = (Ok d, m', r') \<and> decision_Backend d = b}" by blast
qed

end
