(* ===== verification/LeastPending.thy ===== *)
theory LeastPending
  imports LoadTable
begin

text \<open>
  \<open>internal/router/leastpending.go\<close>: the strategy that counts the requests in flight at each
  backend and takes a healthy backend with the fewest.
\<close>

section \<open>The code\<close>

type_synonym least_pending = load_table

definition LeastPending_SetBackends ::
  "baddr list \<Rightarrow> least_pending \<Rightarrow> mem \<Rightarrow> least_pending \<times> mem" where
  "LeastPending_SetBackends backends s m =
     (let (updated, m') = update_loads (lt_loads s) backends Map.empty m
      in (s\<lparr>lt_backends := backends, lt_loads := updated\<rparr>, m'))"

definition NewLeastPending :: "baddr list \<Rightarrow> mem \<Rightarrow> least_pending \<times> mem" where
  "NewLeastPending backends m =
     LeastPending_SetBackends backends \<lparr>lt_backends = [], lt_next = 0, lt_loads = Map.empty\<rparr> m"

definition LeastPending_Name :: string where
  "LeastPending_Name = StrategyLeastPending"

definition LeastPending_Select ::
  "selection_input \<Rightarrow> mem \<Rightarrow> least_pending \<Rightarrow> decision outcome \<times> mem \<times> least_pending" where
  "LeastPending_Select inp m s =
     (let backends = lt_backends s; loads = lt_loads s in
      if length backends = 0 then (Err ErrNoHealthyBackend, m, s)
      else
        let start = start_index (lt_next s) (length backends);
            s' = s\<lparr>lt_next := lt_next s + 1\<rparr>
        in case scan_loop m backends loads start [0..<length backends] None of
             Ok None \<Rightarrow> (Err ErrNoHealthyBackend, m, s')
           | Ok (Some (chosen, chosenLoad, _)) \<Rightarrow>
               let (pendingAfter, m') = cell_Add chosenLoad 1 m
               in (Ok \<lparr>decision_Backend = chosen, decision_PendingRequests = pendingAfter,
                       decision_PendingCost = 0, decision_CacheHit = False,
                       decision_release = SubtractFrom chosenLoad 1, decision_once = False\<rparr>,
                   m', s')
           | Err e \<Rightarrow> (Err e, m, s')
           | Panic \<Rightarrow> (Panic, m, s'))"

definition LeastPending_HasHealthyBackend :: "mem \<Rightarrow> least_pending \<Rightarrow> bool" where
  "LeastPending_HasHealthyBackend m s = list_ex (Healthy m) (lt_backends s)"

section \<open>The contract\<close>

definition lp_decision :: "baddr \<Rightarrow> cref \<Rightarrow> int64 \<Rightarrow> decision" where
  "lp_decision b c pendingAfter =
     \<lparr>decision_Backend = b, decision_PendingRequests = pendingAfter, decision_PendingCost = 0,
      decision_CacheHit = False, decision_release = SubtractFrom c 1, decision_once = False\<rparr>"

lemma LeastPending_Select_table: "LeastPending_Select inp m s = lt_select 1 lp_decision m s"
  unfolding LeastPending_Select_def lt_select_def lp_decision_def ..

interpretation lp: least_loaded_strategy
  LeastPending_Select lt_backends LeastPending_HasHealthyBackend lt_invar lt_loads "\<lambda>_. 1"
proof (unfold_locales, unfold LeastPending_Select_table LeastPending_HasHealthyBackend_def)
  fix m and s :: least_pending
  show "list_ex (Healthy m) (lt_backends s) \<longleftrightarrow> (\<exists>b\<in>set (lt_backends s). Healthy m b)"
    by (simp add: list_ex_iff)
next
  fix k m d m' and s s' :: least_pending
  assume inv: "lt_invar (Suc k) s" and sel: "lt_select 1 lp_decision m s = (Ok d, m', s')"
  then show "decision_Backend d \<in> set (lt_backends s) \<and> Healthy m (decision_Backend d)"
    by (rule lt_select_least) (simp add: lp_decision_def)
  fix b c c' assume "b \<in> set (lt_backends s)" and "Healthy m b"
    and "lt_loads s (decision_Backend d) = Some c" and "lt_loads s b = Some c'"
  with inv sel show "sint (cell_Load m c) \<le> sint (cell_Load m c')"
    by (elim lt_select_least) (auto simp: lp_decision_def load_of_def)
next
  fix k m e m' and s s' :: least_pending
  assume "lt_invar (Suc k) s" and "lt_select 1 lp_decision m s = (Err e, m', s')"
  from lt_select_Err [OF this]
  show "e = ErrNoHealthyBackend \<and> \<not> list_ex (Healthy m) (lt_backends s) \<and> m' = m" by simp
next
  fix m d m' and s s' :: least_pending
  assume "lt_select 1 lp_decision m s = (Ok d, m', s')"
  from lt_select_Ok [OF this]
  show "\<not> decision_once d \<and> snd (Release d m') = m"
    and "\<exists>c. lt_loads s (decision_Backend d) = Some c \<and> decision_release d = SubtractFrom c 1"
    by (auto simp: lp_decision_def Release_def cell_Add_cancel)
qed (fact lt_select_not_Panic lt_select_invar lt_select_frame)+

section \<open>Fresh strategies\<close>

lemma NewLeastPending_simps:
  assumes "NewLeastPending backends m = (s, m')"
  shows "lt_backends s = backends" and "lt_next s = 0" and "dom (lt_loads s) = set backends"
    and "loads_ok m' (lt_loads s)" and "mem_backend m' = mem_backend m"
    and "lt_loads s b = Some c \<Longrightarrow> cell_Load m' c = 0"
    and "0 \<le> C \<Longrightarrow> balanced m' (lt_loads s) backends C 0" and "k \<le> 2 ^ 63 \<Longrightarrow> lt_invar k s"
proof -
  obtain updated where upd: "update_loads Map.empty backends Map.empty m = (updated, m')"
    and s: "s = \<lparr>lt_backends = backends, lt_next = 0, lt_loads = updated\<rparr>"
    using assms by (auto simp: NewLeastPending_def LeastPending_SetBackends_def split: prod.splits)
  note table = update_loads_table [OF upd loads_ok_empty]
  show "lt_backends s = backends" and "lt_next s = 0" and "dom (lt_loads s) = set backends"
    and "loads_ok m' (lt_loads s)" and "mem_backend m' = mem_backend m"
    and "lt_loads s b = Some c \<Longrightarrow> cell_Load m' c = 0"
    and "0 \<le> C \<Longrightarrow> balanced m' (lt_loads s) backends C 0" and "k \<le> 2 ^ 63 \<Longrightarrow> lt_invar k s"
    using table new_table_loads(3) [OF upd] by (simp_all add: s lt_invar_def)
qed

lemma NewLeastPending_own:
  "NewLeastPending backends m = (s, m') \<Longrightarrow> own_counters (lt_loads s) backends"
  using NewLeastPending_simps(3,4) loads_ok_own_counters by blast

section \<open>Properties\<close>

text \<open>
  C7: A selection of \<open>least_pending\<close> takes a healthy backend with the fewest pending requests, the
  first such one in the rotated order (every healthy backend before it has strictly more), reports
  the count including the new request, and changes no other counter.
\<close>

theorem lp_select_least:
  assumes "lt_invar (Suc k) s" and "LeastPending_Select inp m s = (Ok d, m', s')"
  shows "\<exists>c bs bs'. rotate (unat (lt_next s)) (lt_backends s) = bs @ decision_Backend d # bs' \<and>
    Healthy m (decision_Backend d) \<and> lt_loads s (decision_Backend d) = Some c \<and>
    (\<forall>b\<in>set bs. Healthy m b \<longrightarrow> sint (cell_Load m c) < load_of m (lt_loads s) b) \<and>
    (\<forall>b\<in>set bs'. Healthy m b \<longrightarrow> sint (cell_Load m c) \<le> load_of m (lt_loads s) b) \<and>
    decision_PendingRequests d = cell_Load m c + 1 \<and> cell_Load m' c = cell_Load m c + 1 \<and>
    (\<forall>c'. c' \<noteq> c \<longrightarrow> cell_Load m' c' = cell_Load m c')"
proof -
  have "lt_select 1 lp_decision m s = (Ok d, m', s')"
    using assms(2) by (simp add: LeastPending_Select_table)
  from lt_select_least [OF assms(1) this] obtain b c bs bs'
    where d: "d = lp_decision b c (cell_Load m c + 1)" and m': "m' = snd (cell_Add c 1 m)"
      and split: "rotate (unat (lt_next s)) (lt_backends s) = bs @ b # bs'"
      and b: "Healthy m b" "lt_loads s b = Some c"
      and strict: "\<forall>a\<in>set bs. Healthy m a \<longrightarrow> sint (cell_Load m c) < load_of m (lt_loads s) a"
      and least: "\<forall>a\<in>set (lt_backends s). Healthy m a \<longrightarrow> sint (cell_Load m c) \<le> load_of m (lt_loads s) a"
    by metis
  have "set bs' \<subseteq> set (lt_backends s)" using arg_cong [OF split, of set] by auto
  with d m' split b strict least show ?thesis
    by (intro exI [of _ c] exI [of _ bs] exI [of _ bs']) (auto simp: lp_decision_def)
qed

definition lp_example :: "least_pending \<times> mem" where
  "lp_example = NewLeastPending [0, 1] two_backends"

lemma lp_example_select:
  "LeastPending_Select inp (snd lp_example) (fst lp_example) =
    (Ok \<lparr>decision_Backend = 0, decision_PendingRequests = 1, decision_PendingCost = 0,
         decision_CacheHit = False, decision_release = SubtractFrom 0 1, decision_once = False\<rparr>,
     snd (cell_Add 0 1 (snd lp_example)), (fst lp_example)\<lparr>lt_next := 1\<rparr>)"
  by (simp add: lp_example_def two_backends_def NewLeastPending_def LeastPending_SetBackends_def
      LeastPending_Select_def Let_def case_prod_beta start_index_def rot_index_def go_index_def
      new_cell_def cell_Load_def cell_Add_def empty_mem_def Healthy_def SetHealthy_def
      signed_modulo_int_def numeral_eq_Suc upt_conv_Cons)

theorem lp_select_least_witness:
  "\<exists>c bs bs'. rotate 0 [0, 1] = bs @ 0 # bs' \<and> lt_loads (fst lp_example) 0 = Some c \<and>
    (\<forall>b\<in>set bs'. Healthy (snd lp_example) b \<longrightarrow>
       sint (cell_Load (snd lp_example) c) \<le> load_of (snd lp_example) (lt_loads (fst lp_example)) b)"
proof -
  have "NewLeastPending [0, 1] two_backends = (fst lp_example, snd lp_example)"
    by (simp add: lp_example_def)
  note new = NewLeastPending_simps [OF this]
  have "lt_invar (Suc 0) (fst lp_example)" by (rule new(8)) simp
  from lp_select_least [OF this lp_example_select] show ?thesis
    by (auto simp: new(1,2))
qed

text \<open>
  C12: Accounting.  However selections, releases and health changes of a fresh \<open>least_pending\<close>
  strategy interleave, the counter of a backend is the number of outstanding decisions that chose it.
\<close>

theorem lp_counts_outstanding:
  assumes "NewLeastPending backends m0 = (s0, m1)"
    and "strategy_run LeastPending_Select m1 s0 m s ds" and "lt_loads s0 b = Some c"
  shows "cell_Load m c = of_nat (length (filter (\<lambda>d. decision_Backend d = b) ds))"
proof -
  note new = NewLeastPending_simps [OF assms(1)]
  have uniq: "\<forall>b'. lt_loads s0 b' = Some c \<longrightarrow> b' = b"
    using loads_okD(2) [OF new(4) assms(3)] by blast
  have "\<forall>d\<in>set ds. decision_Backend d = b \<longrightarrow> decision_load c d = 1"
    using lp.run_decision_load(2) [OF assms(2) _ assms(3) uniq] by blast
  then have "held c (filter (\<lambda>d. decision_Backend d = b) ds) =
      of_nat (length (filter (\<lambda>d. decision_Backend d = b) ds))"
    by (induction ds) simp_all
  then show ?thesis
    using lp.run_accounting(1) [OF assms(2)] lp.run_held [OF assms(2,3) uniq] new(6) [OF assms(3)]
    by simp
qed

text \<open>
  C30: Balance.  After fewer than \<open>2^63\<close> selections by a fresh strategy while all backends are healthy,
  and as long as none of the selections has been released, the numbers of pending requests of any two
  backends differ by at most one.
\<close>

theorem lp_balanced:
  assumes "NewLeastPending backends m0 = (s0, m1)" and "backends \<noteq> []"
    and "\<forall>b\<in>set backends. Healthy m0 b" and "length inps < 2 ^ 63"
    and "select_all LeastPending_Select inps m1 s0 = (m, s)"
    and "b \<in> set backends" and "b' \<in> set backends"
  shows "\<bar>load_of m (lt_loads s) b - load_of m (lt_loads s) b'\<bar> \<le> 1"
proof -
  note new = NewLeastPending_simps [OF assms(1)]
  have len: "int (length inps) < 2 ^ 63" using assms(4) by (metis of_nat_less_numeral_power_cancel_iff)
  have "balanced m (lt_loads s) (lt_backends s) 1 (0 + int (length inps) * 1) \<and>
      lt_loads s = lt_loads s0 \<and> lt_backends s = lt_backends s0"
    using assms(2-5) new(7) NewLeastPending_own [OF assms(1)] len
    by (intro lp.balance_run [OF new(8)]) (auto simp: new(1,5) Healthy_def balanced_def)
  with assms(6,7) new(1) show ?thesis by (intro balancedD) auto
qed

lemma lp_example_ok [simp]:
  "NewLeastPending [0, 1] two_backends = (fst lp_example, snd lp_example)"
  "lt_loads (fst lp_example) = [0 \<mapsto> 0, 1 \<mapsto> 1]"
  by (simp_all add: lp_example_def NewLeastPending_def LeastPending_SetBackends_def Let_def
      case_prod_beta new_cell_def two_backends_def empty_mem_def)

theorem lp_counts_outstanding_witness:
  "\<exists>m s d. strategy_run LeastPending_Select (snd lp_example) (fst lp_example) m s [d] \<and>
     cell_Load m 0 = 1"
proof -
  have run: "strategy_run LeastPending_Select (snd lp_example) (fst lp_example)
      (snd (cell_Add 0 1 (snd lp_example))) ((fst lp_example)\<lparr>lt_next := 1\<rparr>)
      [\<lparr>decision_Backend = 0, decision_PendingRequests = 1, decision_PendingCost = 0,
         decision_CacheHit = False, decision_release = SubtractFrom 0 1, decision_once = False\<rparr>]"
    by (rule run_select [where inp = "\<lparr>input_EstimatedCost = 1, input_CacheKey = []\<rparr>"])
      (rule run_start lp_example_select)+
  from lp_counts_outstanding [OF lp_example_ok(1) run, of 0 0]
  have "cell_Load (snd (cell_Add 0 1 (snd lp_example))) 0 = 1" by simp
  with run show ?thesis by blast
qed

theorem lp_balanced_witness:
  "\<exists>m s. select_all LeastPending_Select
       (replicate 3 \<lparr>input_EstimatedCost = 1, input_CacheKey = []\<rparr>) (snd lp_example) (fst lp_example) = (m, s)
     \<and> \<bar>load_of m (lt_loads s) 0 - load_of m (lt_loads s) 1\<bar> \<le> 1"
proof -
  obtain m s where run: "select_all LeastPending_Select
      (replicate 3 \<lparr>input_EstimatedCost = 1, input_CacheKey = []\<rparr>) (snd lp_example) (fst lp_example) = (m, s)"
    by (metis surj_pair)
  have "\<forall>b\<in>set [0, 1]. Healthy two_backends b" by simp
  from lp_balanced [OF lp_example_ok(1) _ this _ run, of 0 1] run show ?thesis by simp
qed

text \<open>
  \<open>SetBackends\<close> leaves exactly the listed backends with a counter, keeps the counter (and so
  the pending count) of every backend that stays, starts new backends at zero on counters of their
  own, and changes no counter an outstanding decision may still release.
\<close>

theorem lp_SetBackends_keeps_counters:
  assumes "LeastPending_SetBackends backends s m = (s', m')" and "loads_ok m (lt_loads s)"
  shows "lt_backends s' = backends \<and> dom (lt_loads s') = set backends \<and> loads_ok m' (lt_loads s') \<and>
    (\<forall>b\<in>set backends. \<forall>c. lt_loads s b = Some c \<longrightarrow> lt_loads s' b = Some c) \<and>
    (\<forall>b\<in>set backends. lt_loads s b = None \<longrightarrow> load_of m' (lt_loads s') b = 0) \<and>
    (\<forall>c<mem_next_cell m. cell_Load m' c = cell_Load m c) \<and> mem_backend m' = mem_backend m"
proof -
  obtain updated where upd: "update_loads (lt_loads s) backends Map.empty m = (updated, m')"
    and s': "s' = s\<lparr>lt_backends := backends, lt_loads := updated\<rparr>"
    using assms(1) by (auto simp: LeastPending_SetBackends_def split: prod.splits)
  note table = update_loads_table [OF upd assms(2)]
  have "load_of m' updated b = 0" if "lt_loads s b = None" for b
    using table(5) [OF _ that] by (auto simp: load_of_def split: option.splits)
  then show ?thesis using table by (simp add: s')
qed

theorem lp_SetBackends_keeps_counters_witness:
  "lt_loads (fst (LeastPending_SetBackends [1, 2] (fst lp_example) (snd lp_example))) 1 = Some 1"
proof -
  have "loads_ok (snd lp_example) (lt_loads (fst lp_example))"
    by (rule NewLeastPending_simps(4) [OF lp_example_ok(1)])
  from lp_SetBackends_keeps_counters [OF surjective_pairing this, of "[1, 2]"] show ?thesis by simp
qed

end
