(* ===== verification/CacheStore.thy ===== *)
theory CacheStore
  imports GoStrings
begin

text \<open>
  \<open>internal/cache\<close>: the \<open>Store\<close> interface as a locale, the in-memory store as its interpretation,
  and the Redis store over a Redis client.  Times and durations are nanoseconds; the clock value a
  call reads is its argument \<open>now\<close>.  A lookup returns an error or the backend name with the found
  flag; a store operation returns an optional error.
\<close>

section \<open>The interface\<close>

text \<open>
  \<open>view s t k\<close> is the backend remembered in \<open>s\<close> for the trimmed key \<open>k\<close> as seen at time \<open>t\<close>.
  The laws: a hit is what is remembered, a miss means nothing is, a lookup changes nothing that can
  be seen later, and a successful \<open>RememberBackend\<close> replaces the entry until its time to live (ten
  minutes if it is not positive) is over; blank keys and blank backends are ignored.  \<open>lifetime\<close> is how
  long the store keeps an entry with a given positive time to live, which depends on its resolution.
\<close>

definition default_ttl :: int where
  "default_ttl = 10 * 60 * 1000000000"

definition effective_ttl :: "int \<Rightarrow> int" where
  "effective_ttl ttl = (if ttl \<le> 0 then default_ttl else ttl)"

lemma effective_ttl_pos [simp]: "0 < effective_ttl ttl"
  by (simp add: effective_ttl_def default_ttl_def)

locale cache_store =
  fixes preferred :: "int \<Rightarrow> string \<Rightarrow> 's \<Rightarrow> (gerror + string \<times> bool) \<times> 's"
    and remember :: "int \<Rightarrow> string \<Rightarrow> string \<Rightarrow> int \<Rightarrow> 's \<Rightarrow> gerror option \<times> 's"
    and view :: "'s \<Rightarrow> int \<Rightarrow> string \<Rightarrow> string option"
    and lifetime :: "int \<Rightarrow> int"
  assumes preferred_hit: "preferred now key s = (Inr (b, True), s') \<Longrightarrow>
        TrimSpace key \<noteq> [] \<and> view s now (TrimSpace key) = Some b"
    and preferred_miss: "preferred now key s = (Inr (b, False), s') \<Longrightarrow>
        b = [] \<and> (TrimSpace key = [] \<or> view s now (TrimSpace key) = None)"
    and preferred_view: "preferred now key s = (r, s') \<Longrightarrow> now \<le> t \<Longrightarrow> view s' t = view s t"
    and remember_view: "remember now key b ttl s = (None, s') \<Longrightarrow>
        TrimSpace key \<noteq> [] \<Longrightarrow> TrimSpace b \<noteq> [] \<Longrightarrow> now \<le> t \<Longrightarrow>
        t < now + lifetime (effective_ttl ttl) \<Longrightarrow>
        view s' t = (view s t)(TrimSpace key \<mapsto> TrimSpace b)"
    and remember_blank: "TrimSpace key = [] \<or> TrimSpace b = [] \<Longrightarrow> remember now key b ttl s = (None, s)"
begin

text \<open>What was remembered is found again while it lives, unless the store reports an error.\<close>

lemma remember_then_preferred:
  assumes "remember now key b ttl s = (None, s')" and "TrimSpace key \<noteq> []" and "TrimSpace b \<noteq> []"
    and "now \<le> t" and "t < now + lifetime (effective_ttl ttl)"
    and "preferred t key' s' = (Inr r, s'')" and "TrimSpace key' = TrimSpace key"
  shows "r = (TrimSpace b, True)"
proof (cases r)
  case (Pair b' ok)
  have "view s' t (TrimSpace key) = Some (TrimSpace b)"
    using remember_view [OF assms(1-5)] by simp
  with assms(2,6,7) Pair preferred_hit [of t key' s' b' s''] preferred_miss [of t key' s' b' s'']
  show ?thesis by (cases ok) auto
qed

text \<open>Remembering one key changes no other.\<close>

lemma remember_other:
  assumes "remember now key b ttl s = (None, s')" and "k \<noteq> TrimSpace key"
    and "now \<le> t" and "t < now + lifetime (effective_ttl ttl)"
  shows "view s' t k = view s t k"
proof (cases "TrimSpace key = [] \<or> TrimSpace b = []")
  case True
  with remember_blank assms(1) show ?thesis by simp
next
  case False
  with remember_view [OF assms(1) _ _ assms(3,4)] assms(2) show ?thesis by simp
qed

end

section \<open>The in-memory store\<close>

record memory_entry =
  entry_backend :: string
  entry_expiresAt :: int

type_synonym memory_store = "string \<rightharpoonup> memory_entry"

definition NewMemoryStore :: memory_store where
  "NewMemoryStore = Map.empty"

definition MemoryStore_PreferredBackend ::
  "int \<Rightarrow> string \<Rightarrow> memory_store \<Rightarrow> (gerror + string \<times> bool) \<times> memory_store" where
  "MemoryStore_PreferredBackend now key s =
     (let key = TrimSpace key in
      if key = [] then (Inr ([], False), s)
      else
        (case s key of
           None \<Rightarrow> (Inr ([], False), s)
         | Some entry \<Rightarrow>
             if entry_expiresAt entry < now then (Inr ([], False), s(key := None))
             else (Inr (entry_backend entry, True), s)))"

definition MemoryStore_RememberBackend ::
  "int \<Rightarrow> string \<Rightarrow> string \<Rightarrow> int \<Rightarrow> memory_store \<Rightarrow> gerror option \<times> memory_store" where
  "MemoryStore_RememberBackend now key backend ttl s =
     (let key = TrimSpace key; backend = TrimSpace backend in
      if key = [] \<or> backend = [] then (None, s)
      else
        let ttl = (if ttl \<le> 0 then 10 * 60 * 1000000000 else ttl)
        in (None, s(key \<mapsto> \<lparr>entry_backend = backend, entry_expiresAt = now + ttl\<rparr>)))"

definition memory_view :: "memory_store \<Rightarrow> int \<Rightarrow> string \<Rightarrow> string option" where
  "memory_view s t k =
     (case s k of
        None \<Rightarrow> None
      | Some entry \<Rightarrow> if entry_expiresAt entry < t then None else Some (entry_backend entry))"

lemma MemoryStore_RememberBackend_eq:
  "MemoryStore_RememberBackend now key b ttl s =
    (None, if TrimSpace key = [] \<or> TrimSpace b = [] then s
           else s(TrimSpace key \<mapsto> \<lparr>entry_backend = TrimSpace b, entry_expiresAt = now + effective_ttl ttl\<rparr>))"
  by (simp add: MemoryStore_RememberBackend_def effective_ttl_def default_ttl_def Let_def)

text \<open>A lookup leaves the entries alone or drops the expired entry it found.\<close>

lemma MemoryStore_PreferredBackend_state:
  "MemoryStore_PreferredBackend now key s = (r, s') \<Longrightarrow>
    s' = s \<or> (\<exists>e. s (TrimSpace key) = Some e \<and> entry_expiresAt e < now \<and> s' = s(TrimSpace key := None))"
  by (auto simp: MemoryStore_PreferredBackend_def Let_def split: if_splits option.splits)

lemma memory_view_evict:
  "s k = Some e \<Longrightarrow> entry_expiresAt e < t \<Longrightarrow> memory_view (s(k := None)) t = memory_view s t"
  by (rule ext) (simp add: memory_view_def)

lemma memory_view_remember:
  "t < now + effective_ttl ttl \<Longrightarrow>
    memory_view (s(k \<mapsto> \<lparr>entry_backend = b, entry_expiresAt = now + effective_ttl ttl\<rparr>)) t
      = (memory_view s t)(k \<mapsto> b)"
  by (rule ext) (simp add: memory_view_def)

interpretation memory: cache_store
  MemoryStore_PreferredBackend MemoryStore_RememberBackend memory_view "\<lambda>ttl. ttl"
proof unfold_locales
  fix now key b and s s' :: memory_store
  show "MemoryStore_PreferredBackend now key s = (Inr (b, True), s') \<Longrightarrow>
      TrimSpace key \<noteq> [] \<and> memory_view s now (TrimSpace key) = Some b"
    and "MemoryStore_PreferredBackend now key s = (Inr (b, False), s') \<Longrightarrow>
      b = [] \<and> (TrimSpace key = [] \<or> memory_view s now (TrimSpace key) = None)"
    by (auto simp: MemoryStore_PreferredBackend_def memory_view_def Let_def
        split: if_splits option.splits)
next
  fix now key t and s s' :: memory_store and r
  assume "MemoryStore_PreferredBackend now key s = (r, s')" and "now \<le> t"
  then show "memory_view s' t = memory_view s t"
    by (auto dest!: MemoryStore_PreferredBackend_state simp: memory_view_evict)
next
  fix now key b ttl t and s s' :: memory_store
  assume "MemoryStore_RememberBackend now key b ttl s = (None, s')"
    and "TrimSpace key \<noteq> []" and "TrimSpace b \<noteq> []" and "now \<le> t" and "t < now + effective_ttl ttl"
  then show "memory_view s' t = (memory_view s t)(TrimSpace key \<mapsto> TrimSpace b)"
    by (auto simp: MemoryStore_RememberBackend_eq memory_view_remember)
next
  fix now key b ttl and s :: memory_store
  show "TrimSpace key = [] \<or> TrimSpace b = [] \<Longrightarrow>
      MemoryStore_RememberBackend now key b ttl s = (None, s)"
    by (simp add: MemoryStore_RememberBackend_eq)
qed

subsection \<open>Histories of the in-memory store\<close>

text \<open>
  What a store that only forgets by expiry remembers after a history of operations: the last
  \<open>RememberBackend\<close> of the key, until its time to live is over.
\<close>

datatype store_op = Lookup int string | Remember int string string int

fun store_op_time :: "store_op \<Rightarrow> int" where
  "store_op_time (Lookup now key) = now"
| "store_op_time (Remember now key b ttl) = now"

fun memory_exec :: "store_op list \<Rightarrow> memory_store \<Rightarrow> memory_store" where
  "memory_exec [] s = s"
| "memory_exec (Lookup now key # ops) s = memory_exec ops (snd (MemoryStore_PreferredBackend now key s))"
| "memory_exec (Remember now key b ttl # ops) s =
     memory_exec ops (snd (MemoryStore_RememberBackend now key b ttl s))"

fun last_remembered :: "store_op list \<Rightarrow> int \<Rightarrow> string \<Rightarrow> string option \<Rightarrow> string option" where
  "last_remembered [] t k v = v"
| "last_remembered (Lookup now key # ops) t k v = last_remembered ops t k v"
| "last_remembered (Remember now key b ttl # ops) t k v =
     last_remembered ops t k
       (if TrimSpace key = k \<and> k \<noteq> [] \<and> TrimSpace b \<noteq> []
        then (if t \<le> now + effective_ttl ttl then Some (TrimSpace b) else None)
        else v)"

lemma memory_view_RememberBackend:
  "memory_view (snd (MemoryStore_RememberBackend now key b ttl s)) t k =
    (if TrimSpace key = k \<and> k \<noteq> [] \<and> TrimSpace b \<noteq> []
     then (if t \<le> now + effective_ttl ttl then Some (TrimSpace b) else None)
     else memory_view s t k)"
  by (auto simp: MemoryStore_RememberBackend_eq memory_view_def)

lemma memory_view_PreferredBackend:
  assumes "now \<le> t"
  shows "memory_view (snd (MemoryStore_PreferredBackend now key s)) t = memory_view s t"
  using memory.preferred_view [OF surjective_pairing assms] .

lemma memory_exec_view:
  "\<forall>op \<in> set ops. store_op_time op \<le> t \<Longrightarrow>
    memory_view (memory_exec ops s) t k = last_remembered ops t k (memory_view s t k)"
  by (induction ops s rule: memory_exec.induct)
    (simp_all add: memory_view_PreferredBackend memory_view_RememberBackend)

lemma MemoryStore_PreferredBackend_view:
  "fst (MemoryStore_PreferredBackend t key s) =
    (case if TrimSpace key = [] then None else memory_view s t (TrimSpace key) of
       None \<Rightarrow> Inr ([], False) | Some b \<Rightarrow> Inr (b, True))"
  by (auto simp: MemoryStore_PreferredBackend_def memory_view_def Let_def split: option.splits)

text \<open>
  C18:  After any history of lookups and \<open>RememberBackend\<close> calls that is not in the future, a lookup
  in a new \<open>MemoryStore\<close> answers the backend of the last \<open>RememberBackend\<close> of that key (both trimmed)
  while its time to live lasts, and a miss without an error in every other case: lookups of other
  keys, evictions and ignored blank calls do not show.
\<close>

theorem memory_lookup_history:
  assumes "\<forall>op \<in> set ops. store_op_time op \<le> t"
  shows "fst (MemoryStore_PreferredBackend t key (memory_exec ops NewMemoryStore)) =
    (case if TrimSpace key = [] then None else last_remembered ops t (TrimSpace key) None of
       None \<Rightarrow> Inr ([], False) | Some b \<Rightarrow> Inr (b, True))"
  using memory_exec_view [OF assms, of NewMemoryStore]
  by (simp add: MemoryStore_PreferredBackend_view memory_view_def NewMemoryStore_def)

theorem memory_lookup_history_witness:
  "fst (MemoryStore_PreferredBackend 9 ''k''
     (memory_exec [Remember 0 ''k '' ''a'' 5, Lookup 7 ''k'', Remember 8 '' k'' ''b'' 5, Lookup 9 ''x'']
       NewMemoryStore)) = Inr (''b'', True)"
proof -
  have "TrimSpace ''k'' = ''k''" "TrimSpace ''k '' = ''k''" "TrimSpace '' k'' = ''k''"
    "TrimSpace ''a'' = ''a''" "TrimSpace ''b'' = ''b''"
    by code_simp+
  then show ?thesis
    using memory_lookup_history [of
      "[Remember 0 ''k '' ''a'' 5, Lookup 7 ''k'', Remember 8 '' k'' ''b'' 5, Lookup 9 ''x'']" 9 "''k''"]
    by (simp add: effective_ttl_def)
qed

subsection \<open>The lookup as it interleaves\<close>

text \<open>
  \<open>PreferredBackend\<close> takes the lock twice: it reads the entry under the read lock, decides with the
  clock, and deletes the key under the write lock.  The two critical sections, for an interleaving
  with other operations in between:
\<close>

definition MemoryStore_read :: "string \<Rightarrow> memory_store \<Rightarrow> memory_entry option" where
  "MemoryStore_read key s = s (TrimSpace key)"

definition MemoryStore_finish ::
  "int \<Rightarrow> string \<Rightarrow> memory_entry option \<Rightarrow> memory_store \<Rightarrow> (gerror + string \<times> bool) \<times> memory_store" where
  "MemoryStore_finish now key found s =
     (case found of
        None \<Rightarrow> (Inr ([], False), s)
      | Some entry \<Rightarrow>
          if entry_expiresAt entry < now then (Inr ([], False), s(TrimSpace key := None))
          else (Inr (entry_backend entry, True), s))"

lemma MemoryStore_PreferredBackend_steps:
  "TrimSpace key \<noteq> [] \<Longrightarrow>
    MemoryStore_PreferredBackend now key s = MemoryStore_finish now key (MemoryStore_read key s) s"
  by (simp add: MemoryStore_PreferredBackend_def MemoryStore_finish_def MemoryStore_read_def Let_def)

text \<open>
  C39:  The deletion does not look at the entry again.  If a lookup found an expired entry and another
  goroutine remembers the key before the deletion, the \<open>RememberBackend\<close> reports success and its
  entry is gone at once; had the lookup finished first, the entry would be found until its time to
  live is over.
\<close>

theorem memory_eviction_race:
  assumes "TrimSpace key \<noteq> []" and "TrimSpace b \<noteq> []"
    and "MemoryStore_read key s = Some e" and "entry_expiresAt e < now" and "t \<le> now' + effective_ttl ttl"
  shows "fst (MemoryStore_RememberBackend now' key b ttl s) = None \<and>
    memory_view (snd (MemoryStore_finish now key (MemoryStore_read key s)
                        (snd (MemoryStore_RememberBackend now' key b ttl s)))) t (TrimSpace key) = None \<and>
    memory_view (snd (MemoryStore_RememberBackend now' key b ttl
                        (snd (MemoryStore_finish now key (MemoryStore_read key s) s)))) t (TrimSpace key)
      = Some (TrimSpace b)"
  using assms
  by (simp add: memory_view_RememberBackend) (simp add: MemoryStore_finish_def MemoryStore_RememberBackend_eq memory_view_def)

theorem memory_eviction_race_witness:
  "memory_view (snd (MemoryStore_finish 10 ''k'' (Some \<lparr>entry_backend = ''a'', entry_expiresAt = 5\<rparr>)
      (snd (MemoryStore_RememberBackend 11 ''k'' ''b'' 600
              [''k'' \<mapsto> \<lparr>entry_backend = ''a'', entry_expiresAt = 5\<rparr>])))) 12 ''k'' = None"
proof -
  have "TrimSpace ''k'' = ''k''" "TrimSpace ''b'' = ''b''"
    by code_simp+
  then show ?thesis
    using memory_eviction_race [of "''k''" "''b''"
        "[''k'' \<mapsto> \<lparr>entry_backend = ''a'', entry_expiresAt = 5\<rparr>]"
        "\<lparr>entry_backend = ''a'', entry_expiresAt = 5\<rparr>" 10 12 11 600]
    by (simp add: MemoryStore_read_def effective_ttl_def)
qed

section \<open>The Redis store\<close>

text \<open>
  The client of \<open>github.com/redis/go-redis\<close> is third-party code: \<open>get\<close> is the outcome of
  \<open>client.Get(ctx, key).Result()\<close> on the server's state and \<open>set\<close> that of \<open>client.Set\<close>.
\<close>

datatype redis_reply = RedisNil | RedisErr gerror | RedisValue string

definition RedisStore_PreferredBackend ::
  "('r \<Rightarrow> int \<Rightarrow> string \<Rightarrow> redis_reply) \<Rightarrow> int \<Rightarrow> string \<Rightarrow> 'r \<Rightarrow> (gerror + string \<times> bool) \<times> 'r" where
  "RedisStore_PreferredBackend get now key r =
     (let key = TrimSpace key in
      if key = [] then (Inr ([], False), r)
      else
        (case get r now key of
           RedisNil \<Rightarrow> (Inr ([], False), r)
         | RedisErr e \<Rightarrow> (Inl e, r)
         | RedisValue value \<Rightarrow>
             if TrimSpace value = [] then (Inr ([], False), r) else (Inr (value, True), r)))"

definition RedisStore_RememberBackend ::
  "('r \<Rightarrow> int \<Rightarrow> string \<Rightarrow> string \<Rightarrow> int \<Rightarrow> gerror option \<times> 'r) \<Rightarrow>
   int \<Rightarrow> string \<Rightarrow> string \<Rightarrow> int \<Rightarrow> 'r \<Rightarrow> gerror option \<times> 'r" where
  "RedisStore_RememberBackend set_cmd now key backend ttl r =
     (let key = TrimSpace key; backend = TrimSpace backend in
      if key = [] \<or> backend = [] then (None, r)
      else
        let ttl = (if ttl \<le> 0 then 10 * 60 * 1000000000 else ttl)
        in set_cmd r now key backend ttl)"

text \<open>
  Redis as documented, over the value a key holds at a time: \<open>GET\<close> answers nil exactly for a key
  without a value and otherwise, if it does not fail, the value; a \<open>SET\<close> with an expiry that
  succeeds gives the key that value until it expires and touches no other key.  Expiries have a
  resolution of one millisecond: the client drops what is below it, but never goes below one.
\<close>

definition whole_ms :: "int \<Rightarrow> int" where
  "whole_ms d = max 1 (d div 1000000) * 1000000"

text \<open>For the durations the server is configured with, which are whole milliseconds, nothing is lost.\<close>

lemma whole_ms_exact: "0 < d \<Longrightarrow> 1000000 dvd d \<Longrightarrow> whole_ms d = d"
  by (auto simp: whole_ms_def elim!: dvdE)

definition redis_documented ::
  "('r \<Rightarrow> int \<Rightarrow> string \<Rightarrow> redis_reply) \<Rightarrow> ('r \<Rightarrow> int \<Rightarrow> string \<Rightarrow> string \<Rightarrow> int \<Rightarrow> gerror option \<times> 'r) \<Rightarrow>
   ('r \<Rightarrow> int \<Rightarrow> string \<Rightarrow> string option) \<Rightarrow> bool" where
  "redis_documented get set_cmd holds \<longleftrightarrow>
     (\<forall>r t k. get r t k = RedisNil \<longrightarrow> holds r t k = None) \<and>
     (\<forall>r t k v. get r t k = RedisValue v \<longrightarrow> holds r t k = Some v) \<and>
     (\<forall>r now k v ttl r' t. set_cmd r now k v ttl = (None, r') \<longrightarrow> 0 < ttl \<longrightarrow>
        now \<le> t \<longrightarrow> t < now + whole_ms ttl \<longrightarrow>
        holds r' t = (holds r t)(k \<mapsto> v))"

definition redis_view :: "('r \<Rightarrow> int \<Rightarrow> string \<Rightarrow> string option) \<Rightarrow> 'r \<Rightarrow> int \<Rightarrow> string \<Rightarrow> string option" where
  "redis_view holds r t k =
     (case holds r t k of None \<Rightarrow> None | Some v \<Rightarrow> if TrimSpace v = [] then None else Some v)"

text \<open>The Redis store keeps the contract of the interface on any server that behaves as documented.\<close>

lemma redis_cache_store:
  assumes "redis_documented get set_cmd holds"
  shows "cache_store (RedisStore_PreferredBackend get) (RedisStore_RememberBackend set_cmd) (redis_view holds) whole_ms"
proof unfold_locales
  fix now key b t s s' r
  show "RedisStore_PreferredBackend get now key s = (Inr (b, True), s') \<Longrightarrow>
      TrimSpace key \<noteq> [] \<and> redis_view holds s now (TrimSpace key) = Some b"
    and "RedisStore_PreferredBackend get now key s = (Inr (b, False), s') \<Longrightarrow>
      b = [] \<and> (TrimSpace key = [] \<or> redis_view holds s now (TrimSpace key) = None)"
    and "RedisStore_PreferredBackend get now key s = (r, s') \<Longrightarrow> now \<le> t \<Longrightarrow>
      redis_view holds s' t = redis_view holds s t"
    using assms
    by (auto simp: RedisStore_PreferredBackend_def redis_view_def redis_documented_def Let_def
        split: if_splits option.splits redis_reply.splits)
next
  fix now key b ttl t s s'
  assume "RedisStore_RememberBackend set_cmd now key b ttl s = (None, s')"
    and "TrimSpace key \<noteq> []" and "TrimSpace b \<noteq> []" and "now \<le> t" and "t < now + whole_ms (effective_ttl ttl)"
  then have "holds s' t = (holds s t)(TrimSpace key \<mapsto> TrimSpace b)"
    using assms effective_ttl_pos [of ttl]
    by (simp add: RedisStore_RememberBackend_def redis_documented_def effective_ttl_def default_ttl_def Let_def
        split: if_splits)
  then show "redis_view holds s' t = (redis_view holds s t)(TrimSpace key \<mapsto> TrimSpace b)"
    using \<open>TrimSpace b \<noteq> []\<close> by (auto simp: redis_view_def fun_eq_iff)
next
  fix now key b ttl s
  show "TrimSpace key = [] \<or> TrimSpace b = [] \<Longrightarrow>
      RedisStore_RememberBackend set_cmd now key b ttl s = (None, s)"
    by (auto simp: RedisStore_RememberBackend_def Let_def)
qed

text \<open>
  C37:  On a Redis server that behaves as documented, a backend that was remembered without an error
  is what every lookup of the key answers until the time to live, in whole milliseconds, is over,
  unless the lookup reports an error; the key and the backend are compared without surrounding white
  space.
\<close>

theorem redis_remember_then_preferred:
  assumes "redis_documented get set_cmd holds"
    and "RedisStore_RememberBackend set_cmd now key b ttl r = (None, r')"
    and "TrimSpace key \<noteq> []" and "TrimSpace b \<noteq> []" and "TrimSpace key' = TrimSpace key"
    and "now \<le> t" and "t < now + whole_ms (effective_ttl ttl)"
  shows "(\<exists>e. fst (RedisStore_PreferredBackend get t key' r') = Inl e) \<or>
    fst (RedisStore_PreferredBackend get t key' r') = Inr (TrimSpace b, True)"
proof (cases "fst (RedisStore_PreferredBackend get t key' r')")
  case (Inr res)
  then have "RedisStore_PreferredBackend get t key' r' = (Inr res, snd (RedisStore_PreferredBackend get t key' r'))"
    by (simp add: prod_eq_iff)
  from cache_store.remember_then_preferred [OF redis_cache_store [OF assms(1)] assms(2,3,4,6,7) this assms(5)]
  show ?thesis using Inr by simp
qed simp

text \<open>A server that never fails, as a map from keys to values with their expiry.\<close>

definition redis_map_get :: "(string \<rightharpoonup> string \<times> int) \<Rightarrow> int \<Rightarrow> string \<Rightarrow> redis_reply" where
  "redis_map_get r t k =
     (case r k of None \<Rightarrow> RedisNil | Some (v, e) \<Rightarrow> if t < e then RedisValue v else RedisNil)"

definition redis_map_set ::
  "(string \<rightharpoonup> string \<times> int) \<Rightarrow> int \<Rightarrow> string \<Rightarrow> string \<Rightarrow> int \<Rightarrow> gerror option \<times> (string \<rightharpoonup> string \<times> int)" where
  "redis_map_set r now k v ttl = (None, r(k \<mapsto> (v, now + whole_ms ttl)))"

definition redis_map_holds :: "(string \<rightharpoonup> string \<times> int) \<Rightarrow> int \<Rightarrow> string \<Rightarrow> string option" where
  "redis_map_holds r t k =
     (case r k of None \<Rightarrow> None | Some (v, e) \<Rightarrow> if t < e then Some v else None)"

lemma redis_map_documented: "redis_documented redis_map_get redis_map_set redis_map_holds"
  by (auto simp: redis_documented_def redis_map_get_def redis_map_set_def redis_map_holds_def
      split: option.splits if_splits)

theorem redis_remember_then_preferred_witness:
  "let r = snd (RedisStore_RememberBackend redis_map_set 0 '' k'' ''a'' 0 Map.empty) in
   fst (RedisStore_PreferredBackend redis_map_get 599999999999 ''k'' r) = Inr (''a'', True)"
proof -
  have trims: "TrimSpace '' k'' = ''k''" "TrimSpace ''k'' = ''k''" "TrimSpace ''a'' = ''a''"
    by code_simp+
  let ?r = "snd (RedisStore_RememberBackend redis_map_set 0 '' k'' ''a'' 0 Map.empty)"
  have "RedisStore_RememberBackend redis_map_set 0 '' k'' ''a'' 0 Map.empty = (None, ?r)"
    by (simp add: RedisStore_RememberBackend_def redis_map_set_def Let_def)
  from redis_remember_then_preferred [OF redis_map_documented this, of "''k''" 599999999999]
  show ?thesis
    by (auto simp: trims effective_ttl_def default_ttl_def whole_ms_def RedisStore_PreferredBackend_def redis_map_get_def
        Let_def split: option.splits if_splits)
qed

end
