(* ===== verification/KVAware.thy ===== *)
theory KVAware
  imports LeastPending CacheStore
begin

text \<open>
  \<open>internal/router/kvaware.go\<close>: the strategy that prefers the backend remembered for the request's
  cache key and otherwise behaves like \<open>least_pending\<close>.  The store is shared with the server, so
  its state is threaded next to the strategy's; \<open>pref\<close> is \<open>store.PreferredBackend\<close> at the time of
  the call, any function at all: the lemmas do not assume that the store works.
\<close>

section \<open>The code\<close>

record kv_aware = load_table +
  kv_has_store :: bool

definition KVAware_SetBackends :: "baddr list \<Rightarrow> kv_aware \<Rightarrow> mem \<Rightarrow> kv_aware \<times> mem" where
  "KVAware_SetBackends backends s m =
     (let (updated, m') = update_loads (lt_loads s) backends Map.empty m
      in (s\<lparr>lt_backends := backends, lt_loads := updated\<rparr>, m'))"

definition NewKVAware :: "baddr list \<Rightarrow> bool \<Rightarrow> mem \<Rightarrow> kv_aware \<times> mem" where
  "NewKVAware backends has_store m =
     KVAware_SetBackends backends
       \<lparr>lt_backends = [], lt_next = 0, lt_loads = Map.empty, kv_has_store = has_store\<rparr> m"

definition KVAware_Name :: string where
  "KVAware_Name = StrategyKVAware"

text \<open>
  The loop over the backends for the remembered name: the first healthy backend of that name, and
  nothing when that backend has no counter (the loop breaks there).
\<close>

fun kv_find ::
  "mem \<Rightarrow> (baddr \<rightharpoonup> cref) \<Rightarrow> string \<Rightarrow> baddr list \<Rightarrow> (baddr \<times> cref) option" where
  "kv_find m loads backendName [] = None"
| "kv_find m loads backendName (backend # bs) =
     (if Name m backend \<noteq> backendName \<or> \<not> Healthy m backend then kv_find m loads backendName bs
      else
        (case loads backend of
           None \<Rightarrow> None
         | Some load \<Rightarrow> Some (backend, load)))"

definition KVAware_selectLeastPending ::
  "baddr list \<Rightarrow> (baddr \<rightharpoonup> cref) \<Rightarrow> mem \<Rightarrow> kv_aware \<Rightarrow> decision outcome \<times> mem \<times> kv_aware" where
  "KVAware_selectLeastPending backends loads m s =
     (if length backends = 0 then (Panic, m, s\<lparr>lt_next := lt_next s + 1\<rparr>)
      else
        let start = start_index (lt_next s) (length backends);
            s' = s\<lparr>lt_next := lt_next s + 1\<rparr>
        in case scan_loop m backends loads start [0..<length backends] None of
             Ok None \<Rightarrow> (Err ErrNoHealthyBackend, m, s')
           | Ok (Some (chosen, chosenLoad, _)) \<Rightarrow>
               let (pendingAfter, m') = cell_Add chosenLoad 1 m
               in (Ok \<lparr>decision_Backend = chosen, decision_PendingRequests = pendingAfter,
                       decision_PendingCost = 0, decision_CacheHit = False,
                       decision_release = SubtractFrom chosenLoad 1, decision_once = False\<rparr>,
                   m', s')
           | Err e \<Rightarrow> (Err e, m, s')
           | Panic \<Rightarrow> (Panic, m, s'))"

definition KVAware_Select ::
  "(string \<Rightarrow> 'st \<Rightarrow> (gerror + string \<times> bool) \<times> 'st) \<Rightarrow> selection_input \<Rightarrow> mem \<Rightarrow> kv_aware \<times> 'st \<Rightarrow>
   decision outcome \<times> mem \<times> kv_aware \<times> 'st" where
  "KVAware_Select pref inp m = (\<lambda>(s, st).
     let backends = lt_backends s; loads = lt_loads s in
     if length backends = 0 then (Err ErrNoHealthyBackend, m, s, st)
     else
       let (found, st') =
         (if kv_has_store s \<and> input_CacheKey inp \<noteq> []
          then (case pref (input_CacheKey inp) st of
                  (Inr (backendName, True), st') \<Rightarrow> (kv_find m loads backendName backends, st')
                | (_, st') \<Rightarrow> (None, st'))
          else (None, st))
       in case found of
            Some (backend, load) \<Rightarrow>
              let (pendingAfter, m') = cell_Add load 1 m
              in (Ok \<lparr>decision_Backend = backend, decision_PendingRequests = pendingAfter,
                      decision_PendingCost = 0, decision_CacheHit = True,
                      decision_release = SubtractFrom load 1, decision_once = False\<rparr>,
                  m', s, st')
          | None \<Rightarrow>
              let (r, m', s') = KVAware_selectLeastPending backends loads m s
              in (r, m', s', st'))"

definition KVAware_HasHealthyBackend :: "mem \<Rightarrow> kv_aware \<Rightarrow> bool" where
  "KVAware_HasHealthyBackend m s = list_ex (Healthy m) (lt_backends s)"

section \<open>The two paths of a selection\<close>

text \<open>What the affinity lookup of a selection finds, and the store afterwards.\<close>

definition kv_lookup ::
  "(string \<Rightarrow> 'st \<Rightarrow> (gerror + string \<times> bool) \<times> 'st) \<Rightarrow> selection_input \<Rightarrow> mem \<Rightarrow> kv_aware \<Rightarrow> 'st \<Rightarrow>
   (baddr \<times> cref) option \<times> 'st" where
  "kv_lookup pref inp m s st =
     (if kv_has_store s \<and> input_CacheKey inp \<noteq> []
      then (case pref (input_CacheKey inp) st of
              (Inr (backendName, True), st') \<Rightarrow> (kv_find m (lt_loads s) backendName (lt_backends s), st')
            | (_, st') \<Rightarrow> (None, st'))
      else (None, st))"

definition kv_decision :: "baddr \<Rightarrow> cref \<Rightarrow> int64 \<Rightarrow> decision" where
  "kv_decision b c pendingAfter = (lp_decision b c pendingAfter)\<lparr>decision_CacheHit := True\<rparr>"

lemma KVAware_selectLeastPending_table:
  "lt_backends s \<noteq> [] \<Longrightarrow>
    KVAware_selectLeastPending (lt_backends s) (lt_loads s) m s = lt_select 1 lp_decision m s"
  unfolding KVAware_selectLeastPending_def lt_select_def lp_decision_def Let_def by simp

lemma KVAware_Select_eq:
  "KVAware_Select pref inp m (s, st) =
    (if lt_backends s = [] then (Err ErrNoHealthyBackend, m, s, st)
     else case kv_lookup pref inp m s st of
       (Some (b, c), st') \<Rightarrow> (Ok (kv_decision b c (cell_Load m c + 1)), snd (cell_Add c 1 m), s, st')
     | (None, st') \<Rightarrow> (case lt_select 1 lp_decision m s of (r, m', s') \<Rightarrow> (r, m', s', st')))"
proof (cases "lt_backends s = []")
  case False
  obtain found st' where lookup: "kv_lookup pref inp m s st = (found, st')" by fastforce
  show ?thesis
  proof (cases found)
    case None
    with lookup False show ?thesis
      by (simp add: KVAware_Select_def kv_lookup_def [symmetric] KVAware_selectLeastPending_table)
  next
    case (Some bc)
    with lookup False show ?thesis
      by (cases bc) (simp add: KVAware_Select_def kv_lookup_def [symmetric] kv_decision_def lp_decision_def
          cell_Add_def cell_Load_def)
  qed
qed (simp add: KVAware_Select_def)

lemma kv_find_Some:
  "kv_find m loads n bs = Some (b, c) \<Longrightarrow>
    b \<in> set bs \<and> Name m b = n \<and> Healthy m b \<and> loads b = Some c"
  by (induction bs) (auto split: if_splits option.splits)

lemma kv_find_eq:
  "set bs \<subseteq> dom loads \<Longrightarrow>
    kv_find m loads n bs =
      (case find (\<lambda>b. Name m b = n \<and> Healthy m b) bs of
         None \<Rightarrow> None | Some b \<Rightarrow> Some (b, the (loads b)))"
  by (induction bs) (auto split: option.splits)

lemma kv_lookup_Some:
  "kv_lookup pref inp m s st = (Some (b, c), st') \<Longrightarrow>
    b \<in> set (lt_backends s) \<and> Healthy m b \<and> lt_loads s b = Some c"
  by (auto simp: kv_lookup_def dest: kv_find_Some split: if_splits prod.splits sum.splits bool.splits)

lemma KVAware_Select_cases:
  assumes "KVAware_Select pref inp m (s, st) = (r, m', t)"
  obtains (empty) "lt_backends s = []" and "r = Err ErrNoHealthyBackend" and "m' = m" and "t = (s, st)"
  | (hit) b c st' where "lt_backends s \<noteq> []" and "kv_lookup pref inp m s st = (Some (b, c), st')"
      and "r = Ok (kv_decision b c (cell_Load m c + 1))" and "m' = snd (cell_Add c 1 m)" and "t = (s, st')"
  | (miss) s' st' where "lt_backends s \<noteq> []" and "kv_lookup pref inp m s st = (None, st')"
      and "lt_select 1 lp_decision m s = (r, m', s')" and "t = (s', st')"
  using assms by (auto simp: KVAware_Select_eq split: if_splits prod.splits option.splits)

section \<open>The contract\<close>

lemma lt_invar_Suc: "lt_invar (Suc k) s \<Longrightarrow> lt_invar k s"
  by (simp add: lt_invar_def)

lemma KVAware_Select_frame:
  assumes "KVAware_Select pref inp m (s, st) = (r, m', s', st')"
  shows "lt_backends s' = lt_backends s" and "lt_loads s' = lt_loads s"
    and "kv_has_store s' = kv_has_store s" and "mem_backend m' = mem_backend m"
    and "mem_next_cell m' = mem_next_cell m"
proof -
  have "lt_backends s' = lt_backends s \<and> lt_loads s' = lt_loads s \<and> kv_has_store s' = kv_has_store s \<and>
      mem_backend m' = mem_backend m \<and> mem_next_cell m' = mem_next_cell m"
    using assms
  proof (cases rule: KVAware_Select_cases)
    case (miss s' st')
    from lt_select_frame [OF miss(3)] miss(4) show ?thesis by (cases s, cases s') simp
  qed simp_all
  then show "lt_backends s' = lt_backends s" and "lt_loads s' = lt_loads s"
    and "kv_has_store s' = kv_has_store s" and "mem_backend m' = mem_backend m"
    and "mem_next_cell m' = mem_next_cell m" by simp_all
qed

lemma KVAware_Select_Ok:
  assumes "KVAware_Select pref inp m (s, st) = (Ok d, m', s', st')"
  shows "\<exists>b c. lt_loads s b = Some c \<and> m' = snd (cell_Add c 1 m) \<and>
    (d = kv_decision b c (cell_Load m c + 1) \<or> d = lp_decision b c (cell_Load m c + 1))"
  using assms by (cases rule: KVAware_Select_cases) (auto dest!: kv_lookup_Some lt_select_Ok)

lemma KVAware_Select_member:
  assumes "lt_invar (Suc k) s" and "KVAware_Select pref inp m (s, st) = (Ok d, m', s', st')"
  shows "decision_Backend d \<in> set (lt_backends s) \<and> Healthy m (decision_Backend d)"
  using assms(2)
proof (cases rule: KVAware_Select_cases)
  case (hit b c st')
  then show ?thesis using kv_lookup_Some [OF hit(2)] by (simp add: kv_decision_def lp_decision_def)
next
  case (miss s' st')
  show ?thesis by (rule lt_select_least [OF assms(1) miss(3)]) (simp add: lp_decision_def)
qed simp

lemma KVAware_Select_other:
  assumes "KVAware_Select pref inp m (s, st) = (r, m', s', st')" and "lt_invar (Suc k) s"
  shows "lt_invar k s'" and "r \<noteq> Panic"
    and "r = Err e \<Longrightarrow> e = ErrNoHealthyBackend \<and> \<not> KVAware_HasHealthyBackend m s \<and> m' = m"
proof -
  have "lt_invar k s' \<and> r \<noteq> Panic \<and>
      (r = Err e \<longrightarrow> e = ErrNoHealthyBackend \<and> \<not> KVAware_HasHealthyBackend m s \<and> m' = m)"
    using assms(1)
  proof (cases rule: KVAware_Select_cases)
    case empty
    with assms(2) show ?thesis by (simp add: KVAware_HasHealthyBackend_def lt_invar_Suc)
  next
    case (hit b c st')
    with assms(2) show ?thesis by (simp add: lt_invar_Suc)
  next
    case (miss s'' st')
    then show ?thesis
      using lt_select_invar [OF assms(2) miss(3)] lt_select_not_Panic [OF assms(2)]
        lt_select_Err [OF assms(2), of 1 lp_decision m e m' s'']
      by (auto simp: KVAware_HasHealthyBackend_def)
  qed
  then show "lt_invar k s'" and "r \<noteq> Panic"
    and "r = Err e \<Longrightarrow> e = ErrNoHealthyBackend \<and> \<not> KVAware_HasHealthyBackend m s \<and> m' = m"
    by simp_all
qed

lemma KVAware_Select_invar:
  "lt_invar (Suc k) s \<Longrightarrow> KVAware_Select pref inp m (s, st) = (r, m', s', st') \<Longrightarrow> lt_invar k s'"
  by (rule KVAware_Select_other(1))

lemma KVAware_Select_not_Panic:
  "lt_invar (Suc k) s \<Longrightarrow> KVAware_Select pref inp m (s, st) \<noteq> (Panic, m', s', st')"
  by (rule notI, drule (1) KVAware_Select_other(2)) simp

lemma KVAware_Select_Err:
  "lt_invar (Suc k) s \<Longrightarrow> KVAware_Select pref inp m (s, st) = (Err e, m', s', st') \<Longrightarrow>
    e = ErrNoHealthyBackend \<and> \<not> KVAware_HasHealthyBackend m s \<and> m' = m"
  by (rule KVAware_Select_other(3) [OF _ _ refl])

interpretation kv: load_counting
  "KVAware_Select pref" "\<lambda>(s, st). lt_backends s" "\<lambda>m (s, st). KVAware_HasHealthyBackend m s"
  "\<lambda>k (s, st). lt_invar k s" "\<lambda>(s, st). lt_loads s" "\<lambda>_. 1"
  for pref :: "string \<Rightarrow> 'st \<Rightarrow> (gerror + string \<times> bool) \<times> 'st"
proof (unfold_locales, unfold split_paired_all prod.case)
  fix m s
  show "KVAware_HasHealthyBackend m s \<longleftrightarrow> (\<exists>b\<in>set (lt_backends s). Healthy m b)"
    by (simp add: KVAware_HasHealthyBackend_def list_ex_iff)
next
  fix inp m s m' s' d and st st' :: 'st
  assume sel: "KVAware_Select pref inp m (s, st) = (Ok d, m', s', st')"
  show "\<not> decision_once d \<and> snd (Release d m') = m"
    and "\<exists>c. lt_loads s (decision_Backend d) = Some c \<and> decision_release d = SubtractFrom c 1"
    using KVAware_Select_Ok [OF sel]
    by (auto simp: kv_decision_def lp_decision_def Release_def cell_Add_cancel)
qed (fact KVAware_Select_frame KVAware_Select_invar KVAware_Select_not_Panic KVAware_Select_Err
  KVAware_Select_member)+

section \<open>Fresh strategies\<close>

lemma NewKVAware_simps:
  assumes "NewKVAware backends has_store m = (s, m')"
  shows "lt_backends s = backends" and "kv_has_store s = has_store" and "lt_next s = 0"
    and "dom (lt_loads s) = set backends" and "loads_ok m' (lt_loads s)" and "mem_backend m' = mem_backend m"
    and "lt_loads s b = Some c \<Longrightarrow> cell_Load m' c = 0" and "k \<le> 2 ^ 63 \<Longrightarrow> lt_invar k s"
proof -
  obtain updated where upd: "update_loads Map.empty backends Map.empty m = (updated, m')"
    and s: "s = \<lparr>lt_backends = backends, lt_next = 0, lt_loads = updated, kv_has_store = has_store\<rparr>"
    using assms by (auto simp: NewKVAware_def KVAware_SetBackends_def split: prod.splits)
  note table = update_loads_table [OF upd loads_ok_empty]
  show "lt_backends s = backends" and "kv_has_store s = has_store" and "lt_next s = 0"
    and "dom (lt_loads s) = set backends" and "loads_ok m' (lt_loads s)" and "mem_backend m' = mem_backend m"
    and "lt_loads s b = Some c \<Longrightarrow> cell_Load m' c = 0" and "k \<le> 2 ^ 63 \<Longrightarrow> lt_invar k s"
    using table by (simp_all add: s lt_invar_def)
qed

text \<open>A selection that follows an affinity, in one equation.\<close>

lemma KVAware_Select_hit:
  assumes "lt_invar k s" and "kv_has_store s" and "input_CacheKey inp \<noteq> []"
    and "pref (input_CacheKey inp) st = (Inr (n, True), st')"
    and "find (\<lambda>b. Name m b = n \<and> Healthy m b) (lt_backends s) = Some b"
  shows "\<exists>c. lt_loads s b = Some c \<and> KVAware_Select pref inp m (s, st) =
      (Ok (kv_decision b c (cell_Load m c + 1)), snd (cell_Add c 1 m), s, st')"
proof -
  have b: "b \<in> set (lt_backends s)" using find_SomeD [OF assms(5)] by simp
  with assms(1) obtain c where c: "lt_loads s b = Some c" by (auto simp: lt_invar_def)
  have "kv_lookup pref inp m s st = (Some (b, c), st')"
    using assms c by (simp add: kv_lookup_def kv_find_eq lt_invar_def)
  moreover have "lt_backends s \<noteq> []" using b by auto
  ultimately show ?thesis using c by (simp add: KVAware_Select_eq)
qed

section \<open>Properties\<close>

text \<open>
  C14: Affinity.  If the store answers the request's cache key with a name and some backend of that
  name is healthy, \<open>kv_aware\<close> takes the first such backend whatever its load, marks the decision as
  a cache hit, counts the request on that backend only, and leaves the rotation counter alone.
\<close>

theorem kv_affinity:
  assumes "lt_invar k s" and "kv_has_store s" and "input_CacheKey inp \<noteq> []"
    and "pref (input_CacheKey inp) st = (Inr (n, True), st')"
    and "find (\<lambda>b. Name m b = n \<and> Healthy m b) (lt_backends s) = Some b"
  shows "\<exists>d c m'. KVAware_Select pref inp m (s, st) = (Ok d, m', s, st') \<and>
    decision_Backend d = b \<and> decision_CacheHit d \<and> lt_loads s b = Some c \<and>
    decision_PendingRequests d = cell_Load m c + 1 \<and> cell_Load m' c = cell_Load m c + 1 \<and>
    (\<forall>c'. c' \<noteq> c \<longrightarrow> cell_Load m' c' = cell_Load m c')"
proof -
  from KVAware_Select_hit [of k s inp pref st n st' m b, OF assms] obtain c where "lt_loads s b = Some c"
    and "KVAware_Select pref inp m (s, st) =
      (Ok (kv_decision b c (cell_Load m c + 1)), snd (cell_Add c 1 m), s, st')" by blast
  then show ?thesis by (simp add: kv_decision_def lp_decision_def)
qed

text \<open>
  C15: Fallback.  If the store is missing, fails, misses, or names no healthy backend, or the request
  has no cache key, \<open>kv_aware\<close> makes exactly the selection \<open>least_pending\<close> makes on the same table.
\<close>

theorem kv_fallback:
  assumes "lt_invar k s"
    and "\<not> kv_has_store s \<or> input_CacheKey inp = [] \<or>
      (\<forall>n. fst (pref (input_CacheKey inp) st) = Inr (n, True) \<longrightarrow>
        (\<forall>b\<in>set (lt_backends s). Name m b = n \<longrightarrow> \<not> Healthy m b))"
  shows "\<exists>st'. KVAware_Select pref inp m (s, st) =
    (case LeastPending_Select inp m (load_table.truncate s) of
       (r, m', t) \<Rightarrow> (r, m', s\<lparr>lt_next := lt_next t\<rparr>, st'))"
proof -
  have "fst (kv_lookup pref inp m s st) = None"
  proof (rule ccontr)
    assume "fst (kv_lookup pref inp m s st) \<noteq> None"
    then obtain n b c where "kv_has_store s" "input_CacheKey inp \<noteq> []"
      and "fst (pref (input_CacheKey inp) st) = Inr (n, True)"
      and "kv_find m (lt_loads s) n (lt_backends s) = Some (b, c)"
      by (auto simp: kv_lookup_def split: if_splits prod.splits sum.splits bool.splits)
    with assms(2) kv_find_Some show False by metis
  qed
  then obtain st' where lookup: "kv_lookup pref inp m s st = (None, st')"
    by (metis prod.collapse)
  have "(case lt_select 1 lp_decision m s of (r, m', s') \<Rightarrow> (r, m', s', st')) =
      (case lt_select 1 lp_decision m (load_table.truncate s) of
        (r, m', t) \<Rightarrow> (r, m', s\<lparr>lt_next := lt_next t\<rparr>, st'))"
    by (simp add: lt_select_def load_table.defs Let_def case_prod_beta split: outcome.splits option.splits)
  moreover have "lt_backends s = [] \<Longrightarrow>
      lt_select 1 lp_decision m (load_table.truncate s) = (Err ErrNoHealthyBackend, m, load_table.truncate s)"
    by (simp add: lt_select_def load_table.defs)
  ultimately show ?thesis
    unfolding KVAware_Select_eq LeastPending_Select_table
    using lookup by (cases "lt_backends s = []") (auto simp: load_table.defs)
qed

text \<open>
  C34: The store cannot make a selection fail.  Whatever it answers (errors, unknown names, names of
  unhealthy backends), \<open>kv_aware\<close> selects a healthy backend if there is one and reports
  \<open>ErrNoHealthyBackend\<close> if there is none; it never panics.
\<close>

theorem kv_store_harmless:
  assumes "lt_invar (Suc k) s"
  shows "(\<exists>d. fst (KVAware_Select pref inp m (s, st)) = Ok d \<and> Healthy m (decision_Backend d) \<and>
            decision_Backend d \<in> set (lt_backends s) \<and> KVAware_HasHealthyBackend m s) \<or>
    fst (KVAware_Select pref inp m (s, st)) = Err ErrNoHealthyBackend \<and> \<not> KVAware_HasHealthyBackend m s"
  using kv.select_cases [of k "(s, st)" pref inp m] assms
  by (metis (no_types, lifting) case_prod_conv fst_conv)

section \<open>Instances\<close>

text \<open>A strategy over the two backends \<open>a\<close> and \<open>b\<close> and stores that always answer the same.\<close>

definition kv_backends :: mem where
  "kv_backends = two_backends\<lparr>mem_backend := (\<lambda>b. (mem_backend two_backends b)
     \<lparr>backend_Name := if b = 0 then ''a'' else ''b''\<rparr>)\<rparr>"

definition kv_example :: "kv_aware \<times> mem" where
  "kv_example = NewKVAware [0, 1] True kv_backends"

lemma kv_example_ok: "NewKVAware [0, 1] True kv_backends = (fst kv_example, snd kv_example)"
  by (simp add: kv_example_def)

lemmas kv_example_simps = NewKVAware_simps [OF kv_example_ok]

lemma kv_example_backends [simp]:
  "Healthy (snd kv_example) 0" "Healthy (snd kv_example) (Suc 0)"
  "Name (snd kv_example) 0 = ''a''" "Name (snd kv_example) (Suc 0) = ''b''"
  by (simp_all add: Healthy_def Name_def kv_example_simps(6))
    (simp_all add: kv_backends_def two_backends_simps [unfolded Healthy_def])

definition kv_request :: selection_input where
  "kv_request = \<lparr>input_EstimatedCost = 0, input_CacheKey = ''k''\<rparr>"

theorem kv_affinity_witness:
  "\<exists>d m'. KVAware_Select (\<lambda>k st. (Inr (''b'', True), st)) kv_request (snd kv_example) (fst kv_example, ())
      = (Ok d, m', fst kv_example, ()) \<and> decision_Backend d = 1 \<and> decision_CacheHit d"
proof -
  have "lt_invar 1 (fst kv_example)" by (rule kv_example_simps(8)) simp
  from kv_affinity [OF this, of kv_request "\<lambda>k st. (Inr (''b'', True), st)" "()" "''b''" "()" "snd kv_example" 1]
  show ?thesis by (auto simp: kv_example_simps(1,2) kv_request_def)
qed

theorem kv_fallback_witness:
  "\<exists>st'. KVAware_Select (\<lambda>k st. (Inr (''gone'', True), st)) kv_request (snd kv_example) (fst kv_example, ())
      = (case LeastPending_Select kv_request (snd kv_example) (load_table.truncate (fst kv_example)) of
           (r, m', t) \<Rightarrow> (r, m', fst kv_example\<lparr>lt_next := lt_next t\<rparr>, st'))"
proof -
  have "lt_invar 1 (fst kv_example)" by (rule kv_example_simps(8)) simp
  then show ?thesis
    by (rule kv_fallback) (simp add: kv_example_simps(1))
qed

theorem kv_store_harmless_witness:
  "\<exists>d. fst (KVAware_Select (\<lambda>k st. (Inl (ErrMsg ''redis: connection refused''), st)) kv_request
      (snd kv_example) (fst kv_example, ())) = Ok d \<and> Healthy (snd kv_example) (decision_Backend d)"
proof -
  have "lt_invar (Suc 0) (fst kv_example)" by (rule kv_example_simps(8)) simp
  moreover have "KVAware_HasHealthyBackend (snd kv_example) (fst kv_example)"
    by (simp add: KVAware_HasHealthyBackend_def kv_example_simps(1))
  ultimately show ?thesis
    using kv_store_harmless [of 0 "fst kv_example" "\<lambda>k st. (Inl (ErrMsg ''redis: connection refused''), st)"
        kv_request "snd kv_example" "()"] by blast
qed

end
