(* ===== verification/Dispatch.thy ===== *)
theory Dispatch
  imports RoundRobin RandomStrategy KVAware
begin

text \<open>
  A value of the interface type \<open>router.Strategy\<close>, as the server holds it: one of the four strategies
  \<open>setStrategy\<close> constructs, with dynamic dispatch of the interface's methods.  The store's state is
  threaded through a selection, since \<open>kv_aware\<close> consults the server's store.
\<close>

section \<open>Dynamic dispatch\<close>

datatype strategy_obj =
    SRoundRobin round_robin
  | SLeastPending least_pending
  | SRandom random_strategy
  | SKVAware kv_aware

definition strat_Name :: "strategy_obj \<Rightarrow> string" where
  "strat_Name so =
     (case so of
        SRoundRobin r \<Rightarrow> RoundRobin_Name
      | SLeastPending s \<Rightarrow> LeastPending_Name
      | SRandom r \<Rightarrow> Random_Name
      | SKVAware s \<Rightarrow> KVAware_Name)"

definition strat_Select ::
  "(nat list \<Rightarrow> nat \<Rightarrow> nat) \<Rightarrow> (string \<Rightarrow> 'st \<Rightarrow> (gerror + string \<times> bool) \<times> 'st) \<Rightarrow>
   selection_input \<Rightarrow> mem \<Rightarrow> strategy_obj \<times> 'st \<Rightarrow> decision outcome \<times> mem \<times> strategy_obj \<times> 'st" where
  "strat_Select intn pref inp m = (\<lambda>(so, st).
     case so of
       SRoundRobin r \<Rightarrow> (case RoundRobin_Select inp m r of (d, m', r') \<Rightarrow> (d, m', SRoundRobin r', st))
     | SLeastPending s \<Rightarrow> (case LeastPending_Select inp m s of (d, m', s') \<Rightarrow> (d, m', SLeastPending s', st))
     | SRandom r \<Rightarrow> (case Random_Select intn inp m r of (d, m', r') \<Rightarrow> (d, m', SRandom r', st))
     | SKVAware s \<Rightarrow>
         (case KVAware_Select pref inp m (s, st) of (d, m', s', st') \<Rightarrow> (d, m', SKVAware s', st')))"

definition strat_HasHealthyBackend :: "mem \<Rightarrow> strategy_obj \<Rightarrow> bool" where
  "strat_HasHealthyBackend m so =
     (case so of
        SRoundRobin r \<Rightarrow> RoundRobin_HasHealthyBackend m r
      | SLeastPending s \<Rightarrow> LeastPending_HasHealthyBackend m s
      | SRandom r \<Rightarrow> Random_HasHealthyBackend m r
      | SKVAware s \<Rightarrow> KVAware_HasHealthyBackend m s)"

section \<open>The contract\<close>

definition strat_members :: "strategy_obj \<Rightarrow> baddr list" where
  "strat_members so =
     (case so of
        SRoundRobin r \<Rightarrow> rr_backends r
      | SLeastPending s \<Rightarrow> lt_backends s
      | SRandom r \<Rightarrow> rnd_backends r
      | SKVAware s \<Rightarrow> lt_backends s)"

definition strat_invar :: "(nat list \<Rightarrow> nat \<Rightarrow> nat) \<Rightarrow> nat \<Rightarrow> strategy_obj \<Rightarrow> bool" where
  "strat_invar intn k so =
     (case so of
        SRoundRobin r \<Rightarrow> rr_invar k r
      | SLeastPending s \<Rightarrow> lt_invar k s
      | SRandom r \<Rightarrow> intn_range intn
      | SKVAware s \<Rightarrow> lt_invar k s)"

text \<open>A selection goes to the strategy behind the interface value, which keeps its type.\<close>

lemma strat_Select_cases:
  assumes "strat_Select intn pref inp m (so, st) = (r, m', so', st')"
  obtains (round_robin) s s' where "so = SRoundRobin s" and "so' = SRoundRobin s'" and "st' = st"
      and "RoundRobin_Select inp m s = (r, m', s')"
  | (least_pending) s s' where "so = SLeastPending s" and "so' = SLeastPending s'" and "st' = st"
      and "LeastPending_Select inp m s = (r, m', s')"
  | (random) s s' where "so = SRandom s" and "so' = SRandom s'" and "st' = st"
      and "Random_Select intn inp m s = (r, m', s')"
  | (kv_aware) s s' where "so = SKVAware s" and "so' = SKVAware s'"
      and "KVAware_Select pref inp m (s, st) = (r, m', s', st')"
  using assms by (cases so) (auto simp: strat_Select_def split: prod.splits)

lemmas strat_defs = strat_HasHealthyBackend_def strat_members_def strat_invar_def

lemma strat_Select_kind:
  assumes "strat_Select intn pref inp m (so, st) = (r, m', so', st')"
  shows "strat_Name so' = strat_Name so" and "strat_members so' = strat_members so"
    and "mem_backend m' = mem_backend m"
  using assms
  by (cases rule: strat_Select_cases;
      simp add: strat_Name_def strat_members_def rr.select_members rr.select_backends lp.select_members
        lp.select_backends random.select_members random.select_backends KVAware_Select_frame)+

lemma strat_Select_Ok:
  assumes "strat_invar intn (Suc k) so" and "strat_Select intn pref inp m (so, st) = (Ok d, m', so', st')"
  shows "decision_Backend d \<in> set (strat_members so) \<and> Healthy m (decision_Backend d)"
  using assms(2)
proof (cases rule: strat_Select_cases)
  case (round_robin s s')
  then show ?thesis using assms(1) rr.select_Ok by (simp add: strat_defs)
next
  case (least_pending s s')
  then show ?thesis using assms(1) lp.select_Ok by (simp add: strat_defs)
next
  case (random s s')
  then show ?thesis using assms(1) by (simp add: strat_defs random.select_Ok)
next
  case (kv_aware s s')
  then show ?thesis using assms(1) KVAware_Select_member [OF _ kv_aware(3)] by (simp add: strat_defs)
qed

lemma strat_Select_Err:
  assumes "strat_invar intn (Suc k) so" and "strat_Select intn pref inp m (so, st) = (Err e, m', so', st')"
  shows "e = ErrNoHealthyBackend \<and> \<not> strat_HasHealthyBackend m so \<and> m' = m"
  using assms(2)
proof (cases rule: strat_Select_cases)
  case (round_robin s s')
  then show ?thesis using assms(1) rr.select_Err by (simp add: strat_defs)
next
  case (least_pending s s')
  then show ?thesis using assms(1) lp.select_Err by (simp add: strat_defs)
next
  case (random s s')
  then show ?thesis using assms(1) by (simp add: strat_defs random.select_Err)
next
  case (kv_aware s s')
  then show ?thesis using assms(1) KVAware_Select_Err [OF _ kv_aware(3)] by (simp add: strat_defs)
qed

lemma strat_Select_invar:
  assumes "strat_invar intn (Suc k) so" and "strat_Select intn pref inp m (so, st) = (r, m', so', st')"
  shows "strat_invar intn k so' \<and> r \<noteq> Panic"
  using assms(2)
proof (cases rule: strat_Select_cases)
  case (round_robin s s')
  then show ?thesis using assms(1) rr.select_invar rr.select_no_Panic by (simp add: strat_defs) blast
next
  case (least_pending s s')
  then show ?thesis using assms(1) lp.select_invar lp.select_no_Panic by (simp add: strat_defs) blast
next
  case (random s s')
  then show ?thesis using assms(1) random.select_no_Panic by (auto simp: strat_defs)
next
  case (kv_aware s s')
  then show ?thesis using assms(1) KVAware_Select_other(1,2) [OF kv_aware(3)] by (auto simp: strat_defs)
qed

lemma strat_Select_release:
  assumes "strat_Select intn pref inp m (so, st) = (Ok d, m', so', st')"
  shows "\<not> decision_once d \<and> snd (Release d m') = m"
  using assms
proof (cases rule: strat_Select_cases)
  case (kv_aware s s')
  then show ?thesis using kv.select_release by blast
qed (use rr.select_release lp.select_release random.select_release in blast)+

interpretation dispatch: strategy
  "strat_Select intn pref" "\<lambda>(so, st). strat_members so" "\<lambda>m (so, st). strat_HasHealthyBackend m so"
  "\<lambda>k (so, st). strat_invar intn k so"
  for intn and pref :: "string \<Rightarrow> 'st \<Rightarrow> (gerror + string \<times> bool) \<times> 'st"
proof (unfold_locales, unfold split_paired_all prod.case)
  fix m so
  show "strat_HasHealthyBackend m so \<longleftrightarrow> (\<exists>b\<in>set (strat_members so). Healthy m b)"
    by (cases so) (simp_all add: strat_defs rr.has_healthy_iff lp.has_healthy_iff random.has_healthy_iff
        KVAware_HasHealthyBackend_def list_ex_iff)
next
  fix k so inp m r m' so' and st st' :: 'st
  assume inv: "strat_invar intn (Suc k) so" and sel: "strat_Select intn pref inp m (so, st) = (r, m', so', st')"
  from strat_Select_invar [OF this] show "strat_invar intn k so'" ..
next
  fix k so inp m m' so' and st st' :: 'st
  assume inv: "strat_invar intn (Suc k) so"
  show "strat_Select intn pref inp m (so, st) \<noteq> (Panic, m', so', st')"
  proof
    assume "strat_Select intn pref inp m (so, st) = (Panic, m', so', st')"
    from strat_Select_invar [OF inv this] show False by simp
  qed
qed (fact strat_Select_Ok strat_Select_Err strat_Select_kind strat_Select_release)+

text \<open>The load counters a selection touches exist already, so a new strategy's counters are fresh.\<close>

definition strat_cells :: "strategy_obj \<Rightarrow> cref set" where
  "strat_cells so =
     (case so of
        SRoundRobin r \<Rightarrow> {}
      | SLeastPending s \<Rightarrow> ran (lt_loads s)
      | SRandom r \<Rightarrow> {}
      | SKVAware s \<Rightarrow> ran (lt_loads s))"

lemma strat_Select_cells:
  assumes "strat_Select intn pref inp m (so, st) = (r, m', so', st')"
  shows "strat_cells so' = strat_cells so" and "mem_next_cell m' = mem_next_cell m"
    and "r = Ok d \<Longrightarrow> decision_release d = SubtractFrom c k \<Longrightarrow> c \<in> strat_cells so"
proof -
  have "strat_cells so' = strat_cells so \<and> mem_next_cell m' = mem_next_cell m \<and>
    (\<forall>d c k. r = Ok d \<longrightarrow> decision_release d = SubtractFrom c k \<longrightarrow> c \<in> strat_cells so)"
    using assms
  proof (cases rule: strat_Select_cases)
    case (round_robin s s')
    then show ?thesis
      by (auto simp: strat_cells_def RoundRobin_Select_def split: outcome.splits prod.splits)
  next
    case (least_pending s s')
    then show ?thesis
      using lt_select_frame [of 1 lp_decision m s r m' s']
      by (auto simp: strat_cells_def LeastPending_Select_table lp_decision_def ran_def dest!: lt_select_Ok)
  next
    case (random s s')
    then show ?thesis
      by (auto simp: strat_cells_def Random_Select_def Let_def split: outcome.splits if_splits)
  next
    case (kv_aware s s')
    then show ?thesis
      using KVAware_Select_frame [OF kv_aware(3)]
      by (auto simp: strat_cells_def kv_decision_def lp_decision_def ran_def dest!: KVAware_Select_Ok)
  qed
  then show "strat_cells so' = strat_cells so" and "mem_next_cell m' = mem_next_cell m"
    and "r = Ok d \<Longrightarrow> decision_release d = SubtractFrom c k \<Longrightarrow> c \<in> strat_cells so" by blast+
qed

end
