(* ===== verification/GoFloat.thy ===== *)
theory GoFloat
  imports Prelude Complex_Main "HOL-Library.Log_Nat"
begin

text \<open>
  Go's \<open>float64\<close> values as rationals: the result of an arithmetic operation is the exact result
  rounded to the nearest number of 53 significant bits (ties to even) with exponents down to
  \<open>-1074\<close>.  Overflow to infinity (beyond about \<open>10^308\<close>) and the sign of zero are not modelled; the
  program only computes with latencies in milliseconds and with ratios of counters.
\<close>

section \<open>Rounding\<close>

definition round_half_even :: "rat \<Rightarrow> int" where
  "round_half_even x =
     (let f = floor x; d = x - of_int f in
      if d < 1 / 2 then f else if 1 / 2 < d then f + 1 else if even f then f else f + 1)"

definition pow2 :: "int \<Rightarrow> rat" where
  "pow2 e = (if 0 \<le> e then 2 ^ nat e else 1 / 2 ^ nat (- e))"

text \<open>\<open>fexp x\<close> is the exponent of the last of the 53 bits of \<open>x \<noteq> 0\<close>.\<close>

definition fexp :: "rat \<Rightarrow> int" where
  "fexp x =
     (let (p, q) = quotient_of \<bar>x\<bar>;
          k = int (floorlog 2 (nat p)) - int (floorlog 2 (nat q));
          e = (if pow2 k \<le> \<bar>x\<bar> then k else k - 1)
      in max (e - 52) (- 1074))"

definition fl :: "rat \<Rightarrow> rat" where
  "fl x = (if x = 0 then 0 else of_int (round_half_even (x / pow2 (fexp x))) * pow2 (fexp x))"

text \<open>The operations, and the conversions from and to integers (\<open>int64(v)\<close> truncates).\<close>

definition fadd :: "rat \<Rightarrow> rat \<Rightarrow> rat" where "fadd x y = fl (x + y)"
definition fmul :: "rat \<Rightarrow> rat \<Rightarrow> rat" where "fmul x y = fl (x * y)"
definition fdiv :: "rat \<Rightarrow> rat \<Rightarrow> rat" where "fdiv x y = fl (x / y)"
definition f_of_int :: "int \<Rightarrow> rat" where "f_of_int n = fl (of_int n)"

definition trunc :: "rat \<Rightarrow> int" where
  "trunc x = (if 0 \<le> x then floor x else ceiling x)"

section \<open>The error of a rounding\<close>

lemma pow2_pos [simp]: "0 < pow2 e"
  by (simp add: pow2_def)

lemma pow2_nonzero [simp]: "pow2 e \<noteq> 0"
  by (simp add: pow2_def)

lemma pow2_add: "pow2 (a + b) = pow2 a * pow2 b"
proof -
  have *: "pow2 e = 2 powi e" for e
    by (auto simp: pow2_def power_int_def field_simps)
  show ?thesis by (simp add: * power_int_add)
qed

lemma pow2_int: "pow2 (int n) = 2 ^ n" "pow2 (- int n) = 1 / 2 ^ n"
  by (auto simp: pow2_def)

lemma pow2_mono: "a \<le> b \<Longrightarrow> pow2 a \<le> pow2 b"
proof -
  assume "a \<le> b"
  then have "pow2 b = 2 ^ nat (b - a) * pow2 a"
    using pow2_add [of "b - a" a] by (simp add: pow2_def)
  then show ?thesis by simp
qed

lemma round_half_even_error: "\<bar>of_int (round_half_even x) - x\<bar> \<le> 1 / 2"
  unfolding round_half_even_def Let_def by (auto simp: abs_if) linarith+

lemma fexp_bound:
  assumes "x \<noteq> 0"
  shows "pow2 (fexp x) \<le> \<bar>x\<bar> / 2 ^ 52 \<or> fexp x = - 1074"
proof -
  obtain p q where pq: "quotient_of \<bar>x\<bar> = (p, q)" by fastforce
  define k where "k = int (floorlog 2 (nat p)) - int (floorlog 2 (nat q))"
  define e where "e = (if pow2 k \<le> \<bar>x\<bar> then k else k - 1)"
  have fx: "fexp x = max (e - 52) (- 1074)" by (simp add: fexp_def pq k_def e_def)
  have q: "0 < q" by (rule quotient_of_denom_pos [OF pq])
  have xq: "\<bar>x\<bar> = of_int p / of_int q" by (rule quotient_of_div [OF pq])
  have p: "0 < p" using assms q xq by (simp add: zero_less_divide_iff flip: zero_less_abs_iff)
  have "pow2 e \<le> \<bar>x\<bar>"
  proof (cases "pow2 k \<le> \<bar>x\<bar>")
    case False
    have "2 ^ (floorlog 2 (nat p) - 1) \<le> nat p" "nat q \<le> 2 ^ floorlog 2 (nat q)"
      using floorlog_bounds [of "nat p" 2] floorlog_bounds [of "nat q" 2] p q by simp_all
    then have "rat_of_nat (2 ^ (floorlog 2 (nat p) - 1)) \<le> rat_of_nat (nat p)"
      "rat_of_nat (nat q) \<le> rat_of_nat (2 ^ floorlog 2 (nat q))"
      by (simp_all only: of_nat_le_iff)
    moreover have "rat_of_nat (nat p) = of_int p" "rat_of_nat (nat q) = of_int q"
      using p q by (simp_all add: of_nat_nat)
    ultimately have b: "(2::rat) ^ (floorlog 2 (nat p) - 1) \<le> of_int p" "of_int q \<le> (2::rat) ^ floorlog 2 (nat q)"
      by (simp_all only: of_nat_power of_nat_numeral)
    have "0 < floorlog 2 (nat p)" using p by (simp add: floorlog_def)
    then have "k - 1 = int (floorlog 2 (nat p) - 1) + - int (floorlog 2 (nat q))"
      by (simp add: k_def of_nat_diff)
    then have "pow2 (k - 1) = 2 ^ (floorlog 2 (nat p) - 1) / 2 ^ floorlog 2 (nat q)"
      by (simp only: pow2_add) (simp add: pow2_def)
    also have "\<dots> \<le> of_int p / of_int q"
      using b q p by (intro frac_le) (simp_all add: less_imp_le)
    finally show ?thesis using False by (simp add: e_def xq)
  qed (simp add: e_def)
  moreover have "pow2 (e - 52) = pow2 e / 2 ^ 52"
    using pow2_add [of "e" "- 52"] by (simp add: pow2_def)
  ultimately show ?thesis by (auto simp: fx max_def divide_right_mono)
qed

definition ulp_rel :: rat where "ulp_rel = 1 / 2 ^ 53"
definition ulp_min :: rat where "ulp_min = 1 / 2 ^ 1075"

lemma fl_error: "\<bar>fl x - x\<bar> \<le> ulp_rel * \<bar>x\<bar> + ulp_min"
proof (cases "x = 0")
  case False
  let ?u = "pow2 (fexp x)"
  have "\<bar>fl x - x\<bar> = \<bar>of_int (round_half_even (x / ?u)) - x / ?u\<bar> * ?u"
  proof -
    have "fl x - x = (of_int (round_half_even (x / ?u)) - x / ?u) * ?u"
      using False by (simp add: fl_def left_diff_distrib)
    then show ?thesis by (simp only: abs_mult) (simp add: less_imp_le)
  qed
  also have "\<dots> \<le> 1 / 2 * ?u"
    by (intro mult_right_mono round_half_even_error) (simp add: less_imp_le)
  also have "\<dots> \<le> ulp_rel * \<bar>x\<bar> + ulp_min"
    using fexp_bound [OF False]
  proof
    assume "pow2 (fexp x) \<le> \<bar>x\<bar> / 2 ^ 52"
    then show ?thesis by (simp add: ulp_rel_def ulp_min_def add_increasing2)
  next
    assume "fexp x = - 1074"
    then show ?thesis by (simp add: ulp_rel_def ulp_min_def pow2_def add_increasing)
  qed
  finally show ?thesis .
qed (simp add: fl_def ulp_min_def)

lemma fl_nonneg: "0 \<le> x \<Longrightarrow> 0 \<le> fl x"
proof -
  assume "0 \<le> x"
  then have "0 \<le> floor (x / pow2 (fexp x))" by (simp add: less_imp_le)
  then show ?thesis by (simp add: fl_def round_half_even_def Let_def less_imp_le)
qed

section \<open>Rounding twice\<close>

lemma fexp_upper:
  assumes "x \<noteq> 0"
  shows "\<bar>x\<bar> < pow2 (fexp x + 53)"
proof -
  obtain p q where pq: "quotient_of \<bar>x\<bar> = (p, q)" by fastforce
  define k where "k = int (floorlog 2 (nat p)) - int (floorlog 2 (nat q))"
  define e where "e = (if pow2 k \<le> \<bar>x\<bar> then k else k - 1)"
  have fx: "fexp x = max (e - 52) (- 1074)" by (simp add: fexp_def pq k_def e_def)
  have q: "0 < q" by (rule quotient_of_denom_pos [OF pq])
  have xq: "\<bar>x\<bar> = of_int p / of_int q" by (rule quotient_of_div [OF pq])
  have p: "0 < p" using assms q xq by (simp add: zero_less_divide_iff flip: zero_less_abs_iff)
  have "\<bar>x\<bar> < pow2 (e + 1)"
  proof (cases "pow2 k \<le> \<bar>x\<bar>")
    case True
    have "nat p < 2 ^ floorlog 2 (nat p)" "2 ^ (floorlog 2 (nat q) - 1) \<le> nat q"
      using floorlog_bounds [of "nat p" 2] floorlog_bounds [of "nat q" 2] p q by simp_all
    then have "rat_of_nat (nat p) < rat_of_nat (2 ^ floorlog 2 (nat p))"
      "rat_of_nat (2 ^ (floorlog 2 (nat q) - 1)) \<le> rat_of_nat (nat q)"
      by (simp_all only: of_nat_le_iff of_nat_less_iff)
    moreover have "rat_of_nat (nat p) = of_int p" "rat_of_nat (nat q) = of_int q"
      using p q by (simp_all add: of_nat_nat)
    ultimately have b: "of_int p < (2::rat) ^ floorlog 2 (nat p)" "(2::rat) ^ (floorlog 2 (nat q) - 1) \<le> of_int q"
      by (simp_all only: of_nat_power of_nat_numeral)
    have "0 < floorlog 2 (nat q)" using q by (simp add: floorlog_def)
    then have "k + 1 = int (floorlog 2 (nat p)) + - int (floorlog 2 (nat q) - 1)"
      by (simp add: k_def of_nat_diff)
    then have "pow2 (k + 1) = 2 ^ floorlog 2 (nat p) / 2 ^ (floorlog 2 (nat q) - 1)"
      by (simp only: pow2_add pow2_int) simp
    moreover have "of_int p / of_int q < (2::rat) ^ floorlog 2 (nat p) / 2 ^ (floorlog 2 (nat q) - 1)"
      using b p by (intro frac_less) simp_all
    ultimately show ?thesis using True by (simp add: e_def xq)
  qed (simp add: e_def)
  moreover have "pow2 (e + 1) \<le> pow2 (fexp x + 53)"
    by (rule pow2_mono) (simp add: fx)
  ultimately show ?thesis by simp
qed

lemma round_half_even_int [simp]: "round_half_even (of_int n) = n"
  by (simp add: round_half_even_def)

text \<open>A number with at most 53 significant bits is its own rounding.\<close>

lemma fl_exact_less:
  assumes "\<bar>m\<bar> < 2 ^ 53" and "- 1074 \<le> e"
  shows "fl (of_int m * pow2 e) = of_int m * pow2 e"
proof (cases "m = 0")
  case False
  let ?v = "of_int m * pow2 e :: rat"
  have v: "?v \<noteq> 0" using False by simp
  have "fexp ?v \<le> e"
  proof (rule ccontr)
    assume "\<not> fexp ?v \<le> e"
    then have big: "e + 1 \<le> fexp ?v" "fexp ?v \<noteq> - 1074" using assms(2) by linarith+
    have "pow2 (fexp ?v) * 2 ^ 52 \<le> \<bar>?v\<bar>"
      using fexp_bound [OF v] big(2) by (simp add: field_simps)
    also have "\<bar>?v\<bar> = of_int \<bar>m\<bar> * pow2 e"
      by (simp add: abs_mult less_imp_le)
    also have "\<dots> < of_int (2 ^ 53) * pow2 e"
      using assms(1) by (intro mult_strict_right_mono pow2_pos) (simp only: of_int_less_iff)
    also have "\<dots> = pow2 (e + 1) * 2 ^ 52"
      by (simp add: pow2_add) (simp add: pow2_def)
    finally have "pow2 (fexp ?v) < pow2 (e + 1)" by simp
    with pow2_mono [OF big(1)] show False by simp
  qed
  then have "pow2 e = 2 ^ nat (e - fexp ?v) * pow2 (fexp ?v)"
    using pow2_add [of "e - fexp ?v" "fexp ?v"] by (simp add: pow2_def)
  then have "?v / pow2 (fexp ?v) = of_int (m * 2 ^ nat (e - fexp ?v))"
    using pow2_nonzero [of "fexp ?v"] by (simp add: field_simps)
  then have "round_half_even (?v / pow2 (fexp ?v)) = m * 2 ^ nat (e - fexp ?v)"
    by (simp only: round_half_even_int)
  then show ?thesis
    using v \<open>pow2 e = _\<close> by (simp only: fl_def) simp
qed (simp add: fl_def)

lemma fl_exact:
  assumes "\<bar>m\<bar> \<le> 2 ^ 53" and "- 1074 \<le> e"
  shows "fl (of_int m * pow2 e) = of_int m * pow2 e"
proof (cases "\<bar>m\<bar> = 2 ^ 53")
  case True
  then have "m = 2 * (sgn m * 2 ^ 52)" by (simp add: sgn_if abs_if split: if_splits)
  then have "(of_int m :: rat) = 2 * of_int (sgn m * 2 ^ 52)" by (metis of_int_mult of_int_numeral)
  moreover have "pow2 (e + 1) = 2 * pow2 e"
    by (simp add: pow2_add) (simp add: pow2_def)
  ultimately have "of_int m * pow2 e = of_int (sgn m * 2 ^ 52) * pow2 (e + 1)" by simp
  moreover have "\<bar>sgn m * 2 ^ 52\<bar> < 2 ^ 53" by (simp add: sgn_if)
  ultimately show ?thesis using fl_exact_less [of "sgn m * 2 ^ 52" "e + 1"] assms(2) by simp
qed (use assms in \<open>auto intro: fl_exact_less\<close>)

lemma fl_form:
  assumes "x \<noteq> 0"
  obtains m where "fl x = of_int m * pow2 (fexp x)" and "\<bar>m\<bar> \<le> 2 ^ 53"
    and "\<bar>x\<bar> < (2 ^ 53 - 1 / 2) * pow2 (fexp x) \<longrightarrow> \<bar>m\<bar> < 2 ^ 53" and "- 1074 \<le> fexp x"
proof
  let ?y = "x / pow2 (fexp x)" and ?m = "round_half_even (x / pow2 (fexp x))"
  show "fl x = of_int ?m * pow2 (fexp x)" using assms by (simp add: fl_def)
  show "- 1074 \<le> fexp x" by (simp add: fexp_def Let_def case_prod_beta)
  have y: "\<bar>?y\<bar> = \<bar>x\<bar> / pow2 (fexp x)" by (simp add: abs_divide less_imp_le)
  have "pow2 (fexp x + 53) = 2 ^ 53 * pow2 (fexp x)"
    by (simp only: pow2_add) (simp add: pow2_def)
  with fexp_upper [OF assms] have y53: "\<bar>?y\<bar> < 2 ^ 53" unfolding y by (simp add: pos_divide_less_eq)
  have err: "\<bar>of_int ?m\<bar> \<le> \<bar>?y\<bar> + 1 / 2"
    using round_half_even_error [of ?y] by linarith
  with y53 have "of_int \<bar>?m\<bar> < (of_int (2 ^ 53 + 1) :: rat)" by simp
  then show "\<bar>?m\<bar> \<le> 2 ^ 53" by (simp only: of_int_less_iff)
  show "\<bar>x\<bar> < (2 ^ 53 - 1 / 2) * pow2 (fexp x) \<longrightarrow> \<bar>?m\<bar> < 2 ^ 53"
  proof
    assume "\<bar>x\<bar> < (2 ^ 53 - 1 / 2) * pow2 (fexp x)"
    then have "\<bar>?y\<bar> < 2 ^ 53 - 1 / 2" unfolding y by (simp add: pos_divide_less_eq)
    with err have "\<bar>of_int ?m\<bar> < (2 ^ 53 :: rat)" by linarith
    then have "of_int \<bar>?m\<bar> < (of_int (2 ^ 53) :: rat)" by simp
    then show "\<bar>?m\<bar> < 2 ^ 53" by (simp only: of_int_less_iff)
  qed
qed

lemma fl_idem [simp]: "fl (fl x) = fl x"
proof (cases "x = 0")
  case False
  then show ?thesis by (rule fl_form) (simp add: fl_exact)
qed (simp add: fl_def)

text \<open>Numbers below the overflow threshold do not reach it by rounding.\<close>

definition float_in_range :: "rat \<Rightarrow> bool" where
  "float_in_range x \<longleftrightarrow> \<bar>x\<bar> < 2 ^ 1024 - 2 ^ 970"

lemma float_in_range_fl:
  assumes "float_in_range x"
  shows "float_in_range (fl x)"
proof (cases "x = 0")
  case False
  obtain m where fl: "fl x = of_int m * pow2 (fexp x)" and m: "\<bar>m\<bar> \<le> 2 ^ 53"
    and m': "\<bar>x\<bar> < (2 ^ 53 - 1 / 2) * pow2 (fexp x) \<longrightarrow> \<bar>m\<bar> < 2 ^ 53"
    using fl_form [OF False] by metis
  have abs_fl: "\<bar>fl x\<bar> = of_int \<bar>m\<bar> * pow2 (fexp x)" by (simp add: fl abs_mult less_imp_le)
  have p970: "pow2 970 = 2 ^ 970" and p971: "pow2 971 = 2 * 2 ^ 970"
    by (simp_all add: pow2_def)
  have x: "\<bar>x\<bar> < (2 ^ 53 - 1 / 2) * pow2 971" using assms by (simp add: float_in_range_def p971)
  consider "fexp x \<le> 970" | "fexp x = 971" | "972 \<le> fexp x" by linarith
  then show ?thesis
  proof cases
    case 1
    have "\<bar>fl x\<bar> \<le> of_int (2 ^ 53) * pow2 970"
      unfolding abs_fl using m 1
      by (intro mult_mono pow2_mono) (simp_all only: of_int_le_iff, simp_all add: less_imp_le)
    also have "\<dots> < 2 ^ 1024 - 2 ^ 970" by (simp add: p970)
    finally show ?thesis by (simp add: float_in_range_def)
  next
    case 2
    with m' x have "\<bar>m\<bar> \<le> 2 ^ 53 - 1" by simp
    then have "\<bar>fl x\<bar> \<le> of_int (2 ^ 53 - 1) * pow2 971"
      unfolding abs_fl 2 by (intro mult_right_mono) (simp_all only: of_int_le_iff, simp add: less_imp_le)
    also have "\<dots> < 2 ^ 1024 - 2 ^ 970" by (simp add: p971)
    finally show ?thesis by (simp add: float_in_range_def)
  next
    case 3
    have "pow2 972 \<le> \<bar>x\<bar> / 2 ^ 52"
      using fexp_bound [OF False] 3 pow2_mono [OF 3] by linarith
    then have False using x by (simp add: pow2_def)
    then show ?thesis ..
  qed
qed (use assms in \<open>simp add: fl_def\<close>)

definition is_float64 :: "rat \<Rightarrow> bool" where
  "is_float64 x \<longleftrightarrow> fl x = x \<and> float_in_range x"

lemma is_float64_fl: "float_in_range x \<Longrightarrow> is_float64 (fl x)"
  by (simp add: is_float64_def float_in_range_fl)

lemma is_float64_zero [simp]: "is_float64 0"
  by (simp add: is_float64_def float_in_range_def fl_def)

end
