(* ===== verification/Metrics.thy ===== *)
theory Metrics
  imports GoFloat GoStrings "HOL-Library.List_Lexorder" "HOL-Library.Char_ord"
begin

text \<open>
  \<open>internal/metrics/state.go\<close>: the counters of the router and the moving average of the latency per
  backend.  The maps from names to counters are association lists (a nil map is the empty one); the
  code only reads them through snapshots and sorted keys.  Strings compare byte by byte, as
  \<open>sort.Strings\<close> compares them.
\<close>

section \<open>The code\<close>

type_synonym counters = "(string \<times> int64) list"

record metrics_state =
  ms_inFlight :: int64
  ms_requestsTotal :: int64
  ms_backendErrors :: int64
  ms_kvCacheHits :: int64
  ms_kvCacheMisses :: int64
  ms_strategyCounts :: counters
  ms_backendCounts :: counters
  ms_latencyEMA :: "string \<rightharpoonup> rat"

definition new_metrics :: metrics_state where
  "new_metrics = \<lparr>ms_inFlight = 0, ms_requestsTotal = 0, ms_backendErrors = 0, ms_kvCacheHits = 0,
     ms_kvCacheMisses = 0, ms_strategyCounts = [], ms_backendCounts = [], ms_latencyEMA = Map.empty\<rparr>"

definition IncInFlight :: "metrics_state \<Rightarrow> metrics_state" where
  "IncInFlight s = s\<lparr>ms_inFlight := ms_inFlight s + 1\<rparr>"

definition DecInFlight :: "metrics_state \<Rightarrow> metrics_state" where
  "DecInFlight s = s\<lparr>ms_inFlight := ms_inFlight s + (- 1)\<rparr>"

definition InFlight :: "metrics_state \<Rightarrow> int64" where
  "InFlight s = ms_inFlight s"

definition IncRequestsTotal :: "metrics_state \<Rightarrow> metrics_state" where
  "IncRequestsTotal s = s\<lparr>ms_requestsTotal := ms_requestsTotal s + 1\<rparr>"

definition RequestsTotal :: "metrics_state \<Rightarrow> int64" where
  "RequestsTotal s = ms_requestsTotal s"

definition IncBackendErrors :: "metrics_state \<Rightarrow> metrics_state" where
  "IncBackendErrors s = s\<lparr>ms_backendErrors := ms_backendErrors s + 1\<rparr>"

definition BackendErrors :: "metrics_state \<Rightarrow> int64" where
  "BackendErrors s = ms_backendErrors s"

definition IncKVCacheHit :: "metrics_state \<Rightarrow> metrics_state" where
  "IncKVCacheHit s = s\<lparr>ms_kvCacheHits := ms_kvCacheHits s + 1\<rparr>"

definition IncKVCacheMiss :: "metrics_state \<Rightarrow> metrics_state" where
  "IncKVCacheMiss s = s\<lparr>ms_kvCacheMisses := ms_kvCacheMisses s + 1\<rparr>"

definition KVCacheHits :: "metrics_state \<Rightarrow> int64" where
  "KVCacheHits s = ms_kvCacheHits s"

definition KVCacheMisses :: "metrics_state \<Rightarrow> int64" where
  "KVCacheMisses s = ms_kvCacheMisses s"

text \<open>
  \<open>const alpha = 0.2\<close> is an exact constant; \<open>alpha\<close> and \<open>1-alpha\<close> are rounded to \<open>float64\<close> where
  they meet \<open>ms\<close> and \<open>prev\<close>.
\<close>

definition RecordLatency :: "string \<Rightarrow> rat \<Rightarrow> metrics_state \<Rightarrow> metrics_state" where
  "RecordLatency backendName ms s =
     (case ms_latencyEMA s backendName of
        Some prev \<Rightarrow>
          s\<lparr>ms_latencyEMA := (ms_latencyEMA s)(backendName \<mapsto>
              fadd (fmul (fl (1 / 5)) ms) (fmul (fl (1 - 1 / 5)) prev))\<rparr>
      | None \<Rightarrow> s\<lparr>ms_latencyEMA := (ms_latencyEMA s)(backendName \<mapsto> ms)\<rparr>)"

definition LatencySnapshot :: "metrics_state \<Rightarrow> string \<rightharpoonup> int64" where
  "LatencySnapshot s k = map_option (\<lambda>v. word_of_int (trunc v)) (ms_latencyEMA s k)"

text \<open>
  \<open>counterFor\<close> returns the counter's pointer, made on the first use; the callers add to it.
\<close>

definition counterFor :: "counters \<Rightarrow> string \<Rightarrow> counters" where
  "counterFor target name = (if map_of target name \<noteq> None then target else target @ [(name, 0)])"

definition counter_Add :: "string \<Rightarrow> int64 \<Rightarrow> counters \<Rightarrow> counters" where
  "counter_Add name d target = map (\<lambda>(k, v). if k = name then (k, v + d) else (k, v)) target"

definition RecordStrategy :: "string \<Rightarrow> metrics_state \<Rightarrow> metrics_state" where
  "RecordStrategy name s =
     s\<lparr>ms_strategyCounts := counter_Add name 1 (counterFor (ms_strategyCounts s) name)\<rparr>"

definition RecordBackend :: "string \<Rightarrow> metrics_state \<Rightarrow> metrics_state" where
  "RecordBackend name s =
     s\<lparr>ms_backendCounts := counter_Add name 1 (counterFor (ms_backendCounts s) name)\<rparr>"

definition snapshot :: "counters \<Rightarrow> counters" where
  "snapshot source = map (\<lambda>(key, value). (key, value)) source"

definition StrategySnapshot :: "metrics_state \<Rightarrow> counters" where
  "StrategySnapshot s = snapshot (ms_strategyCounts s)"

definition BackendSnapshot :: "metrics_state \<Rightarrow> counters" where
  "BackendSnapshot s = snapshot (ms_backendCounts s)"

definition SortedKeys :: "counters \<Rightarrow> string list" where
  "SortedKeys values = sort (map fst values)"

text \<open>Reading a Go map of integers: a missing key reads as 0.\<close>

definition counter_at :: "counters \<Rightarrow> string \<Rightarrow> int64" where
  "counter_at c name = (case map_of c name of None \<Rightarrow> 0 | Some v \<Rightarrow> v)"

section \<open>Counters\<close>

lemma snapshot_id [simp]: "snapshot c = c"
  by (simp add: snapshot_def)

definition count_one :: "string \<Rightarrow> counters \<Rightarrow> counters" where
  "count_one name c = counter_Add name 1 (counterFor c name)"

lemma counter_Add_simps [simp]:
  "counter_Add name d [] = []"
  "counter_Add name d ((k, v) # c) = (k, if k = name then v + d else v) # counter_Add name d c"
  by (simp_all add: counter_Add_def)

lemma counter_Add_absent: "name \<notin> fst ` set c \<Longrightarrow> counter_Add name d c = c"
  by (induction c) auto

lemma map_of_counter_Add: "map_of (counter_Add name d c) k =
    (if k = name then map_option (\<lambda>v. v + d) (map_of c k) else map_of c k)"
  by (induction c) auto

lemma keys_counter_Add [simp]: "map fst (counter_Add name d c) = map fst c"
  by (induction c) auto

lemma keys_count_one:
  "map fst (count_one name c) = (if name \<in> fst ` set c then map fst c else map fst c @ [name])"
  by (auto simp: count_one_def counterFor_def map_of_eq_None_iff)

lemma distinct_count_one: "distinct (map fst c) \<Longrightarrow> distinct (map fst (count_one name c))"
  by (simp add: keys_count_one)

lemma counter_at_count_one:
  "counter_at (count_one name c) k = counter_at c k + (if k = name then 1 else 0)"
  by (auto simp: counter_at_def count_one_def map_of_counter_Add counterFor_def map_add_def
      split: option.splits if_splits)

lemma total_counter_Add:
  "distinct (map fst c) \<Longrightarrow> name \<in> fst ` set c \<Longrightarrow>
    sum_list (map snd (counter_Add name d c)) = sum_list (map snd c) + d"
  by (induction c) (force simp: counter_Add_absent)+

lemma total_count_one:
  assumes "distinct (map fst c)"
  shows "sum_list (map snd (count_one name c)) = sum_list (map snd c) + 1"
proof -
  have "distinct (map fst (counterFor c name))" "name \<in> fst ` set (counterFor c name)"
    using assms by (auto simp: counterFor_def map_of_eq_None_iff split: if_splits)
  then show ?thesis
    by (simp add: count_one_def total_counter_Add) (simp add: counterFor_def)
qed

lemma RecordStrategy_simps [simp]:
  "ms_strategyCounts (RecordStrategy n s) = count_one n (ms_strategyCounts s)"
  "ms_backendCounts (RecordStrategy n s) = ms_backendCounts s"
  "ms_inFlight (RecordStrategy n s) = ms_inFlight s"
  "ms_requestsTotal (RecordStrategy n s) = ms_requestsTotal s"
  "ms_backendErrors (RecordStrategy n s) = ms_backendErrors s"
  "ms_kvCacheHits (RecordStrategy n s) = ms_kvCacheHits s"
  "ms_kvCacheMisses (RecordStrategy n s) = ms_kvCacheMisses s"
  "ms_latencyEMA (RecordStrategy n s) = ms_latencyEMA s"
  by (simp_all add: RecordStrategy_def count_one_def)

lemma RecordBackend_simps [simp]:
  "ms_backendCounts (RecordBackend n s) = count_one n (ms_backendCounts s)"
  "ms_strategyCounts (RecordBackend n s) = ms_strategyCounts s"
  "ms_inFlight (RecordBackend n s) = ms_inFlight s"
  "ms_requestsTotal (RecordBackend n s) = ms_requestsTotal s"
  "ms_backendErrors (RecordBackend n s) = ms_backendErrors s"
  "ms_kvCacheHits (RecordBackend n s) = ms_kvCacheHits s"
  "ms_kvCacheMisses (RecordBackend n s) = ms_kvCacheMisses s"
  "ms_latencyEMA (RecordBackend n s) = ms_latencyEMA s"
  by (simp_all add: RecordBackend_def count_one_def)

lemma RecordLatency_simps [simp]:
  "ms_backendCounts (RecordLatency n x s) = ms_backendCounts s"
  "ms_strategyCounts (RecordLatency n x s) = ms_strategyCounts s"
  "ms_inFlight (RecordLatency n x s) = ms_inFlight s"
  "ms_requestsTotal (RecordLatency n x s) = ms_requestsTotal s"
  "ms_backendErrors (RecordLatency n x s) = ms_backendErrors s"
  "ms_kvCacheHits (RecordLatency n x s) = ms_kvCacheHits s"
  "ms_kvCacheMisses (RecordLatency n x s) = ms_kvCacheMisses s"
  by (simp_all add: RecordLatency_def split: option.split)

lemmas metrics_defs =
  IncInFlight_def DecInFlight_def InFlight_def IncRequestsTotal_def RequestsTotal_def
  IncBackendErrors_def BackendErrors_def IncKVCacheHit_def IncKVCacheMiss_def KVCacheHits_def
  KVCacheMisses_def

text \<open>
  C36: After any sequence of recorded selections a snapshot lists every recorded name once, with the
  number of its selections (modulo \<open>2^64\<close>), and \<open>SortedKeys\<close> lists these names in increasing order
  without repetition.
\<close>

theorem backend_counts:
  "map_of (BackendSnapshot (fold RecordBackend names new_metrics)) n =
     (if n \<in> set names then Some (of_nat (count_list names n)) else None) \<and>
   sorted_wrt (<) (SortedKeys (BackendSnapshot (fold RecordBackend names new_metrics))) \<and>
   set (SortedKeys (BackendSnapshot (fold RecordBackend names new_metrics))) = set names"
proof -
  let ?c = "ms_backendCounts (fold RecordBackend names new_metrics)"
  have inv: "distinct (map fst ?c) \<and> fst ` set ?c = set names \<and> counter_at ?c n = of_nat (count_list names n)"
  proof (induction names rule: rev_induct)
    case (snoc x names)
    let ?d = "ms_backendCounts (fold RecordBackend names new_metrics)"
    have "fst ` set (count_one x ?d) = insert x (fst ` set ?d)"
      using keys_count_one [of x ?d] by (metis (no_types, lifting) Un_insert_right insert_absorb list.set_map
          list.simps(15) set_append sup_bot_right empty_set)
    with snoc show ?case by (auto simp: distinct_count_one counter_at_count_one)
  qed (simp add: new_metrics_def counter_at_def)
  have "map_of ?c n = (if n \<in> set names then Some (of_nat (count_list names n)) else None)"
  proof (cases "map_of ?c n")
    case None
    with inv show ?thesis by (simp add: map_of_eq_None_iff)
  next
    case (Some v)
    then have "n \<in> set names" using inv by (metis map_of_eq_None_iff option.discI)
    moreover have "counter_at ?c n = v" by (simp add: counter_at_def Some)
    ultimately show ?thesis using inv Some by simp
  qed
  moreover have "sorted_wrt (<) (SortedKeys ?c)"
    using inv by (simp add: SortedKeys_def strict_sorted_iff)
  ultimately show ?thesis using inv by (simp add: BackendSnapshot_def SortedKeys_def)
qed

section \<open>The moving average\<close>

text \<open>
  Coarse bounds on a rounding, enough for the average: a relative error of \<open>2^-50\<close> and an absolute
  one of \<open>2^-60\<close>.
\<close>

lemma fl_upper: "0 \<le> x \<Longrightarrow> fl x \<le> x + x / 2 ^ 50 + 1 / 2 ^ 60"
proof -
  assume "0 \<le> x"
  have "ulp_rel \<le> 1 / 2 ^ 50" "ulp_min \<le> 1 / 2 ^ 60"
    by (simp_all add: ulp_rel_def ulp_min_def)
  then have "ulp_rel * x + ulp_min \<le> 1 / 2 ^ 50 * x + 1 / 2 ^ 60"
    using \<open>0 \<le> x\<close> by (intro add_mono mult_right_mono) simp_all
  with fl_error [of x] \<open>0 \<le> x\<close> show ?thesis by (simp add: algebra_simps abs_le_iff)
qed

lemma fl_lower: "0 \<le> x \<Longrightarrow> x - x / 2 ^ 50 - 1 / 2 ^ 60 \<le> fl x"
proof -
  assume "0 \<le> x"
  have "ulp_rel \<le> 1 / 2 ^ 50" "ulp_min \<le> 1 / 2 ^ 60"
    by (simp_all add: ulp_rel_def ulp_min_def)
  then have "ulp_rel * x + ulp_min \<le> 1 / 2 ^ 50 * x + 1 / 2 ^ 60"
    using \<open>0 \<le> x\<close> by (intro add_mono mult_right_mono) simp_all
  with fl_error [of x] \<open>0 \<le> x\<close> show ?thesis by (simp add: algebra_simps abs_le_iff)
qed

lemma ema_constants:
  "fl (1 / 5) = 3602879701896397 / 2 ^ 54" "fl (4 / 5) = 3602879701896397 / 2 ^ 52"
  by code_simp+

text \<open>
  The range the average stays in when all samples lie between \<open>lo\<close> and \<open>hi\<close>, with the drift that the
  roundings can cause.
\<close>

definition ema_range :: "rat \<Rightarrow> rat \<Rightarrow> rat \<Rightarrow> bool" where
  "ema_range lo hi v \<longleftrightarrow>
     0 \<le> v \<and> lo - lo / 2 ^ 44 - 1 / 2 ^ 54 \<le> v \<and> v \<le> hi + hi / 2 ^ 44 + 1 / 2 ^ 54"

lemma rat_powers:
  "(2::rat) ^ 44 = 17592186044416" "(2::rat) ^ 50 = 1125899906842624" "(2::rat) ^ 52 = 4503599627370496"
  "(2::rat) ^ 54 = 18014398509481984" "(2::rat) ^ 60 = 1152921504606846976"
  by simp_all

lemma ema_first:
  assumes "0 \<le> lo" and "lo \<le> x" and "x \<le> hi"
  shows "ema_range lo hi (fl x)"
proof -
  have x: "0 \<le> x" using assms by simp
  show ?thesis
    using fl_upper [OF x] fl_lower [OF x] fl_nonneg [OF x] assms
    unfolding ema_range_def rat_powers by (intro conjI; linarith)
qed

lemma ema_sum_upper:
  fixes A B F hi :: rat
  assumes "A \<le> hi / 5 + hi / 2 ^ 50 + 2 / 2 ^ 60" and "B \<le> 4 / 5 * hi + 9 / 10 * hi / 2 ^ 44 + 60 / 2 ^ 60"
    and "F \<le> A + B + (A + B) / 2 ^ 50 + 1 / 2 ^ 60" and "0 \<le> hi"
  shows "F \<le> hi + hi / 2 ^ 44 + 1 / 2 ^ 54"
  using assms unfolding rat_powers by (simp add: field_simps)

lemma ema_sum_lower:
  fixes A B F lo :: rat
  assumes "lo / 5 - lo / 2 ^ 50 - 2 / 2 ^ 60 \<le> A" and "4 / 5 * lo - 9 / 10 * lo / 2 ^ 44 - 60 / 2 ^ 60 \<le> B"
    and "A + B - (A + B) / 2 ^ 50 - 1 / 2 ^ 60 \<le> F" and "0 \<le> lo"
  shows "lo - lo / 2 ^ 44 - 1 / 2 ^ 54 \<le> F"
  using assms unfolding rat_powers by (simp add: field_simps)

lemma ema_step:
  assumes "0 \<le> lo" and "lo \<le> x" and "x \<le> hi" and "ema_range lo hi v"
  shows "ema_range lo hi (fadd (fmul (fl (1 / 5)) (fl x)) (fmul (fl (4 / 5)) v))"
proof -
  let ?a = "3602879701896397 / 2 ^ 54 :: rat" and ?b = "3602879701896397 / 2 ^ 52 :: rat"
  have v: "0 \<le> v" "lo - lo / 2 ^ 44 - 1 / 2 ^ 54 \<le> v" "v \<le> hi + hi / 2 ^ 44 + 1 / 2 ^ 54"
    using assms(4) by (simp_all only: ema_range_def)
  have x: "0 \<le> fl x" using assms by (intro fl_nonneg) simp
  have ax: "0 \<le> fl (?a * fl x)" and bv: "0 \<le> fl (?b * v)"
    using x v by (simp_all add: fl_nonneg)
  have sum: "0 \<le> fl (?a * fl x) + fl (?b * v)" using ax bv by simp
  have hi: "0 \<le> hi" using assms by simp
  have prods: "0 \<le> ?a * fl x" "0 \<le> ?b * v" "0 \<le> x" using x v assms by simp_all
  have "0 \<le> fl (fl (?a * fl x) + fl (?b * v))" using sum by (rule fl_nonneg)
  moreover have "fl (fl (?a * fl x) + fl (?b * v)) \<le> hi + hi / 2 ^ 44 + 1 / 2 ^ 54"
  proof -
    have "fl (?a * fl x) \<le> hi / 5 + hi / 2 ^ 50 + 2 / 2 ^ 60"
      using fl_upper [OF prods(1)] fl_upper [OF prods(3)] assms(1-3) unfolding rat_powers by linarith
    moreover have "fl (?b * v) \<le> 4 / 5 * hi + 9 / 10 * hi / 2 ^ 44 + 60 / 2 ^ 60"
    proof -
      have "fl (?b * v) \<le> 4 / 5 * v + v / 2 ^ 50 + 1 / 2 ^ 60"
        using fl_upper [OF prods(2)] v(1) unfolding rat_powers by linarith
      with v(3) hi show ?thesis unfolding rat_powers by linarith
    qed
    ultimately show ?thesis using fl_upper [OF sum] hi by (rule ema_sum_upper)
  qed
  moreover have "lo - lo / 2 ^ 44 - 1 / 2 ^ 54 \<le> fl (fl (?a * fl x) + fl (?b * v))"
  proof -
    have "lo / 5 - lo / 2 ^ 50 - 2 / 2 ^ 60 \<le> fl (?a * fl x)"
      using fl_lower [OF prods(1)] fl_lower [OF prods(3)] assms(1-3) unfolding rat_powers by linarith
    moreover have "4 / 5 * lo - 9 / 10 * lo / 2 ^ 44 - 60 / 2 ^ 60 \<le> fl (?b * v)"
    proof -
      have "4 / 5 * v - v / 2 ^ 50 - 1 / 2 ^ 60 \<le> fl (?b * v)"
        using fl_lower [OF prods(2)] v(1) unfolding rat_powers by linarith
      with v(2) assms(1) show ?thesis unfolding rat_powers by linarith
    qed
    ultimately show ?thesis using fl_lower [OF sum] assms(1) by (rule ema_sum_lower)
  qed
  ultimately show ?thesis
    unfolding ema_range_def fadd_def fmul_def ema_constants by simp
qed

definition record_all :: "(string \<times> int) list \<Rightarrow> metrics_state \<Rightarrow> metrics_state" where
  "record_all = fold (\<lambda>(name, ms). RecordLatency name (f_of_int ms))"

lemma record_all_snoc:
  "record_all (xs @ [(n, ms)]) s = RecordLatency n (f_of_int ms) (record_all xs s)"
  by (simp add: record_all_def)

lemma RecordLatency_other: "n \<noteq> b \<Longrightarrow> ms_latencyEMA (RecordLatency n x s) b = ms_latencyEMA s b"
  by (simp add: RecordLatency_def split: option.split)

lemma record_all_range:
  assumes "\<forall>ms. (b, ms) \<in> set xs \<longrightarrow> lo \<le> ms \<and> ms \<le> hi" and "0 \<le> lo" and "ms_latencyEMA s b = None"
  shows "case ms_latencyEMA (record_all xs s) b of
      None \<Rightarrow> b \<notin> fst ` set xs | Some v \<Rightarrow> ema_range (of_int lo) (of_int hi) v"
  using assms(1)
proof (induction xs rule: rev_induct)
  case Nil
  show ?case by (simp add: record_all_def assms(3))
next
  case (snoc x xs)
  obtain n ms where x: "x = (n, ms)" by fastforce
  from snoc have IH: "case ms_latencyEMA (record_all xs s) b of
      None \<Rightarrow> b \<notin> fst ` set xs | Some v \<Rightarrow> ema_range (of_int lo) (of_int hi) v" by simp
  show ?case
  proof (cases "n = b")
    case True
    with snoc.prems x have "lo \<le> ms" "ms \<le> hi" by auto
    then have "of_int lo \<le> (of_int ms :: rat)" "of_int ms \<le> (of_int hi :: rat)" "0 \<le> (of_int lo :: rat)"
      using assms(2) by simp_all
    with IH True x show ?thesis
      by (auto simp: record_all_snoc RecordLatency_def f_of_int_def ema_first ema_step split: option.splits)
  next
    case False
    with IH x show ?thesis by (auto simp: record_all_snoc RecordLatency_other split: option.splits)
  qed
qed

lemma ema_range_trunc:
  assumes "ema_range (of_int lo) (of_int hi) v" and "0 \<le> lo" and "lo \<le> hi" and "hi \<le> 2 ^ 40"
  shows "lo - 1 \<le> trunc v \<and> trunc v \<le> hi \<and> 0 \<le> trunc v"
proof -
  have v: "0 \<le> v" "of_int lo - of_int lo / 2 ^ 44 - 1 / 2 ^ 54 \<le> v" "v \<le> of_int hi + of_int hi / 2 ^ 44 + 1 / 2 ^ 54"
    using assms(1) by (simp_all only: ema_range_def)
  have "(of_int hi :: rat) \<le> 1099511627776" "(of_int lo :: rat) \<le> 1099511627776"
    using assms(3,4) by simp_all
  then have "of_int (lo - 1) \<le> v" "v < of_int (hi + 1)"
    using v(2,3) unfolding rat_powers by simp_all
  then have "lo - 1 \<le> floor v" "floor v < hi + 1"
    by (simp_all only: le_floor_iff floor_less_iff)
  then show ?thesis using v(1) by (simp add: trunc_def)
qed

text \<open>
  C26: Whatever latencies have been recorded (in any order, between any others), the latency that
  \<open>/api/status\<close> reports for a backend lies between the smallest and the largest latency recorded for
  it, except that the roundings of the moving average can make it one millisecond too small; a
  backend without a recorded latency has no entry.
\<close>

theorem latency_snapshot_bounds:
  assumes "\<forall>ms. (b, ms) \<in> set xs \<longrightarrow> lo \<le> ms \<and> ms \<le> hi"
    and "0 \<le> lo" and "lo \<le> hi" and "hi \<le> 2 ^ 40"
  shows "case LatencySnapshot (record_all xs new_metrics) b of
      None \<Rightarrow> b \<notin> fst ` set xs
    | Some v \<Rightarrow> lo - 1 \<le> sint v \<and> sint v \<le> hi"
proof -
  have "case ms_latencyEMA (record_all xs new_metrics) b of
      None \<Rightarrow> b \<notin> fst ` set xs | Some v \<Rightarrow> ema_range (of_int lo) (of_int hi) v"
    using assms(1,2) by (intro record_all_range) (simp_all add: new_metrics_def)
  moreover have "lo - 1 \<le> sint (word_of_int (trunc v) :: int64) \<and> sint (word_of_int (trunc v) :: int64) \<le> hi"
    if "ema_range (of_int lo) (of_int hi) v" for v
  proof -
    note t = ema_range_trunc [OF that assms(2-4)]
    then have "sint (word_of_int (trunc v) :: int64) = trunc v"
      using assms(4) by (simp add: sint_sbintrunc' signed_take_bit_int_eq_self)
    with t show ?thesis by simp
  qed
  ultimately show ?thesis by (auto simp: LatencySnapshot_def split: option.splits)
qed

theorem latency_snapshot_bounds_witness:
  "\<exists>v. LatencySnapshot (record_all [(''a'', 120), (''b'', 7), (''a'', 80)] new_metrics) ''a'' = Some v \<and>
    79 \<le> sint v \<and> sint v \<le> 120"
  using latency_snapshot_bounds [of "''a''" "[(''a'', 120), (''b'', 7), (''a'', 80)]" 80 120]
  by (auto split: option.splits)

end
