(* ===== verification/Http.thy ===== *)
theory Http
  imports GoFloat GoStrings
begin

text \<open>
  What the program uses of \<open>net/http\<close> and \<open>encoding/json\<close>.  A body is the JSON value at its front,
  as a tree (\<open>json.Decoder\<close> reads one value and ignores what follows), or none if it has no such
  value.  A number literal with neither fraction nor exponent is a \<open>JInt\<close>.  Objects are lists of
  key/value pairs in the order of the text.  Headers are a map, since the program only uses
  \<open>Header.Set\<close>.
\<close>

section \<open>Requests and responses\<close>

datatype json =
    JNull
  | JBool bool
  | JInt int
  | JFloat rat
  | JStr string
  | JArr "json list"
  | JObj "(string \<times> json) list"

type_synonym headers = "string \<rightharpoonup> string"

record request =
  rq_method :: string
  rq_path :: string
  rq_body :: "json option"

datatype body = NoBody | TextBody string | JsonBody json

record response =
  rsp_status :: nat
  rsp_headers :: headers
  rsp_body :: body

definition MethodGet :: string where "MethodGet = ''GET''"
definition MethodPost :: string where "MethodPost = ''POST''"
definition MethodPut :: string where "MethodPut = ''PUT''"
definition MethodOptions :: string where "MethodOptions = ''OPTIONS''"

definition newline :: string where "newline = [char_of (10::nat)]"

text \<open>\<open>http.Error\<close>, with the headers set on the writer before.\<close>

definition http_Error :: "headers \<Rightarrow> string \<Rightarrow> nat \<Rightarrow> response" where
  "http_Error h error code =
     \<lparr>rsp_status = code,
      rsp_headers = h(''Content-Type'' \<mapsto> ''text/plain; charset=utf-8'',
                      ''X-Content-Type-Options'' \<mapsto> ''nosniff''),
      rsp_body = TextBody (error @ newline)\<rparr>"

text \<open>\<open>http.NotFound\<close>, the answer of a \<open>ServeMux\<close> for a path without a pattern.\<close>

definition http_NotFound :: "headers \<Rightarrow> response" where
  "http_NotFound h = http_Error h ''404 page not found'' 404"

text \<open>
  \<open>writeJSON\<close> of the servers (the encoder's error is dropped; the payloads here always encode).
\<close>

definition writeJSON :: "headers \<Rightarrow> nat \<Rightarrow> json \<Rightarrow> response" where
  "writeJSON h status payload =
     \<lparr>rsp_status = status, rsp_headers = h(''Content-Type'' \<mapsto> ''application/json''),
      rsp_body = JsonBody payload\<rparr>"

lemma http_Error_simps [simp]:
  "rsp_status (http_Error h e c) = c"
  "rsp_body (http_Error h e c) = TextBody (e @ newline)"
  "rsp_headers (http_Error h e c) =
     h(''Content-Type'' \<mapsto> ''text/plain; charset=utf-8'', ''X-Content-Type-Options'' \<mapsto> ''nosniff'')"
  by (simp_all add: http_Error_def)

lemma writeJSON_simps [simp]:
  "rsp_status (writeJSON h c p) = c" "rsp_body (writeJSON h c p) = JsonBody p"
  "rsp_headers (writeJSON h c p) = h(''Content-Type'' \<mapsto> ''application/json'')"
  by (simp_all add: writeJSON_def)

section \<open>Decoding into Go values\<close>

text \<open>
  Decoding a value into a variable that holds \<open>old\<close>: \<open>null\<close> leaves scalars and structs alone and
  empties a slice, a value of the wrong type (or an integer that does not fit) is an error.
  The elements of an array are decoded into the elements a slice already has, as \<open>encoding/json\<close> does
  for a repeated key, and into zero values beyond (what a shortened slice keeps behind its end is not
  modelled).  An error anywhere makes \<open>Decode\<close> fail, so it is \<open>None\<close> at once.
\<close>

fun decode_string :: "json \<Rightarrow> string \<Rightarrow> string option" where
  "decode_string JNull old = Some old"
| "decode_string (JStr s) old = Some s"
| "decode_string _ old = None"

fun decode_bool :: "json \<Rightarrow> bool \<Rightarrow> bool option" where
  "decode_bool JNull old = Some old"
| "decode_bool (JBool b) old = Some b"
| "decode_bool _ old = None"

fun decode_int :: "json \<Rightarrow> int \<Rightarrow> int option" where
  "decode_int JNull old = Some old"
| "decode_int (JInt n) old = (if - (2 ^ 63) \<le> n \<and> n < 2 ^ 63 then Some n else None)"
| "decode_int _ old = None"

fun decode_float :: "json \<Rightarrow> rat \<Rightarrow> rat option" where
  "decode_float JNull old = Some old"
| "decode_float (JInt n) old = (if float_in_range (of_int n) then Some (f_of_int n) else None)"
| "decode_float (JFloat x) old = (if float_in_range x then Some (fl x) else None)"
| "decode_float _ old = None"

fun decode_slice ::
  "(json \<Rightarrow> 'a \<Rightarrow> 'a option) \<Rightarrow> 'a \<Rightarrow> json list \<Rightarrow> 'a list \<Rightarrow> 'a list option" where
  "decode_slice dec zero [] old = Some []"
| "decode_slice dec zero (v # vs) old =
     (case dec v (case old of [] \<Rightarrow> zero | y # _ \<Rightarrow> y) of
        None \<Rightarrow> None
      | Some x \<Rightarrow> map_option (Cons x) (decode_slice dec zero vs (drop 1 old)))"

fun decode_list :: "(json \<Rightarrow> 'a \<Rightarrow> 'a option) \<Rightarrow> 'a \<Rightarrow> json \<Rightarrow> 'a list \<Rightarrow> 'a list option" where
  "decode_list dec zero JNull old = Some []"
| "decode_list dec zero (JArr vs) old = decode_slice dec zero vs old"
| "decode_list dec zero _ old = None"

text \<open>
  Struct fields match keys up to case: exactly, or folded (where U+212A is a \<open>k\<close> and U+017F an \<open>s\<close>).
  \<open>set\<close> decodes one field of the folded name; unknown keys are ignored by it.  The fields are
  decoded in the order of the object.
\<close>

fun fold_name :: "string \<Rightarrow> string" where
  "fold_name [] = []"
| "fold_name (c # s) =
     (if take 2 (c # s) = [CHR 0xC5, CHR 0xBF] then CHR ''s'' # fold_name (drop 1 s)
      else if take 3 (c # s) = [CHR 0xE2, CHR 0x84, CHR 0xAA] then CHR ''k'' # fold_name (drop 2 s)
      else lower_byte c # fold_name s)"

declare fold_name.simps [simp del]

fun decode_fields ::
  "(string \<Rightarrow> json \<Rightarrow> 'a \<Rightarrow> 'a option) \<Rightarrow> (string \<times> json) list \<Rightarrow> 'a \<Rightarrow> 'a option" where
  "decode_fields set_field [] x = Some x"
| "decode_fields set_field ((k, v) # fs) x =
     (case set_field (fold_name k) v x of
        None \<Rightarrow> None
      | Some y \<Rightarrow> decode_fields set_field fs y)"

fun decode_struct ::
  "(string \<Rightarrow> json \<Rightarrow> 'a \<Rightarrow> 'a option) \<Rightarrow> json \<Rightarrow> 'a \<Rightarrow> 'a option" where
  "decode_struct set_field JNull old = Some old"
| "decode_struct set_field (JObj fs) old = decode_fields set_field fs old"
| "decode_struct set_field _ old = None"

lemma decode_fields_append [simp]:
  "decode_fields set_field (fs @ gs) x =
     (case decode_fields set_field fs x of None \<Rightarrow> None | Some y \<Rightarrow> decode_fields set_field gs y)"
  by (induction fs arbitrary: x) (auto split: option.splits)

lemma decode_slice_map:
  "(\<And>x y. x \<in> set xs \<Longrightarrow> dec (enc x) y = Some x) \<Longrightarrow> decode_slice dec zero (map enc xs) old = Some xs"
  by (induction xs arbitrary: old) simp_all

lemma decode_slice_length: "decode_slice dec zero vs old = Some xs \<Longrightarrow> length xs = length vs"
  by (induction vs arbitrary: xs old) (auto split: option.splits)

text \<open>Decoders into two representations of the same Go type agree if they agree field by field.\<close>

lemma decode_fields_hom:
  "(\<And>k v x. set2 k v (f x) = map_option f (set1 k v x)) \<Longrightarrow>
    decode_fields set2 fs (f x) = map_option f (decode_fields set1 fs x)"
  by (induction fs arbitrary: x) (auto split: option.splits)

lemma decode_struct_hom:
  assumes "\<And>k v x. set2 k v (f x) = map_option f (set1 k v x)"
  shows "decode_struct set2 v (f x) = map_option f (decode_struct set1 v x)"
  by (cases v) (simp_all add: decode_fields_hom [of set2 f set1, OF assms])

lemma decode_slice_hom:
  assumes "\<And>v x. dec2 v (f x) = map_option f (dec1 v x)"
  shows "decode_slice dec2 (f zero) vs (map f old) = map_option (map f) (decode_slice dec1 zero vs old)"
proof (induction vs arbitrary: old)
  case (Cons v vs)
  have "(case map f old of [] \<Rightarrow> f zero | y # _ \<Rightarrow> y) = f (case old of [] \<Rightarrow> zero | y # _ \<Rightarrow> y)"
    by (cases old) simp_all
  with Cons [of "drop 1 old"] assms show ?case
    by (auto simp: option.map_comp comp_def drop_map split: option.splits)
qed simp

lemma decode_list_hom:
  assumes "\<And>v x. dec2 v (f x) = map_option f (dec1 v x)"
  shows "decode_list dec2 (f zero) v (map f old) = map_option (map f) (decode_list dec1 zero v old)"
  by (cases v) (simp_all add: decode_slice_hom [of dec2 f dec1, OF assms])

section \<open>Encoding Go values\<close>

text \<open>
  A \<open>float64\<close> below \<open>10^21\<close> with an integral value is written without a fraction.  A nil slice is
  \<open>null\<close>; the slices here are nil when they are empty.  \<open>omitempty\<close> drops zero values.
\<close>

definition encode_float :: "rat \<Rightarrow> json" where
  "encode_float x = (if of_int (floor x) = x \<and> \<bar>x\<bar> < 10 ^ 21 then JInt (floor x) else JFloat x)"

definition encode_slice :: "('a \<Rightarrow> json) \<Rightarrow> 'a list \<Rightarrow> json" where
  "encode_slice enc xs = (if xs = [] then JNull else JArr (map enc xs))"

definition omitempty :: "bool \<Rightarrow> string \<Rightarrow> json \<Rightarrow> (string \<times> json) list" where
  "omitempty is_zero k v = (if is_zero then [] else [(k, v)])"

lemma decode_encode_float: "is_float64 x \<Longrightarrow> decode_float (encode_float x) old = Some x"
  by (auto simp: encode_float_def is_float64_def f_of_int_def)

lemma decode_encode_slice:
  "(\<And>x y. x \<in> set xs \<Longrightarrow> dec (enc x) y = Some x) \<Longrightarrow>
    decode_list dec zero (encode_slice enc xs) old = Some xs"
  by (simp add: encode_slice_def decode_slice_map)

end
