(* ===== verification/ProxyClient.thy ===== *)
theory ProxyClient
  imports Http Backend
begin

text \<open>
  \<open>internal/proxy/client.go\<close>: the wire types of the chat API and of the backends, and the client that
  sends a request to a backend.  The network is the argument \<open>do\<close>, the outcome of
  \<open>httpClient.Do\<close> for this call (an error, also on timeout, or a reply), and \<open>parse_url\<close> the check of
  \<open>http.NewRequestWithContext\<close>.  The texts of the errors of \<open>encoding/json\<close> are not modelled.
\<close>

section \<open>Wire types\<close>

record chat_message =
  msg_Role :: string
  msg_Content :: string

record chat_request =
  req_Model :: string
  req_Messages :: "chat_message list"
  req_Stream :: bool
  req_MaxTokens :: int
  req_Temperature :: rat
  req_RepetitionPenalty :: rat

record choice =
  ch_Index :: int
  ch_Message :: chat_message
  ch_FinishReason :: string

record usage =
  us_PromptTokens :: int
  us_CompletionTokens :: int
  us_TotalTokens :: int

record chat_response =
  resp_ID :: string
  resp_Object :: string
  resp_Created :: int
  resp_Model :: string
  resp_Choices :: "choice list"
  resp_Usage :: usage

record backend_request =
  breq_Model :: string
  breq_Messages :: "chat_message list"
  breq_Stream :: bool
  breq_MaxTokens :: int
  breq_Temperature :: rat
  breq_RepetitionPenalty :: rat

record backend_response =
  bresp_Model :: string
  bresp_OutputText :: string

definition zero_message :: chat_message where
  "zero_message = \<lparr>msg_Role = [], msg_Content = []\<rparr>"

definition zero_chat_request :: chat_request where
  "zero_chat_request = \<lparr>req_Model = [], req_Messages = [], req_Stream = False, req_MaxTokens = 0,
     req_Temperature = 0, req_RepetitionPenalty = 0\<rparr>"

definition zero_backend_request :: backend_request where
  "zero_backend_request = \<lparr>breq_Model = [], breq_Messages = [], breq_Stream = False, breq_MaxTokens = 0,
     breq_Temperature = 0, breq_RepetitionPenalty = 0\<rparr>"

definition zero_backend_response :: backend_response where
  "zero_backend_response = \<lparr>bresp_Model = [], bresp_OutputText = []\<rparr>"

text \<open>Decoding, field by field under the names of the struct tags.\<close>

definition message_field :: "string \<Rightarrow> json \<Rightarrow> chat_message \<Rightarrow> chat_message option" where
  "message_field k v x =
     (if k = ''role'' then map_option (\<lambda>s. x\<lparr>msg_Role := s\<rparr>) (decode_string v (msg_Role x))
      else if k = ''content'' then map_option (\<lambda>s. x\<lparr>msg_Content := s\<rparr>) (decode_string v (msg_Content x))
      else Some x)"

definition decode_message :: "json \<Rightarrow> chat_message \<Rightarrow> chat_message option" where
  "decode_message = decode_struct message_field"

definition chat_request_field :: "string \<Rightarrow> json \<Rightarrow> chat_request \<Rightarrow> chat_request option" where
  "chat_request_field k v x =
     (if k = ''model'' then map_option (\<lambda>s. x\<lparr>req_Model := s\<rparr>) (decode_string v (req_Model x))
      else if k = ''messages''
        then map_option (\<lambda>l. x\<lparr>req_Messages := l\<rparr>) (decode_list decode_message zero_message v (req_Messages x))
      else if k = ''stream'' then map_option (\<lambda>b. x\<lparr>req_Stream := b\<rparr>) (decode_bool v (req_Stream x))
      else if k = ''max_tokens'' then map_option (\<lambda>n. x\<lparr>req_MaxTokens := n\<rparr>) (decode_int v (req_MaxTokens x))
      else if k = ''temperature''
        then map_option (\<lambda>r. x\<lparr>req_Temperature := r\<rparr>) (decode_float v (req_Temperature x))
      else if k = ''repetition_penalty''
        then map_option (\<lambda>r. x\<lparr>req_RepetitionPenalty := r\<rparr>) (decode_float v (req_RepetitionPenalty x))
      else Some x)"

definition decode_chat_request :: "json \<Rightarrow> chat_request option" where
  "decode_chat_request v = decode_struct chat_request_field v zero_chat_request"

definition backend_request_field :: "string \<Rightarrow> json \<Rightarrow> backend_request \<Rightarrow> backend_request option" where
  "backend_request_field k v x =
     (if k = ''model'' then map_option (\<lambda>s. x\<lparr>breq_Model := s\<rparr>) (decode_string v (breq_Model x))
      else if k = ''messages''
        then map_option (\<lambda>l. x\<lparr>breq_Messages := l\<rparr>) (decode_list decode_message zero_message v (breq_Messages x))
      else if k = ''stream'' then map_option (\<lambda>b. x\<lparr>breq_Stream := b\<rparr>) (decode_bool v (breq_Stream x))
      else if k = ''max_tokens'' then map_option (\<lambda>n. x\<lparr>breq_MaxTokens := n\<rparr>) (decode_int v (breq_MaxTokens x))
      else if k = ''temperature''
        then map_option (\<lambda>r. x\<lparr>breq_Temperature := r\<rparr>) (decode_float v (breq_Temperature x))
      else if k = ''repetition_penalty''
        then map_option (\<lambda>r. x\<lparr>breq_RepetitionPenalty := r\<rparr>) (decode_float v (breq_RepetitionPenalty x))
      else Some x)"

definition decode_backend_request :: "json \<Rightarrow> backend_request option" where
  "decode_backend_request v = decode_struct backend_request_field v zero_backend_request"

definition backend_response_field :: "string \<Rightarrow> json \<Rightarrow> backend_response \<Rightarrow> backend_response option" where
  "backend_response_field k v x =
     (if k = ''model'' then map_option (\<lambda>s. x\<lparr>bresp_Model := s\<rparr>) (decode_string v (bresp_Model x))
      else if k = ''output_text''
        then map_option (\<lambda>s. x\<lparr>bresp_OutputText := s\<rparr>) (decode_string v (bresp_OutputText x))
      else Some x)"

definition decode_backend_response :: "json \<Rightarrow> backend_response option" where
  "decode_backend_response v = decode_struct backend_response_field v zero_backend_response"

text \<open>Encoding.\<close>

definition encode_message :: "chat_message \<Rightarrow> json" where
  "encode_message x = JObj [(''role'', JStr (msg_Role x)), (''content'', JStr (msg_Content x))]"

definition encode_backend_request :: "backend_request \<Rightarrow> json" where
  "encode_backend_request x = JObj (
     [(''model'', JStr (breq_Model x)),
      (''messages'', encode_slice encode_message (breq_Messages x)),
      (''stream'', JBool (breq_Stream x))]
     @ omitempty (breq_MaxTokens x = 0) ''max_tokens'' (JInt (breq_MaxTokens x))
     @ omitempty (breq_Temperature x = 0) ''temperature'' (encode_float (breq_Temperature x))
     @ omitempty (breq_RepetitionPenalty x = 0) ''repetition_penalty''
         (encode_float (breq_RepetitionPenalty x)))"

definition encode_backend_response :: "backend_response \<Rightarrow> json" where
  "encode_backend_response x =
     JObj [(''model'', JStr (bresp_Model x)), (''output_text'', JStr (bresp_OutputText x))]"

definition encode_choice :: "choice \<Rightarrow> json" where
  "encode_choice x = JObj [(''index'', JInt (ch_Index x)), (''message'', encode_message (ch_Message x)),
     (''finish_reason'', JStr (ch_FinishReason x))]"

definition encode_usage :: "usage \<Rightarrow> json" where
  "encode_usage x = JObj [(''prompt_tokens'', JInt (us_PromptTokens x)),
     (''completion_tokens'', JInt (us_CompletionTokens x)), (''total_tokens'', JInt (us_TotalTokens x))]"

definition encode_chat_response :: "chat_response \<Rightarrow> json" where
  "encode_chat_response x = JObj [(''id'', JStr (resp_ID x)), (''object'', JStr (resp_Object x)),
     (''created'', JInt (resp_Created x)), (''model'', JStr (resp_Model x)),
     (''choices'', encode_slice encode_choice (resp_Choices x)), (''usage'', encode_usage (resp_Usage x))]"

section \<open>The client\<close>

record http_call =
  call_method :: string
  call_url :: string
  call_headers :: headers
  call_body :: "json option"

record http_reply =
  reply_status :: int
  reply_body :: "json option"

type_synonym transport = "http_call \<Rightarrow> gerror + http_reply"

definition decode_error :: gerror where
  "decode_error = ErrMsg ''json: cannot decode body''"

definition HealthCheck :: "(string \<Rightarrow> gerror option) \<Rightarrow> transport \<Rightarrow> string \<Rightarrow> gerror option" where
  "HealthCheck parse_url do baseURL =
     (let url = baseURL @ ''/healthz'' in
      case parse_url url of
        Some e \<Rightarrow> Some e
      | None \<Rightarrow>
          (case do \<lparr>call_method = MethodGet, call_url = url, call_headers = Map.empty, call_body = None\<rparr> of
             Inl e \<Rightarrow> Some e
           | Inr resp \<Rightarrow>
               if 400 \<le> reply_status resp
               then Some (ErrMsg (''health check status '' @ itoa (reply_status resp)))
               else None))"

definition estimateTokens :: "string \<Rightarrow> int" where
  "estimateTokens text =
     (let trimmed = TrimSpace text in
      if trimmed = [] then 0
      else
        let runes = int (rune_count trimmed);
            tokens = runes div 4;
            tokens = (if runes mod 4 \<noteq> 0 then tokens + 1 else tokens)
        in if tokens = 0 then 1 else tokens)"

definition estimateTokensFromMessages :: "chat_message list \<Rightarrow> int" where
  "estimateTokensFromMessages messages =
     estimateTokens (concat (map (\<lambda>msg. msg_Content msg @ '' '') messages))"

definition chooseModel :: "string \<Rightarrow> string \<Rightarrow> string" where
  "chooseModel primary fallback =
     (if primary \<noteq> [] then primary else if fallback \<noteq> [] then fallback else ''mock-llm'')"

text \<open>The \<open>BackendRequest\<close> literal of \<open>SendChatCompletion\<close>.\<close>

definition backend_request_of :: "chat_request \<Rightarrow> backend_request" where
  "backend_request_of reqBody =
     \<lparr>breq_Model = req_Model reqBody, breq_Messages = req_Messages reqBody,
      breq_Stream = req_Stream reqBody, breq_MaxTokens = req_MaxTokens reqBody,
      breq_Temperature = req_Temperature reqBody,
      breq_RepetitionPenalty = req_RepetitionPenalty reqBody\<rparr>"

definition SendChatCompletion ::
  "(string \<Rightarrow> gerror option) \<Rightarrow> transport \<Rightarrow> int \<Rightarrow> string \<Rightarrow> chat_request \<Rightarrow> gerror + chat_response" where
  "SendChatCompletion parse_url do now baseURL reqBody =
     (let payload = encode_backend_request (backend_request_of reqBody);
          url = baseURL @ ''/infer''
      in case parse_url url of
           Some e \<Rightarrow> Inl e
         | None \<Rightarrow>
             (case do \<lparr>call_method = MethodPost, call_url = url,
                       call_headers = [''Content-Type'' \<mapsto> ''application/json''], call_body = Some payload\<rparr> of
                Inl e \<Rightarrow> Inl e
              | Inr resp \<Rightarrow>
                  if 400 \<le> reply_status resp
                  then Inl (ErrMsg (''backend status '' @ itoa (reply_status resp)))
                  else
                    (case (case reply_body resp of None \<Rightarrow> None | Some v \<Rightarrow> decode_backend_response v) of
                       None \<Rightarrow> Inl decode_error
                     | Some backendResp \<Rightarrow>
                         let promptTokens = estimateTokensFromMessages (req_Messages reqBody);
                             completionTokens = estimateTokens (bresp_OutputText backendResp)
                         in Inr
                           \<lparr>resp_ID = ''chatcmpl-'' @ itoa now, resp_Object = ''chat.completion'',
                            resp_Created = now,
                            resp_Model = chooseModel (bresp_Model backendResp) (req_Model reqBody),
                            resp_Choices = [\<lparr>ch_Index = 0,
                               ch_Message = \<lparr>msg_Role = ''assistant'',
                                             msg_Content = bresp_OutputText backendResp\<rparr>,
                               ch_FinishReason = ''stop''\<rparr>],
                            resp_Usage = \<lparr>us_PromptTokens = promptTokens,
                               us_CompletionTokens = completionTokens,
                               us_TotalTokens = promptTokens + completionTokens\<rparr>\<rparr>)))"

section \<open>The wire format\<close>

lemma fold_name_fields [simp]:
  "fold_name ''role'' = ''role''" "fold_name ''content'' = ''content''" "fold_name ''model'' = ''model''"
  "fold_name ''messages'' = ''messages''" "fold_name ''stream'' = ''stream''"
  "fold_name ''max_tokens'' = ''max_tokens''" "fold_name ''temperature'' = ''temperature''"
  "fold_name ''repetition_penalty'' = ''repetition_penalty''" "fold_name ''output_text'' = ''output_text''"
  by code_simp+

lemma decode_encode_message [simp]: "decode_message (encode_message x) y = Some x"
  by (simp add: decode_message_def encode_message_def message_field_def)

lemma decode_encode_messages [simp]:
  "decode_list decode_message zero_message (encode_slice encode_message xs) old = Some xs"
  by (rule decode_encode_slice) simp

lemma decode_encode_backend_response [simp]:
  "decode_backend_response (encode_backend_response x) = Some x"
  by (simp add: decode_backend_response_def encode_backend_response_def backend_response_field_def
      zero_backend_response_def)

lemma decode_encode_backend_request:
  assumes "- (2 ^ 63) \<le> breq_MaxTokens x" and "breq_MaxTokens x < 2 ^ 63"
    and "is_float64 (breq_Temperature x)" and "is_float64 (breq_RepetitionPenalty x)"
  shows "decode_backend_request (encode_backend_request x) = Some x"
  using assms
  by (simp add: decode_backend_request_def encode_backend_request_def backend_request_field_def
      zero_backend_request_def omitempty_def decode_encode_float)

text \<open>What was decoded from a request fits the wire format again.\<close>

lemma decode_fields_invariant:
  assumes "decode_fields set_field fs x = Some y" and "P x"
    and "\<And>k v x y. set_field k v x = Some y \<Longrightarrow> P x \<Longrightarrow> P y"
  shows "P y"
  using assms by (induction fs arbitrary: x) (auto split: option.splits)

lemma decode_float_is_float64: "decode_float v old = Some x \<Longrightarrow> is_float64 old \<Longrightarrow> is_float64 x"
  by (cases v) (auto simp: f_of_int_def is_float64_fl split: if_splits)

lemma decode_int_range:
  "decode_int v old = Some n \<Longrightarrow> - (2 ^ 63) \<le> old \<and> old < 2 ^ 63 \<Longrightarrow> - (2 ^ 63) \<le> n \<and> n < 2 ^ 63"
  by (cases v) (auto split: if_splits)

definition chat_request_wf :: "chat_request \<Rightarrow> bool" where
  "chat_request_wf r \<longleftrightarrow> - (2 ^ 63) \<le> req_MaxTokens r \<and> req_MaxTokens r < 2 ^ 63 \<and>
     is_float64 (req_Temperature r) \<and> is_float64 (req_RepetitionPenalty r)"

lemma decode_chat_request_wf:
  assumes "decode_chat_request v = Some r"
  shows "chat_request_wf r"
proof -
  have zero: "chat_request_wf zero_chat_request"
    by (simp add: chat_request_wf_def zero_chat_request_def is_float64_zero)
  have field: "chat_request_wf y" if "chat_request_field k v x = Some y" "chat_request_wf x" for k v x y
    using that by (auto simp: chat_request_field_def chat_request_wf_def
        dest: decode_float_is_float64 decode_int_range split: if_splits)
  show ?thesis
  proof (cases v)
    case (JObj fs)
    with assms have "decode_fields chat_request_field fs zero_chat_request = Some r"
      by (simp add: decode_chat_request_def)
    then show ?thesis using zero field by (rule decode_fields_invariant)
  qed (use assms zero in \<open>simp_all add: decode_chat_request_def\<close>)
qed

text \<open>
  C19: Whatever chat request the router accepts, the backend decodes from the router's \<open>/infer\<close>
  request exactly its model, its messages, its stream flag, its token limit, its temperature and its
  repetition penalty: no field is dropped or mixed up with another when the request is copied, and
  nothing is lost by \<open>omitempty\<close>, by the number formats or by the order of the fields.
\<close>

theorem forwarded_request_roundtrip:
  assumes "decode_chat_request v = Some r"
  shows "decode_backend_request (encode_backend_request (backend_request_of r)) =
    Some \<lparr>breq_Model = req_Model r, breq_Messages = req_Messages r, breq_Stream = req_Stream r,
      breq_MaxTokens = req_MaxTokens r, breq_Temperature = req_Temperature r,
      breq_RepetitionPenalty = req_RepetitionPenalty r\<rparr>"
proof -
  have "chat_request_wf r" using assms by (rule decode_chat_request_wf)
  then have "decode_backend_request (encode_backend_request (backend_request_of r)) = Some (backend_request_of r)"
    by (intro decode_encode_backend_request) (simp_all add: chat_request_wf_def backend_request_of_def)
  then show ?thesis by (simp add: backend_request_of_def)
qed

theorem forwarded_request_roundtrip_witness:
  "decode_backend_request (encode_backend_request (backend_request_of
      \<lparr>req_Model = ''m'', req_Messages = [\<lparr>msg_Role = ''user'', msg_Content = ''hi''\<rparr>], req_Stream = True,
       req_MaxTokens = 5, req_Temperature = 1 / 2, req_RepetitionPenalty = 5 / 4\<rparr>)) =
    Some \<lparr>breq_Model = ''m'', breq_Messages = [\<lparr>msg_Role = ''user'', msg_Content = ''hi''\<rparr>],
       breq_Stream = True, breq_MaxTokens = 5, breq_Temperature = 1 / 2, breq_RepetitionPenalty = 5 / 4\<rparr>"
proof -
  have "fl (1 / 2) = 1 / 2" "fl (5 / 4) = 5 / 4" by code_simp+
  moreover have "fold_name ''Max_Tokens'' = ''max_tokens''" by code_simp
  ultimately have "decode_chat_request (JObj [(''stream'', JBool True), (''repetition_penalty'', JFloat (5 / 4)),
      (''messages'', JArr [JObj [(''role'', JStr ''user''), (''content'', JStr ''hi'')]]),
      (''model'', JStr ''m''), (''Max_Tokens'', JInt 5), (''temperature'', JFloat (1 / 2))]) =
      Some \<lparr>req_Model = ''m'', req_Messages = [\<lparr>msg_Role = ''user'', msg_Content = ''hi''\<rparr>], req_Stream = True,
       req_MaxTokens = 5, req_Temperature = 1 / 2, req_RepetitionPenalty = 5 / 4\<rparr>"
    by (simp add: decode_chat_request_def chat_request_field_def decode_message_def message_field_def
        zero_message_def zero_chat_request_def float_in_range_def)
  from forwarded_request_roundtrip [OF this] show ?thesis by simp
qed

section \<open>Requests to a backend\<close>

lemma estimateTokens_eq:
  "estimateTokens text = \<lceil>of_nat (rune_count (TrimSpace text)) / (4 :: rat)\<rceil>"
proof -
  let ?n = "rune_count (TrimSpace text)"
  have "\<lceil>of_nat ?n / (4 :: rat)\<rceil> = - (- int ?n div 4)"
    using ceiling_divide_eq_div [of "int ?n" 4, where 'a = rat] by simp
  moreover have "TrimSpace text \<noteq> [] \<Longrightarrow> 0 < ?n" by (cases "TrimSpace text") simp_all
  ultimately show ?thesis
    by (cases "TrimSpace text = []") (auto simp: estimateTokens_def Let_def zdiv_zminus1_eq_if)
qed

text \<open>
  \<open>SendChatCompletion\<close> succeeds exactly if the URL is accepted, the backend answers with a
  status below 400 and the body decodes.  The response then carries the backend's text in its only
  choice, the backend's model name (or the requested one, or \<open>mock-llm\<close>), and token counts that
  are the numbers of characters of the trimmed texts divided by four, rounded up.
\<close>

theorem send_chat_completion_result:
  "case SendChatCompletion parse_url net now url r of
     Inl e \<Rightarrow> parse_url (url @ ''/infer'') \<noteq> None \<or>
       (case net \<lparr>call_method = MethodPost, call_url = url @ ''/infer'',
                 call_headers = [''Content-Type'' \<mapsto> ''application/json''],
                 call_body = Some (encode_backend_request (backend_request_of r))\<rparr> of
          Inl e' \<Rightarrow> e = e'
        | Inr reply \<Rightarrow> 400 \<le> reply_status reply \<or> Option.bind (reply_body reply) decode_backend_response = None)
   | Inr resp \<Rightarrow>
       (\<exists>reply b. net \<lparr>call_method = MethodPost, call_url = url @ ''/infer'',
                 call_headers = [''Content-Type'' \<mapsto> ''application/json''],
                 call_body = Some (encode_backend_request (backend_request_of r))\<rparr> = Inr reply \<and>
          reply_status reply < 400 \<and> Option.bind (reply_body reply) decode_backend_response = Some b \<and>
          map (msg_Content \<circ> ch_Message) (resp_Choices resp) = [bresp_OutputText b] \<and>
          resp_Model resp = hd (filter (\<lambda>m. m \<noteq> []) [bresp_Model b, req_Model r, ''mock-llm'']) \<and>
          us_CompletionTokens (resp_Usage resp) = \<lceil>of_nat (rune_count (TrimSpace (bresp_OutputText b))) / (4 :: rat)\<rceil> \<and>
          us_PromptTokens (resp_Usage resp) =
            \<lceil>of_nat (rune_count (TrimSpace (concat (map (\<lambda>m. msg_Content m @ '' '') (req_Messages r))))) / (4 :: rat)\<rceil> \<and>
          us_TotalTokens (resp_Usage resp) = us_PromptTokens (resp_Usage resp) + us_CompletionTokens (resp_Usage resp))"
  by (auto simp: SendChatCompletion_def estimateTokensFromMessages_def estimateTokens_eq chooseModel_def Let_def
      split: option.split sum.split)

theorem send_chat_completion_result_witness:
  "\<exists>resp. SendChatCompletion (\<lambda>_. None)
      (\<lambda>_. Inr \<lparr>reply_status = 200, reply_body = Some (JObj [(''output_text'', JStr ''hello'')])\<rparr>) 7 ''http://b''
      zero_chat_request = Inr resp \<and>
    map (msg_Content \<circ> ch_Message) (resp_Choices resp) = [''hello''] \<and> resp_Model resp = ''mock-llm''"
proof -
  let ?do = "\<lambda>_. Inr \<lparr>reply_status = 200, reply_body = Some (JObj [(''output_text'', JStr ''hello'')])\<rparr> :: gerror + http_reply"
  have "decode_backend_response (JObj [(''output_text'', JStr ''hello'')]) = Some \<lparr>bresp_Model = [], bresp_OutputText = ''hello''\<rparr>"
    by (simp add: decode_backend_response_def backend_response_field_def zero_backend_response_def)
  then show ?thesis
    using send_chat_completion_result [where parse_url = "\<lambda>_. None" and net = ?do and now = 7
        and url = "''http://b''" and r = zero_chat_request]
    by (auto simp: zero_chat_request_def split: sum.splits)
qed

end
