(* ===== verification/ServerConfig.thy ===== *)
theory ServerConfig
  imports Backend CacheStore GoFloat
begin

text \<open>
  \<open>internal/server/config.go\<close>: the configuration read from the environment.  The environment is the
  map \<open>env\<close>; \<open>url.ParseRequestURI\<close> is the argument \<open>parse_uri\<close> of \<open>NewBackend\<close>.
\<close>

section \<open>Environment variables and lists\<close>

definition Getenv :: "(string \<rightharpoonup> string) \<Rightarrow> string \<Rightarrow> string" where
  "Getenv env key = (case env key of None \<Rightarrow> [] | Some v \<Rightarrow> v)"

definition getenv :: "(string \<rightharpoonup> string) \<Rightarrow> string \<Rightarrow> string \<Rightarrow> string" where
  "getenv env key defaultValue = (if Getenv env key \<noteq> [] then Getenv env key else defaultValue)"

fun split_loop :: "string list \<Rightarrow> string list \<Rightarrow> string list" where
  "split_loop [] out = out"
| "split_loop (part # parts) out =
     (let part = TrimSpace part in split_loop parts (if part \<noteq> [] then out @ [part] else out))"

definition splitAndTrim :: "string \<Rightarrow> string list" where
  "splitAndTrim value = split_loop (Split value CHR '','') []"

lemma split_loop_eq: "split_loop parts out = out @ filter (\<lambda>p. p \<noteq> []) (map TrimSpace parts)"
  by (induction parts arbitrary: out) (simp_all add: Let_def)

section \<open>Durations\<close>

text \<open>
  \<open>time.ParseDuration\<close> on its own: a sign, then either \<open>0\<close> or a sequence of decimal numbers with
  optional fractions and a unit each; the amounts are unsigned 64-bit numbers of nanoseconds up to
  \<open>2^63\<close>.  \<open>leading_int\<close> is its \<open>leadingInt\<close> (\<open>None\<close> on overflow), \<open>leading_fraction\<close> its
  \<open>leadingFraction\<close> (further digits are dropped once they overflow; the scale is a \<open>float64\<close>).
\<close>

fun leading_int :: "nat \<Rightarrow> string \<Rightarrow> (nat \<times> string) option" where
  "leading_int x [] = Some (x, [])"
| "leading_int x (c # s) =
     (if \<not> is_digit c then Some (x, c # s)
      else if 2 ^ 63 div 10 < x then None
      else
        let y = 10 * x + (byte c - 48)
        in if 2 ^ 63 < y then None else leading_int y s)"

fun leading_fraction :: "nat \<Rightarrow> rat \<Rightarrow> bool \<Rightarrow> string \<Rightarrow> nat \<times> rat \<times> string" where
  "leading_fraction x scale overflow [] = (x, scale, [])"
| "leading_fraction x scale overflow (c # s) =
     (if \<not> is_digit c then (x, scale, c # s)
      else if overflow then leading_fraction x scale True s
      else if (2 ^ 63 - 1) div 10 < x then leading_fraction x scale True s
      else
        let y = 10 * x + (byte c - 48)
        in if 2 ^ 63 < y then leading_fraction x scale True s
           else leading_fraction y (fmul scale 10) False s)"

definition unit_map :: "string \<rightharpoonup> nat" where
  "unit_map = map_of
     [(''ns'', 1), (''us'', 10 ^ 3), ([CHR 0xC2, CHR 0xB5, CHR ''s''], 10 ^ 3),
      ([CHR 0xCE, CHR 0xBC, CHR ''s''], 10 ^ 3), (''ms'', 10 ^ 6), (''s'', 10 ^ 9),
      (''m'', 60 * 10 ^ 9), (''h'', 3600 * 10 ^ 9)]"

text \<open>One number with its unit: the amount in nanoseconds and the rest of the text.\<close>

definition duration_item :: "string \<Rightarrow> (nat \<times> string) option" where
  "duration_item s =
     (case s of
        [] \<Rightarrow> None
      | c # _ \<Rightarrow>
          if \<not> (c = CHR ''.'' \<or> is_digit c) then None
          else
            (case leading_int 0 s of
               None \<Rightarrow> None
             | Some (v, s1) \<Rightarrow>
                 let pre = (length s \<noteq> length s1);
                     (f, scale, s2, post) =
                       (if s1 \<noteq> [] \<and> hd s1 = CHR ''.''
                        then (let (f, scale, s2) = leading_fraction 0 1 False (tl s1)
                              in (f, scale, s2, length (tl s1) \<noteq> length s2))
                        else (0, 1, s1, False));
                     u = takeWhile (\<lambda>c. \<not> (c = CHR ''.'' \<or> is_digit c)) s2;
                     s3 = drop (length u) s2
                 in if \<not> pre \<and> \<not> post then None
                    else if u = [] then None
                    else
                      (case unit_map u of
                         None \<Rightarrow> None
                       | Some unit \<Rightarrow>
                           if 2 ^ 63 div unit < v then None
                           else
                             let v = v * unit;
                                 v = (if 0 < f
                                      then v + nat (trunc (fmul (f_of_int (int f)) (fdiv (f_of_int (int unit)) scale)))
                                      else v)
                             in if 2 ^ 63 < v then None else Some (v, s3))))"

function duration_items :: "nat \<Rightarrow> string \<Rightarrow> nat option" where
  "duration_items d s =
     (if s = [] then Some d
      else
        (case duration_item s of
           None \<Rightarrow> None
         | Some (v, rest) \<Rightarrow>
             if length s \<le> length rest then None
             else if 2 ^ 63 < d + v then None
             else duration_items (d + v) rest))"
  by pat_completeness auto
termination by (relation "measure (length \<circ> snd)") auto

declare duration_items.simps [simp del]

lemma duration_items_Nil [simp]: "duration_items d [] = Some d"
  by (subst duration_items.simps) simp

lemma duration_items_last [simp]:
  "duration_item s = Some (v, []) \<Longrightarrow> s \<noteq> [] \<Longrightarrow>
    duration_items d s = (if 2 ^ 63 < d + v then None else Some (d + v))"
  by (subst duration_items.simps) simp

definition ParseDuration :: "string \<Rightarrow> int option" where
  "ParseDuration s =
     (let neg = (s \<noteq> [] \<and> hd s = CHR ''-'');
          s = (if s \<noteq> [] \<and> (hd s = CHR ''-'' \<or> hd s = CHR ''+'') then tl s else s)
      in if s = ''0'' then Some 0
         else if s = [] then None
         else
           (case duration_items 0 s of
              None \<Rightarrow> None
            | Some d \<Rightarrow>
                if neg then Some (- int d)
                else if 2 ^ 63 - 1 < d then None
                else Some (int d)))"

definition durationFromEnv :: "(string \<rightharpoonup> string) \<Rightarrow> string \<Rightarrow> int \<Rightarrow> int" where
  "durationFromEnv env key fallback =
     (let value = Getenv env key in
      if value = [] then fallback
      else
        (case ParseDuration value of
           None \<Rightarrow> fallback
         | Some parsed \<Rightarrow> parsed))"

section \<open>The configuration\<close>

text \<open>
  The \<open>AffinityStore\<close> is either the Redis store of an address or a new in-memory store; durations are
  nanoseconds.
\<close>

datatype store_choice = RedisAt string | InMemory

record config =
  cfg_ListenAddr :: string
  cfg_Backends :: "baddr list"
  cfg_ProbeInterval :: int
  cfg_BackendRequestTimout :: int
  cfg_AffinityStore :: store_choice
  cfg_CacheTTL :: int

definition error_text :: "gerror \<Rightarrow> string" where
  "error_text e = (case e of ErrNoHealthyBackend \<Rightarrow> ''no healthy backend available'' | ErrMsg s \<Rightarrow> s)"

text \<open>\<open>for idx, raw := range backendURLs\<close>, with \<open>idx\<close> counted from the start.\<close>

fun load_backends ::
  "(string \<Rightarrow> gerror option) \<Rightarrow> nat \<Rightarrow> string list \<Rightarrow> baddr list \<Rightarrow> mem \<Rightarrow> baddr list outcome \<times> mem" where
  "load_backends parse_uri idx [] backends m = (Ok backends, m)"
| "load_backends parse_uri idx (raw # raws) backends m =
     (case NewBackend parse_uri (''backend-'' @ itoa (int (idx + 1))) raw m of
        (Err e, m') \<Rightarrow> (Err (ErrMsg (''invalid backend '' @ quote raw @ '': '' @ error_text e)), m')
      | (Panic, m') \<Rightarrow> (Panic, m')
      | (Ok backend, m') \<Rightarrow> load_backends parse_uri (idx + 1) raws (backends @ [backend]) m')"

definition LoadConfigFromEnv ::
  "(string \<Rightarrow> gerror option) \<Rightarrow> (string \<rightharpoonup> string) \<Rightarrow> mem \<Rightarrow> config outcome \<times> mem" where
  "LoadConfigFromEnv parse_uri env m =
     (let listenAddr = getenv env ''INFERFLOW_LISTEN_ADDR'' '':8080'';
          backendURLs = splitAndTrim (getenv env ''INFERFLOW_BACKENDS'' ''http://localhost:9000'')
      in if length backendURLs = 0
         then (Err (ErrMsg ''INFERFLOW_BACKENDS must contain at least one backend URL''), m)
         else
           (case load_backends parse_uri 0 backendURLs [] m of
              (Err e, m') \<Rightarrow> (Err e, m')
            | (Panic, m') \<Rightarrow> (Panic, m')
            | (Ok backends, m') \<Rightarrow>
                let redisAddr = TrimSpace (getenv env ''INFERFLOW_REDIS_ADDR'' []);
                    affinityStore = (if redisAddr \<noteq> [] then RedisAt redisAddr else InMemory)
                in (Ok \<lparr>cfg_ListenAddr = listenAddr, cfg_Backends = backends,
                        cfg_ProbeInterval = 2 * 1000000000, cfg_BackendRequestTimout = 10 * 1000000000,
                        cfg_AffinityStore = affinityStore,
                        cfg_CacheTTL = durationFromEnv env ''INFERFLOW_CACHE_TTL'' (10 * 60 * 1000000000)\<rparr>,
                    m')))"

section \<open>Lemmas\<close>

lemma splitAndTrim_eq:
  "splitAndTrim value = filter (\<lambda>p. p \<noteq> []) (map TrimSpace (Split value CHR '',''))"
  by (simp add: splitAndTrim_def split_loop_eq)

definition backend_name :: "nat \<Rightarrow> string" where
  "backend_name i = ''backend-'' @ itoa (int i)"

lemma backend_name_inject [simp]: "backend_name i = backend_name j \<longleftrightarrow> i = j"
  by (simp add: backend_name_def)

lemma TrimSpace_backend_name [simp]: "TrimSpace (backend_name i) = backend_name i"
proof (rule TrimSpace_visible)
  have "is_digit (last (backend_name i))"
    using last_itoa [of "int i"] by (simp add: backend_name_def itoa_def)
  then show "visible (last (backend_name i))" by (simp add: is_digit_def visible_def byte_in_def)
qed (simp_all add: backend_name_def visible_def byte_in_def)

lemma backend_name_not_Nil [simp]: "backend_name i \<noteq> []"
  by (simp add: backend_name_def)

lemma load_backends_Ok:
  assumes "load_backends parse_uri idx raws bs m = (Ok bs', m')"
  shows "bs' = bs @ [mem_next_backend m ..< mem_next_backend m + length raws] \<and>
    mem_next_backend m' = mem_next_backend m + length raws \<and>
    (\<forall>b<mem_next_backend m. mem_backend m' b = mem_backend m b) \<and>
    (\<forall>i<length raws. let b = mem_next_backend m + i in
        Name m' b = backend_name (idx + i + 1) \<and> BaseURL m' b = TrimRight (raws ! i) CHR ''/'' \<and> Healthy m' b)"
  using assms
proof (induction raws arbitrary: idx bs m)
  case (Cons raw raws)
  from Cons.prems obtain b m1 where new: "NewBackend parse_uri (backend_name (idx + 1)) raw m = (Ok b, m1)"
    and rest: "load_backends parse_uri (idx + 1) raws (bs @ [b]) m1 = (Ok bs', m')"
    by (auto simp: backend_name_def split: prod.splits outcome.splits)
  note IH = Cons.IH [OF rest]
  note nb = NewBackend_Ok [OF new]
  have b: "mem_backend m' b = mem_backend m1 b" using IH nb by simp
  have "let b = mem_next_backend m + i in Name m' b = backend_name (idx + i + 1) \<and>
      BaseURL m' b = TrimRight ((raw # raws) ! i) CHR ''/'' \<and> Healthy m' b" if "i < length (raw # raws)" for i
  proof (cases i)
    case 0
    with b nb show ?thesis by (simp add: Name_def BaseURL_def Healthy_def)
  next
    case (Suc j)
    with IH nb(1,5) that show ?thesis by (simp add: Let_def)
  qed
  moreover have "bs' = bs @ [mem_next_backend m ..< mem_next_backend m + length (raw # raws)]"
    using IH nb(1,5) by (simp add: upt_conv_Cons del: upt_Suc)
  ultimately show ?case using IH nb by auto
qed simp

section \<open>Properties\<close>

text \<open>
  C29: The configuration from the environment has one backend for every non-blank entry of
  \<open>INFERFLOW_BACKENDS\<close>, in that order, healthy, with its own name (\<open>backend-1\<close>, \<open>backend-2\<close>, ...) and
  the entry without trailing slashes as its base URL; there is at least one, and no two backends are
  the same object or share a name.
\<close>

theorem config_backends:
  assumes "LoadConfigFromEnv parse_uri env m = (Ok cfg, m')"
  shows "let urls = filter (\<lambda>p. p \<noteq> []) (map TrimSpace (Split (getenv env ''INFERFLOW_BACKENDS''
                ''http://localhost:9000'') CHR '',''))
    in cfg_Backends cfg \<noteq> [] \<and> distinct (cfg_Backends cfg) \<and> inj_on (Name m') (set (cfg_Backends cfg)) \<and>
       map (Name m') (cfg_Backends cfg) = map (\<lambda>i. ''backend-'' @ itoa (int i)) [1..<Suc (length urls)] \<and>
       map (BaseURL m') (cfg_Backends cfg) = map (\<lambda>u. TrimRight u CHR ''/'') urls \<and>
       (\<forall>b\<in>set (cfg_Backends cfg). Healthy m' b)"
proof -
  let ?urls = "splitAndTrim (getenv env ''INFERFLOW_BACKENDS'' ''http://localhost:9000'')"
  from assms have urls: "?urls \<noteq> []" and load: "load_backends parse_uri 0 ?urls [] m = (Ok (cfg_Backends cfg), m')"
    by (auto simp: LoadConfigFromEnv_def Let_def split: if_splits prod.splits outcome.splits)
  let ?n = "mem_next_backend m"
  note spec = load_backends_Ok [OF load]
  then have bs: "cfg_Backends cfg = [?n ..< ?n + length ?urls]" by simp
  have names: "map (Name m') (cfg_Backends cfg) = map backend_name [1..<Suc (length ?urls)]"
    using spec by (intro nth_equalityI) (auto simp: bs Let_def nth_append simp del: upt_Suc)
  have "map (BaseURL m') (cfg_Backends cfg) = map (\<lambda>u. TrimRight u CHR ''/'') ?urls"
    using spec by (intro nth_equalityI) (auto simp: bs Let_def)
  moreover have "inj_on (Name m') (set (cfg_Backends cfg))"
  proof -
    have "distinct (map (Name m') (cfg_Backends cfg))"
      unfolding names by (simp add: distinct_map inj_on_def del: upt_Suc)
    then show ?thesis by (simp add: distinct_map)
  qed
  moreover have "Healthy m' b" if "b \<in> set (cfg_Backends cfg)" for b
  proof -
    from that have "b - ?n < length ?urls" "?n + (b - ?n) = b" by (auto simp: bs)
    with spec show ?thesis by (metis (no_types, lifting))
  qed
  ultimately show ?thesis
    using urls names unfolding Let_def splitAndTrim_eq [symmetric]
    by (simp add: bs backend_name_def [abs_def] del: upt_Suc)
qed

theorem config_backends_witness:
  "\<exists>cfg m'. LoadConfigFromEnv (\<lambda>_. None) [''INFERFLOW_BACKENDS'' \<mapsto> '' http://a/, ,http://b''] empty_mem = (Ok cfg, m') \<and>
    map (Name m') (cfg_Backends cfg) = [''backend-1'', ''backend-2''] \<and>
    map (BaseURL m') (cfg_Backends cfg) = [''http://a'', ''http://b'']"
proof -
  let ?env = "[''INFERFLOW_BACKENDS'' \<mapsto> '' http://a/, ,http://b'']"
  have env: "getenv ?env ''INFERFLOW_BACKENDS'' ''http://localhost:9000'' = '' http://a/, ,http://b''"
    by (simp add: getenv_def Getenv_def)
  have urls: "filter (\<lambda>p. p \<noteq> []) (map TrimSpace (Split '' http://a/, ,http://b'' CHR '','')) = [''http://a/'', ''http://b'']"
    by code_simp
  have split: "splitAndTrim '' http://a/, ,http://b'' = [''http://a/'', ''http://b'']"
    by code_simp
  have names: "[''backend-'' @ itoa 1, ''backend-'' @ itoa 2] = [''backend-1'', ''backend-2'']"
    "TrimRight ''http://a/'' CHR ''/'' = ''http://a''" "TrimRight ''http://b'' CHR ''/'' = ''http://b''"
    by code_simp+
  obtain cfg m' where load: "LoadConfigFromEnv (\<lambda>_. None) ?env empty_mem = (Ok cfg, m')"
    by (simp add: LoadConfigFromEnv_def env split NewBackend_def Let_def)
  from config_backends [OF load] show ?thesis
    unfolding env urls Let_def using load names by simp
qed

lemma leading_int_digits:
  "list_all is_digit ds \<Longrightarrow> foldl (\<lambda>acc c. 10 * acc + (byte c - 48)) x ds \<le> 2 ^ 63 \<Longrightarrow>
    (rest = [] \<or> \<not> is_digit (hd rest)) \<Longrightarrow>
    leading_int x (ds @ rest) = Some (foldl (\<lambda>acc c. 10 * acc + (byte c - 48)) x ds, rest)"
proof (induction ds arbitrary: x)
  case Nil
  then show ?case by (cases rest) simp_all
next
  case (Cons c ds)
  have mono: "y \<le> foldl (\<lambda>acc c. 10 * acc + (byte c - 48)) y ds" for y ds
  proof (induction ds arbitrary: y)
    case (Cons d ds)
    from Cons [of "10 * y + (byte d - 48)"] show ?case by simp
  qed simp
  have "10 * x + (byte c - 48) \<le> 2 ^ 63"
    using Cons.prems(2) mono [of "10 * x + (byte c - 48)" ds] by simp
  with Cons show ?case by simp
qed

lemma unit_map_units:
  assumes "unit_map u = Some k"
  shows "u \<noteq> []" and "\<forall>c\<in>set u. \<not> (c = CHR ''.'' \<or> is_digit c)" and "0 < k"
proof -
  let ?units = "[(''ns'', 1), (''us'', 10 ^ 3), ([CHR 0xC2, CHR 0xB5, CHR ''s''], 10 ^ 3),
      ([CHR 0xCE, CHR 0xBC, CHR ''s''], 10 ^ 3), (''ms'', 10 ^ 6), (''s'', 10 ^ 9),
      (''m'', 60 * 10 ^ 9), (''h'', 3600 * 10 ^ 9)] :: (string \<times> nat) list"
  have "\<forall>(u, k)\<in>set ?units. u \<noteq> [] \<and> (\<forall>c\<in>set u. \<not> (c = CHR ''.'' \<or> is_digit c)) \<and> 0 < k"
    by (simp add: is_digit_def byte_in_def)
  moreover have "(u, k) \<in> set ?units"
    using assms unfolding unit_map_def by (rule map_of_SomeD)
  ultimately show "u \<noteq> []" and "\<forall>c\<in>set u. \<not> (c = CHR ''.'' \<or> is_digit c)" and "0 < k"
    by blast+
qed

lemma duration_item_whole:
  assumes "unit_map u = Some k" and "n * k < 2 ^ 63"
  shows "duration_item (nat_str n @ u) = Some (n * k, [])"
proof -
  note unit = unit_map_units [OF assms(1)]
  obtain c t where ns: "nat_str n = c # t" and c: "is_digit c"
    using hd_nat_str [of n] by (cases "nat_str n") simp_all
  have "n \<le> n * k" using unit(3) by simp
  then have "n \<le> 2 ^ 63" using assms(2) by linarith
  then have lead: "leading_int 0 (nat_str n @ u) = Some (n, u)"
    using leading_int_digits [OF nat_str_digits, of 0 n u] unit(1,2) digits_val_nat_str [of n]
    by (simp add: digits_val_def)
  have fits: "\<not> 2 ^ 63 div k < n"
    using assms(2) unit(3) by (simp add: not_less less_eq_div_iff_mult_less_eq)
  show ?thesis
    using unit lead assms fits c
    unfolding duration_item_def ns
    by (simp add: Let_def takeWhile_eq_all_conv [THEN iffD2] del: leading_int.simps)
qed

text \<open>
  A duration given as a whole number with any of the units is read from the environment exactly;
  an unset variable or a text that is not a duration leaves the fallback.
\<close>

theorem cache_ttl_from_env:
  assumes "unit_map u = Some k" and "n * k < 2 ^ 63"
  shows "durationFromEnv (env(key \<mapsto> itoa (int n) @ u)) key fallback = int (n * k) \<and>
    (Getenv env key = [] \<or> ParseDuration (Getenv env key) = None \<longrightarrow> durationFromEnv env key fallback = fallback)"
proof
  let ?s = "nat_str n @ u"
  note unit = unit_map_units [OF assms(1)]
  have hd: "?s \<noteq> []" "hd ?s = hd (nat_str n)" by simp_all
  have "last ?s = last u" "\<not> is_digit (last u)" using unit(1,2) by simp_all
  moreover have "is_digit (last ''0'')" by (simp add: is_digit_def byte_in_def)
  ultimately have "?s \<noteq> ''0''" by metis
  then have "ParseDuration ?s = Some (int (n * k))"
    using assms(2) hd duration_item_whole [OF assms] unit
    by (simp add: ParseDuration_def Let_def)
  then show "durationFromEnv (env(key \<mapsto> itoa (int n) @ u)) key fallback = int (n * k)"
    by (simp add: durationFromEnv_def Getenv_def itoa_def)
  show "Getenv env key = [] \<or> ParseDuration (Getenv env key) = None \<longrightarrow> durationFromEnv env key fallback = fallback"
    by (auto simp: durationFromEnv_def Let_def)
qed

theorem cache_ttl_from_env_witness:
  "durationFromEnv [''INFERFLOW_CACHE_TTL'' \<mapsto> ''90m''] ''INFERFLOW_CACHE_TTL'' 0 = 90 * (60 * 10 ^ 9)"
proof -
  have "unit_map ''m'' = Some (60 * 10 ^ 9)" by (simp add: unit_map_def)
  moreover have "itoa (int 90) @ ''m'' = ''90m''" by code_simp
  ultimately show ?thesis
    using cache_ttl_from_env [of "''m''" "60 * 10 ^ 9" 90 Map.empty "''INFERFLOW_CACHE_TTL''" 0] by simp
qed

end
