(* ===== verification/Server.thy ===== *)
theory Server
  imports Dispatch Metrics ProxyClient ServerConfig
begin

text \<open>
  \<open>internal/server/server.go\<close>: the router's state and its HTTP handlers.  The affinity store is a
  state \<open>'st\<close> with the operations a request uses as arguments; \<open>New\<close> guarantees that there is one.
  A chat request is split where the code waits for the backend, so that requests can interleave: the
  part up to the call (\<open>chat_begin\<close>) and the part after it with the deferred calls (\<open>chat_finish\<close>).
  Spans (\<open>internal/otel\<close>) do nothing and are left out; the server's context is only handed on.
\<close>

section \<open>State\<close>

record 'st server =
  srv_backends :: "baddr list"
  srv_cacheTTL :: int
  srv_metrics :: metrics_state
  srv_store :: 'st
  srv_strategy :: strategy_obj
  srv_strategyName :: string

definition New :: "baddr list \<Rightarrow> int \<Rightarrow> 'st \<Rightarrow> 'st server" where
  "New backends ttl store =
     (let rr = NewRoundRobin backends in
      \<lparr>srv_backends = backends, srv_cacheTTL = ttl, srv_metrics = new_metrics, srv_store = store,
       srv_strategy = SRoundRobin rr, srv_strategyName = RoundRobin_Name\<rparr>)"

definition activeStrategy :: "'st server \<Rightarrow> string \<times> strategy_obj" where
  "activeStrategy s = (srv_strategyName s, srv_strategy s)"

section \<open>Choosing a strategy\<close>

definition normalizeStrategyName :: "string \<Rightarrow> gerror + string" where
  "normalizeStrategyName raw =
     (let name = ToLower (TrimSpace raw);
          name = ReplaceAll name CHR ''-'' CHR ''_''
      in if name = [] then Inl (ErrMsg ''strategy is required'')
         else if name \<in> {StrategyRoundRobin, StrategyLeastPending, StrategyRandom, StrategyKVAware}
         then Inr name
         else Inl (ErrMsg ''unsupported strategy''))"

definition setStrategy ::
  "string \<Rightarrow> 'st server \<Rightarrow> mem \<Rightarrow> (gerror + string) \<times> 'st server \<times> mem" where
  "setStrategy raw s m =
     (case normalizeStrategyName raw of
        Inl e \<Rightarrow> (Inl e, s, m)
      | Inr name \<Rightarrow>
          (let next =
             (if name = StrategyRoundRobin then Some (SRoundRobin (NewRoundRobin (srv_backends s)), m)
              else if name = StrategyLeastPending
              then (case NewLeastPending (srv_backends s) m of (x, m') \<Rightarrow> Some (SLeastPending x, m'))
              else if name = StrategyRandom then Some (SRandom (NewRandom (srv_backends s)), m)
              else if name = StrategyKVAware
              then (case NewKVAware (srv_backends s) True m of (x, m') \<Rightarrow> Some (SKVAware x, m'))
              else None)
           in case next of
                None \<Rightarrow> (Inl (ErrMsg ''unsupported strategy''), s, m)
              | Some (so, m') \<Rightarrow> (Inr name, s\<lparr>srv_strategy := so, srv_strategyName := name\<rparr>, m')))"

section \<open>Requests\<close>

definition validateChatRequest :: "chat_request \<Rightarrow> gerror option" where
  "validateChatRequest req =
     (if TrimSpace (req_Model req) = [] then Some (ErrMsg ''model is required'')
      else if length (req_Messages req) = 0 then Some (ErrMsg ''messages must not be empty'')
      else None)"

text \<open>The loop over the messages that adds up \<open>totalBytes\<close>, and the rounding.\<close>

fun total_bytes :: "chat_message list \<Rightarrow> int \<Rightarrow> int" where
  "total_bytes [] totalBytes = totalBytes"
| "total_bytes (msg # msgs) totalBytes =
     total_bytes msgs (totalBytes + int (length (TrimSpace (msg_Content msg))))"

definition estimateRequestCost :: "chat_message list \<Rightarrow> int" where
  "estimateRequestCost messages =
     (let totalBytes = total_bytes messages 0 in
      if totalBytes = 0 then 1
      else
        let cost = totalBytes div 4;
            cost = (if totalBytes mod 4 \<noteq> 0 then cost + 1 else cost)
        in if cost = 0 then 1 else cost)"

text \<open>
  What \<open>buildCacheKey\<close> hashes, and the key; \<open>sha256.Sum256\<close> is the argument \<open>sha\<close>, used for nothing
  but its first 16 bytes.
\<close>

definition cache_payload :: "string \<Rightarrow> chat_message list \<Rightarrow> string" where
  "cache_payload model messages =
     TrimSpace (TrimSpace model @ newline @
       concat (map (\<lambda>msg. TrimSpace (msg_Role msg) @ '':'' @ TrimSpace (msg_Content msg) @ newline) messages))"

definition buildCacheKey :: "(string \<Rightarrow> string) \<Rightarrow> string \<Rightarrow> chat_message list \<Rightarrow> string" where
  "buildCacheKey sha model messages =
     (let payload = cache_payload model messages in
      if payload = [] then []
      else ''inferflow:prefix:'' @ hex_encode (take 16 (sha payload)))"

section \<open>The chat handler\<close>

text \<open>
  What a request meets outside the router: the generator of \<open>random\<close>, the hash, the affinity store's
  operations at the times they are called, and the number of milliseconds the backend took.
\<close>

record 'st chat_env =
  ce_intn :: "nat list \<Rightarrow> nat \<Rightarrow> nat"
  ce_sha :: "string \<Rightarrow> string"
  ce_preferred :: "string \<Rightarrow> 'st \<Rightarrow> (gerror + string \<times> bool) \<times> 'st"
  ce_remember :: "string \<Rightarrow> string \<Rightarrow> int \<Rightarrow> 'st \<Rightarrow> gerror option \<times> 'st"
  ce_elapsed :: int

text \<open>The local variables a request keeps while its backend works.\<close>

record pending_chat =
  pc_decision :: decision
  pc_request :: chat_request
  pc_cacheKey :: string
  pc_headers :: headers

datatype chat_progress = Replied response | Aborted | Waiting pending_chat

definition record_kv :: "string \<Rightarrow> decision \<Rightarrow> metrics_state \<Rightarrow> metrics_state" where
  "record_kv strategyName d ms =
     (if strategyName = StrategyKVAware
      then (if decision_CacheHit d then IncKVCacheHit ms else IncKVCacheMiss ms)
      else ms)"

definition chat_headers :: "headers \<Rightarrow> string \<Rightarrow> string \<Rightarrow> decision \<Rightarrow> headers" where
  "chat_headers h backendName strategyName d =
     (let h = h(''X-Inferflow-Backend'' \<mapsto> backendName, ''X-Inferflow-Strategy'' \<mapsto> strategyName) in
      if strategyName = StrategyKVAware
      then h(''X-Inferflow-Cache-Hit'' \<mapsto> (if decision_CacheHit d then ''true'' else ''false''))
      else h)"

definition chat_begin ::
  "'st chat_env \<Rightarrow> headers \<Rightarrow> request \<Rightarrow> 'st server \<Rightarrow> mem \<Rightarrow> chat_progress \<times> 'st server \<times> mem" where
  "chat_begin env h r s m =
     (if rq_method r \<noteq> MethodPost then (Replied (http_Error h ''method not allowed'' 405), s, m)
      else
        (case Option.bind (rq_body r) decode_chat_request of
           None \<Rightarrow> (Replied (http_Error h ''invalid json'' 400), s, m)
         | Some req \<Rightarrow>
             (case validateChatRequest req of
                Some e \<Rightarrow> (Replied (http_Error h (error_text e) 400), s, m)
              | None \<Rightarrow>
                  let s = s\<lparr>srv_metrics := IncRequestsTotal (srv_metrics s)\<rparr>;
                      estimatedCost = estimateRequestCost (req_Messages req);
                      cacheKey = buildCacheKey (ce_sha env) (req_Model req) (req_Messages req);
                      (strategyName, strategy) = activeStrategy s;
                      (sel, m, strategy, store) =
                        strat_Select (ce_intn env) (ce_preferred env)
                          \<lparr>input_EstimatedCost = word_of_int estimatedCost, input_CacheKey = cacheKey\<rparr>
                          m (strategy, srv_store s);
                      s = s\<lparr>srv_strategy := strategy, srv_store := store\<rparr>
                  in (case sel of
                        Panic \<Rightarrow> (Aborted, s, m)
                      | Err e \<Rightarrow> (Replied (http_Error h ''no healthy backend available'' 503), s, m)
                      | Ok decision \<Rightarrow>
                          let backend = decision_Backend decision;
                              ms = RecordStrategy strategyName (srv_metrics s);
                              ms = RecordBackend (Name m backend) ms;
                              ms = record_kv strategyName decision ms;
                              h = chat_headers h (Name m backend) strategyName decision;
                              ms = IncInFlight ms
                          in (Waiting \<lparr>pc_decision = decision, pc_request = req, pc_cacheKey = cacheKey,
                                       pc_headers = h\<rparr>,
                              s\<lparr>srv_metrics := ms\<rparr>, m)))))"

definition recordAffinity :: "'st chat_env \<Rightarrow> string \<Rightarrow> string \<Rightarrow> 'st server \<Rightarrow> 'st server" where
  "recordAffinity env cacheKey backendName s =
     (if cacheKey = [] \<or> backendName = [] then s
      else s\<lparr>srv_store := snd (ce_remember env cacheKey backendName (srv_cacheTTL s) (srv_store s))\<rparr>)"

text \<open>
  After the call: \<open>resp\<close> is what \<open>SendChatCompletion\<close> returned.  The deferred calls run last, the
  decrement of the in-flight gauge before the release of the decision.
\<close>

definition chat_finish ::
  "'st chat_env \<Rightarrow> gerror + chat_response \<Rightarrow> pending_chat \<Rightarrow> 'st server \<Rightarrow> mem \<Rightarrow> response \<times> 'st server \<times> mem" where
  "chat_finish env resp p s m =
     (let backend = decision_Backend (pc_decision p);
          s = s\<lparr>srv_metrics := RecordLatency (Name m backend) (f_of_int (ce_elapsed env)) (srv_metrics s)\<rparr>;
          (r, s, m) =
            (case resp of
               Inl e \<Rightarrow>
                 (http_Error (pc_headers p) ''backend request failed'' 502,
                  s\<lparr>srv_metrics := IncBackendErrors (srv_metrics s)\<rparr>,
                  SetHealthy backend False m)
             | Inr resp \<Rightarrow>
                 (writeJSON (pc_headers p) 200 (encode_chat_response resp),
                  recordAffinity env (pc_cacheKey p) (Name m backend) s, m));
          s = s\<lparr>srv_metrics := DecInFlight (srv_metrics s)\<rparr>;
          (_, m) = Release (pc_decision p) m
      in (r, s, m))"

definition handleChatCompletions ::
  "'st chat_env \<Rightarrow> (string \<Rightarrow> gerror option) \<Rightarrow> transport \<Rightarrow> int \<Rightarrow>
   headers \<Rightarrow> request \<Rightarrow> 'st server \<Rightarrow> mem \<Rightarrow> response outcome \<times> 'st server \<times> mem" where
  "handleChatCompletions env parse_url do now h r s m =
     (case chat_begin env h r s m of
        (Replied resp, s, m) \<Rightarrow> (Ok resp, s, m)
      | (Aborted, s, m) \<Rightarrow> (Panic, s, m)
      | (Waiting p, s, m) \<Rightarrow>
          (let resp = SendChatCompletion parse_url do now
                 (BaseURL m (decision_Backend (pc_decision p))) (pc_request p)
           in case chat_finish env resp p s m of (r, s, m) \<Rightarrow> (Ok r, s, m)))"

section \<open>Health probes\<close>

text \<open>
  \<open>probeBackends\<close>: the loop over the configured backends; \<open>do i\<close> is the network at the time of the
  \<open>i\<close>-th probe of this round.
\<close>

fun probe_loop ::
  "(string \<Rightarrow> gerror option) \<Rightarrow> (nat \<Rightarrow> transport) \<Rightarrow> nat \<Rightarrow> baddr list \<Rightarrow> mem \<Rightarrow> mem" where
  "probe_loop parse_url do i [] m = m"
| "probe_loop parse_url do i (backend # bs) m =
     (let err = HealthCheck parse_url (do i) (BaseURL m backend)
      in probe_loop parse_url do (i + 1) bs (SetHealthy backend (err = None) m))"

definition probeBackends ::
  "(string \<Rightarrow> gerror option) \<Rightarrow> (nat \<Rightarrow> transport) \<Rightarrow> 'st server \<Rightarrow> mem \<Rightarrow> mem" where
  "probeBackends parse_url do s m = probe_loop parse_url do 0 (srv_backends s) m"

section \<open>The other handlers\<close>

text \<open>A Go map encodes with its keys in increasing order.\<close>

definition handleHealthz :: "headers \<Rightarrow> 'st server \<Rightarrow> response" where
  "handleHealthz h s = writeJSON h 200
     (JObj [(''in_flight'', JInt (sint (InFlight (srv_metrics s)))), (''status'', JStr ''ok'')])"

definition handleReadyz :: "headers \<Rightarrow> 'st server \<Rightarrow> mem \<Rightarrow> response" where
  "handleReadyz h s m =
     (let (_, strategy) = activeStrategy s in
      if \<not> strat_HasHealthyBackend m strategy
      then writeJSON h 503 (JObj [(''status'', JStr ''no healthy backend'')])
      else writeJSON h 200 (JObj [(''status'', JStr ''ready'')]))"

definition strategy_field :: "string \<Rightarrow> json \<Rightarrow> string \<Rightarrow> string option" where
  "strategy_field k v x = (if k = ''strategy'' then decode_string v x else Some x)"

definition handleStrategy ::
  "headers \<Rightarrow> request \<Rightarrow> 'st server \<Rightarrow> mem \<Rightarrow> response \<times> 'st server \<times> mem" where
  "handleStrategy h r s m =
     (if rq_method r = MethodGet
      then (let (name, _) = activeStrategy s
            in (writeJSON h 200 (JObj [(''strategy'', JStr name)]), s, m))
      else if rq_method r = MethodPut
      then
        (case Option.bind (rq_body r) (\<lambda>v. decode_struct strategy_field v []) of
           None \<Rightarrow> (http_Error h ''invalid json'' 400, s, m)
         | Some req \<Rightarrow>
             (case setStrategy req s m of
                (Inl err, s, m) \<Rightarrow> (http_Error h (error_text err) 400, s, m)
              | (Inr name, s, m) \<Rightarrow> (writeJSON h 200 (JObj [(''strategy'', JStr name)]), s, m)))
      else (http_Error h ''method not allowed'' 405, s, m))"

definition metric_lines :: "string \<Rightarrow> string \<Rightarrow> counters \<Rightarrow> string" where
  "metric_lines metric label values =
     concat (map (\<lambda>name. metric @ ''{'' @ label @ ''='' @ quote name @ ''} '' @
       itoa (sint (counter_at values name)) @ newline) (SortedKeys values))"

definition handleMetrics :: "headers \<Rightarrow> 'st server \<Rightarrow> response" where
  "handleMetrics h s =
     (let ms = srv_metrics s;
          strategies = StrategySnapshot ms;
          backends = BackendSnapshot ms
      in \<lparr>rsp_status = 200, rsp_headers = h(''Content-Type'' \<mapsto> ''text/plain; version=0.0.4''),
          rsp_body = TextBody (
            ''# HELP inferflow_inflight_requests Current in-flight requests.'' @ newline @
            ''# TYPE inferflow_inflight_requests gauge'' @ newline @
            ''inferflow_inflight_requests '' @ itoa (sint (InFlight ms)) @ newline @
            ''# HELP inferflow_requests_total Total requests accepted by the router.'' @ newline @
            ''# TYPE inferflow_requests_total counter'' @ newline @
            ''inferflow_requests_total '' @ itoa (sint (RequestsTotal ms)) @ newline @
            ''# HELP inferflow_backend_errors_total Total backend request errors.'' @ newline @
            ''# TYPE inferflow_backend_errors_total counter'' @ newline @
            ''inferflow_backend_errors_total '' @ itoa (sint (BackendErrors ms)) @ newline @
            ''# HELP inferflow_strategy_selections_total Total strategy selections.'' @ newline @
            ''# TYPE inferflow_strategy_selections_total counter'' @ newline @
            metric_lines ''inferflow_strategy_selections_total'' ''strategy'' strategies @
            ''# HELP inferflow_backend_selections_total Total backend selections.'' @ newline @
            ''# TYPE inferflow_backend_selections_total counter'' @ newline @
            metric_lines ''inferflow_backend_selections_total'' ''backend'' backends)\<rparr>)"

definition hit_rate :: "int64 \<Rightarrow> int64 \<Rightarrow> rat" where
  "hit_rate hits misses =
     (let total = hits + misses in
      if 0 <s total then fdiv (f_of_int (sint hits)) (f_of_int (sint total)) else 0)"

definition backend_status :: "metrics_state \<Rightarrow> mem \<Rightarrow> baddr \<Rightarrow> json" where
  "backend_status ms m b =
     JObj [(''name'', JStr (Name m b)), (''healthy'', JBool (Healthy m b)),
           (''pending'', JInt (sint (counter_at (BackendSnapshot ms) (Name m b)))),
           (''latency_ms'',
             JInt (case LatencySnapshot ms (Name m b) of None \<Rightarrow> 0 | Some v \<Rightarrow> sint v))]"

definition handleStatus :: "headers \<Rightarrow> request \<Rightarrow> 'st server \<Rightarrow> mem \<Rightarrow> response" where
  "handleStatus h r s m =
     (if rq_method r \<noteq> MethodGet then http_Error h ''method not allowed'' 405
      else
        let (strategyName, _) = activeStrategy s;
            ms = srv_metrics s;
            hits = KVCacheHits ms;
            misses = KVCacheMisses ms
        in writeJSON h 200 (JObj
             [(''backends'', JArr (map (backend_status ms m) (srv_backends s))),
              (''metrics'', JObj
                [(''backend_errors'', JInt (sint (BackendErrors ms))),
                 (''in_flight'', JInt (sint (InFlight ms))),
                 (''kv_cache_hit_rate'', encode_float (hit_rate hits misses)),
                 (''kv_cache_hits'', JInt (sint hits)),
                 (''kv_cache_misses'', JInt (sint misses)),
                 (''requests_total'', JInt (sint (RequestsTotal ms)))]),
              (''strategy'', JStr strategyName)]))"

section \<open>Routing\<close>

text \<open>
  The server's handler: the CORS middleware around the \<open>ServeMux\<close>.  The patterns are fixed paths;
  the redirects a \<open>ServeMux\<close> makes for paths that are not clean are not modelled.
\<close>

definition cors_headers :: headers where
  "cors_headers =
     [''Access-Control-Allow-Origin'' \<mapsto> ''*'',
      ''Access-Control-Allow-Methods'' \<mapsto> ''GET, POST, PUT, OPTIONS'',
      ''Access-Control-Allow-Headers'' \<mapsto> ''Content-Type'']"

definition server_mux ::
  "'st chat_env \<Rightarrow> (string \<Rightarrow> gerror option) \<Rightarrow> transport \<Rightarrow> int \<Rightarrow>
   headers \<Rightarrow> request \<Rightarrow> 'st server \<Rightarrow> mem \<Rightarrow> response outcome \<times> 'st server \<times> mem" where
  "server_mux env parse_url do now h r s m =
     (if rq_path r = ''/healthz'' then (Ok (handleHealthz h s), s, m)
      else if rq_path r = ''/readyz'' then (Ok (handleReadyz h s m), s, m)
      else if rq_path r = ''/metrics'' then (Ok (handleMetrics h s), s, m)
      else if rq_path r = ''/strategy''
      then (case handleStrategy h r s m of (resp, s, m) \<Rightarrow> (Ok resp, s, m))
      else if rq_path r = ''/api/status'' then (Ok (handleStatus h r s m), s, m)
      else if rq_path r = ''/v1/chat/completions'' then handleChatCompletions env parse_url do now h r s m
      else (Ok (http_NotFound h), s, m))"

definition corsMiddleware ::
  "(headers \<Rightarrow> request \<Rightarrow> 'w \<Rightarrow> response outcome \<times> 'w) \<Rightarrow> request \<Rightarrow> 'w \<Rightarrow> response outcome \<times> 'w" where
  "corsMiddleware nxt r w =
     (if rq_method r = MethodOptions
      then (Ok \<lparr>rsp_status = 204, rsp_headers = cors_headers, rsp_body = NoBody\<rparr>, w)
      else nxt cors_headers r w)"

definition ServeHTTP ::
  "'st chat_env \<Rightarrow> (string \<Rightarrow> gerror option) \<Rightarrow> transport \<Rightarrow> int \<Rightarrow>
   request \<Rightarrow> 'st server \<times> mem \<Rightarrow> response outcome \<times> 'st server \<times> mem" where
  "ServeHTTP env parse_url do now =
     corsMiddleware (\<lambda>h r (s, m). server_mux env parse_url do now h r s m)"

end
