(* ===== verification/ServerStrategy.thy ===== *)
theory ServerStrategy
  imports Server
begin

text \<open>
  The server's strategy: what \<open>setStrategy\<close> installs, and what the readiness probe says about it.
\<close>

section \<open>Well-formed servers\<close>

text \<open>
  The active strategy works on the configured backends, has the reported name, its tables are
  complete, \<open>k\<close> more selections can be made, and its counters are allocated.
\<close>

definition server_wf :: "(nat list \<Rightarrow> nat \<Rightarrow> nat) \<Rightarrow> nat \<Rightarrow> 'st server \<Rightarrow> mem \<Rightarrow> bool" where
  "server_wf intn k s m \<longleftrightarrow>
     strat_members (srv_strategy s) = srv_backends s \<and>
     strat_Name (srv_strategy s) = srv_strategyName s \<and>
     strat_invar intn k (srv_strategy s) \<and>
     strat_cells (srv_strategy s) \<subseteq> {..<mem_next_cell m}"

lemmas strat_simps = strat_Name_def strat_members_def strat_invar_def strat_HasHealthyBackend_def strat_cells_def

lemmas strat_name_defs = RoundRobin_Name_def LeastPending_Name_def Random_Name_def KVAware_Name_def

lemma New_wf: "k \<le> 2 ^ 63 \<Longrightarrow> server_wf intn k (New backends ttl st) m"
  by (simp add: server_wf_def New_def NewRoundRobin_def rr_invar_def strat_simps)

section \<open>Installing a strategy\<close>

lemma normalizeStrategyName_names:
  "normalizeStrategyName raw = Inr name \<Longrightarrow>
    name \<in> {StrategyRoundRobin, StrategyLeastPending, StrategyRandom, StrategyKVAware}"
  by (simp add: normalizeStrategyName_def Let_def split: if_splits)

lemma strategy_names_distinct [simp]:
  "StrategyLeastPending \<noteq> StrategyRoundRobin" "StrategyRandom \<noteq> StrategyRoundRobin"
  "StrategyKVAware \<noteq> StrategyRoundRobin" "StrategyRandom \<noteq> StrategyLeastPending"
  "StrategyKVAware \<noteq> StrategyLeastPending" "StrategyKVAware \<noteq> StrategyRandom"
  by (simp_all add: strategy_names)

text \<open>The new strategy object of \<open>setStrategy\<close>, and the memory with its counters.\<close>

definition fresh_strategy :: "string \<Rightarrow> baddr list \<Rightarrow> mem \<Rightarrow> strategy_obj \<times> mem" where
  "fresh_strategy name backends m =
     (if name = StrategyRoundRobin then (SRoundRobin (NewRoundRobin backends), m)
      else if name = StrategyLeastPending
      then (case NewLeastPending backends m of (x, m') \<Rightarrow> (SLeastPending x, m'))
      else if name = StrategyRandom then (SRandom (NewRandom backends), m)
      else (case NewKVAware backends True m of (x, m') \<Rightarrow> (SKVAware x, m')))"

lemma setStrategy_eq:
  "setStrategy raw s m =
    (case normalizeStrategyName raw of
       Inl e \<Rightarrow> (Inl e, s, m)
     | Inr name \<Rightarrow>
         (case fresh_strategy name (srv_backends s) m of
            (so, m') \<Rightarrow> (Inr name, s\<lparr>srv_strategy := so, srv_strategyName := name\<rparr>, m')))"
  by (auto simp: setStrategy_def fresh_strategy_def Let_def split: sum.split prod.split
      dest: normalizeStrategyName_names)

lemma update_loads_new_cells:
  "update_loads Map.empty bs updated m = (updated', m') \<Longrightarrow>
    mem_next_cell m \<le> mem_next_cell m' \<and>
    ran updated' \<subseteq> ran updated \<union> {mem_next_cell m..<mem_next_cell m'} \<and>
    (\<forall>c\<ge>mem_next_cell m. c < mem_next_cell m' \<longrightarrow> cell_Load m' c = 0) \<and>
    (\<forall>c<mem_next_cell m. cell_Load m' c = cell_Load m c)"
proof (induction bs arbitrary: updated m)
  case (Cons b bs)
  let ?c = "mem_next_cell m"
  from Cons.prems have "update_loads Map.empty bs (updated(b \<mapsto> ?c)) (snd (new_cell m)) = (updated', m')"
    by (simp add: Let_def case_prod_beta)
  from Cons.IH [OF this] have "Suc ?c \<le> mem_next_cell m'"
    and ran: "ran updated' \<subseteq> ran (updated(b \<mapsto> ?c)) \<union> {Suc ?c..<mem_next_cell m'}"
    and zero: "\<forall>c\<ge>Suc ?c. c < mem_next_cell m' \<longrightarrow> cell_Load m' c = 0"
    and old: "\<forall>c<Suc ?c. cell_Load m' c = (if c = ?c then 0 else cell_Load m c)"
    unfolding new_cell_simps by blast+
  moreover have "ran (updated(b \<mapsto> ?c)) \<subseteq> insert ?c (ran updated)" by (auto simp: ran_def)
  moreover have "cell_Load m' c = 0" if "?c \<le> c" "c < mem_next_cell m'" for c
    using zero old that by (cases "c = ?c") simp_all
  ultimately show ?case by fastforce
qed simp

text \<open>A fresh table: every counter is new and reads zero, and the old counters are untouched.\<close>

lemma fresh_table:
  assumes "update_loads Map.empty bs Map.empty m = (updated, m')"
  shows "dom updated = set bs" and "mem_backend m' = mem_backend m" and "mem_next_cell m \<le> mem_next_cell m'"
    and "ran updated \<subseteq> {mem_next_cell m..<mem_next_cell m'}"
    and "\<forall>c\<in>ran updated. cell_Load m' c = 0"
    and "\<forall>c<mem_next_cell m. cell_Load m' c = cell_Load m c"
    and "\<forall>c\<ge>mem_next_cell m. c < mem_next_cell m' \<longrightarrow> cell_Load m' c = 0"
  using update_loads_table [OF assms loads_ok_empty] update_loads_new_cells [OF assms]
  by (auto simp: ran_def)

lemma NewLeastPending_eq:
  "NewLeastPending backends m =
    (case update_loads Map.empty backends Map.empty m of
       (u, m') \<Rightarrow> (\<lparr>lt_backends = backends, lt_next = 0, lt_loads = u\<rparr>, m'))"
  by (simp add: NewLeastPending_def LeastPending_SetBackends_def)

lemma NewKVAware_eq:
  "NewKVAware backends h m =
    (case update_loads Map.empty backends Map.empty m of
       (u, m') \<Rightarrow> (\<lparr>lt_backends = backends, lt_next = 0, lt_loads = u, kv_has_store = h\<rparr>, m'))"
  by (simp add: NewKVAware_def KVAware_SetBackends_def)

lemma fresh_strategy:
  assumes "fresh_strategy name backends m = (so, m')"
    and "name \<in> {StrategyRoundRobin, StrategyLeastPending, StrategyRandom, StrategyKVAware}"
  shows "strat_Name so = name" and "strat_members so = backends" and "mem_backend m' = mem_backend m"
    and "mem_next_cell m \<le> mem_next_cell m'" and "strat_cells so \<subseteq> {mem_next_cell m..<mem_next_cell m'}"
    and "\<forall>c\<in>strat_cells so. cell_Load m' c = 0"
    and "\<forall>c<mem_next_cell m. cell_Load m' c = cell_Load m c"
    and "intn_range intn \<Longrightarrow> k \<le> 2 ^ 63 \<Longrightarrow> strat_invar intn k so"
    and "\<forall>c\<ge>mem_next_cell m. c < mem_next_cell m' \<longrightarrow> cell_Load m' c = 0"
proof -
  obtain u mu where u: "update_loads Map.empty backends Map.empty m = (u, mu)" by fastforce
  note table = fresh_table [OF u]
  consider "name = StrategyRoundRobin" | "name = StrategyLeastPending" | "name = StrategyRandom"
    | "name = StrategyKVAware"
    using assms(2) by auto
  then have "strat_Name so = name \<and> strat_members so = backends \<and> mem_backend m' = mem_backend m \<and>
    mem_next_cell m \<le> mem_next_cell m' \<and> strat_cells so \<subseteq> {mem_next_cell m..<mem_next_cell m'} \<and>
    (\<forall>c\<in>strat_cells so. cell_Load m' c = 0) \<and> (\<forall>c<mem_next_cell m. cell_Load m' c = cell_Load m c) \<and>
    (intn_range intn \<longrightarrow> k \<le> 2 ^ 63 \<longrightarrow> strat_invar intn k so) \<and>
    (\<forall>c\<ge>mem_next_cell m. c < mem_next_cell m' \<longrightarrow> cell_Load m' c = 0)"
    using assms(1) table
    by cases (auto simp: fresh_strategy_def strat_simps strat_name_defs NewLeastPending_eq NewKVAware_eq u
        NewRoundRobin_def NewRandom_def rr_invar_def lt_invar_def)
  then show "strat_Name so = name" and "strat_members so = backends" and "mem_backend m' = mem_backend m"
    and "mem_next_cell m \<le> mem_next_cell m'" and "strat_cells so \<subseteq> {mem_next_cell m..<mem_next_cell m'}"
    and "\<forall>c\<in>strat_cells so. cell_Load m' c = 0"
    and "\<forall>c<mem_next_cell m. cell_Load m' c = cell_Load m c"
    and "intn_range intn \<Longrightarrow> k \<le> 2 ^ 63 \<Longrightarrow> strat_invar intn k so"
    and "\<forall>c\<ge>mem_next_cell m. c < mem_next_cell m' \<longrightarrow> cell_Load m' c = 0" by blast+
qed

lemma setStrategy_wf:
  assumes "setStrategy raw s m = (Inr name, s', m')" and "intn_range intn" and "k \<le> 2 ^ 63"
  shows "server_wf intn k s' m'"
proof -
  from assms(1) obtain so where norm: "normalizeStrategyName raw = Inr name"
    and fresh: "fresh_strategy name (srv_backends s) m = (so, m')"
    and s': "s' = s\<lparr>srv_strategy := so, srv_strategyName := name\<rparr>"
    by (auto simp: setStrategy_eq split: sum.splits prod.splits)
  note f = fresh_strategy [OF fresh normalizeStrategyName_names [OF norm]]
  have "strat_cells so \<subseteq> {..<mem_next_cell m'}" using f(5) by auto
  with f(1,2) f(8) [OF assms(2,3)] show ?thesis by (simp add: server_wf_def s')
qed

section \<open>Properties\<close>

text \<open>
  C13: Changing the strategy either fails and changes nothing at all, or installs a new strategy
  object of one of the four supported names: it reports that name, works on the configured backends
  with all its load counters at zero, is ready for any number of selections, and leaves the metrics,
  the affinity store, the health of the backends and the counters of running requests as they are.
\<close>

theorem setStrategy_result:
  assumes "setStrategy raw s m = (r, s', m')" and "intn_range intn"
  shows "case r of
      Inl e \<Rightarrow> s' = s \<and> m' = m
    | Inr name \<Rightarrow>
        name \<in> {StrategyRoundRobin, StrategyLeastPending, StrategyRandom, StrategyKVAware} \<and>
        srv_strategyName s' = name \<and> server_wf intn (2 ^ 63) s' m' \<and>
        (\<forall>c\<in>strat_cells (srv_strategy s'). cell_Load m' c = 0) \<and>
        srv_metrics s' = srv_metrics s \<and> srv_store s' = srv_store s \<and> srv_backends s' = srv_backends s \<and>
        mem_backend m' = mem_backend m \<and> (\<forall>c<mem_next_cell m. cell_Load m' c = cell_Load m c)"
proof (cases r)
  case (Inl e)
  with assms(1) show ?thesis by (auto simp: setStrategy_eq split: sum.splits prod.splits)
next
  case (Inr name)
  with assms(1) obtain so where norm: "normalizeStrategyName raw = Inr name"
    and fresh: "fresh_strategy name (srv_backends s) m = (so, m')"
    and s': "s' = s\<lparr>srv_strategy := so, srv_strategyName := name\<rparr>"
    by (auto simp: setStrategy_eq split: sum.splits prod.splits)
  note names = normalizeStrategyName_names [OF norm]
  note f = fresh_strategy [OF fresh names]
  have "server_wf intn (2 ^ 63) s' m'"
    using assms Inr by (intro setStrategy_wf) simp_all
  with Inr s' names f(3,6,7) show ?thesis by simp
qed

theorem setStrategy_result_witness:
  "srv_strategyName (fst (snd (setStrategy '' Least-Pending '' (New [0, 1] 0 ()) two_backends))) = StrategyLeastPending
   \<and> server_wf (\<lambda>h n. 0) (2 ^ 63) (fst (snd (setStrategy '' Least-Pending '' (New [0, 1] 0 ()) two_backends)))
       (snd (snd (setStrategy '' Least-Pending '' (New [0, 1] 0 ()) two_backends)))"
proof -
  have "normalizeStrategyName '' Least-Pending '' = Inr StrategyLeastPending" by code_simp
  moreover obtain r s' m' where "setStrategy '' Least-Pending '' (New [0, 1] 0 ()) two_backends = (r, s', m')"
    by (metis prod_cases3)
  ultimately have set: "setStrategy '' Least-Pending '' (New [0, 1] 0 ()) two_backends = (Inr StrategyLeastPending, s', m')"
    by (simp add: setStrategy_eq split: prod.splits)
  have "intn_range (\<lambda>h n. 0)" by (simp add: intn_range_def)
  from setStrategy_result [OF set this] show ?thesis unfolding set by simp
qed

text \<open>
  C17: The readiness probe is exact: \<open>/readyz\<close> answers 200 if and only if a selection by the active
  strategy would find a backend, whatever the request and the affinity store; otherwise it answers
  503, and so would the chat handler.
\<close>

theorem readyz_iff_selectable:
  assumes "server_wf intn (Suc k) s m"
  shows "(rsp_status (handleReadyz h s m) = 200 \<longleftrightarrow>
      (\<exists>d m' t. strat_Select intn pref inp m (srv_strategy s, srv_store s) = (Ok d, m', t))) \<and>
    (rsp_status (handleReadyz h s m) = 503 \<longleftrightarrow>
      (\<exists>m' t. strat_Select intn pref inp m (srv_strategy s, srv_store s) = (Err ErrNoHealthyBackend, m', t)))"
proof -
  have inv: "case (srv_strategy s, srv_store s) of (so, st) \<Rightarrow> strat_invar intn (Suc k) so"
    using assms by (simp add: server_wf_def)
  show ?thesis
  proof (rule dispatch.select_cases [OF inv, of pref inp m])
    fix d m' t
    assume "strat_Select intn pref inp m (srv_strategy s, srv_store s) = (Ok d, m', t)"
      and "case (srv_strategy s, srv_store s) of (so, st) \<Rightarrow> strat_HasHealthyBackend m so"
    then show ?thesis by (simp add: handleReadyz_def activeStrategy_def)
  next
    fix t
    assume "strat_Select intn pref inp m (srv_strategy s, srv_store s) = (Err ErrNoHealthyBackend, m, t)"
      and "\<not> (case (srv_strategy s, srv_store s) of (so, st) \<Rightarrow> strat_HasHealthyBackend m so)"
    then show ?thesis by (simp add: handleReadyz_def activeStrategy_def)
  qed
qed

theorem readyz_iff_selectable_witness:
  "rsp_status (handleReadyz Map.empty (New [0, 1] 0 ()) two_backends) = 200 \<longleftrightarrow>
    (\<exists>d m' t. strat_Select (\<lambda>h n. 0) (\<lambda>k st. (Inr ([], False), st)) \<lparr>input_EstimatedCost = 1, input_CacheKey = []\<rparr>
       two_backends (srv_strategy (New [0, 1] 0 ()), ()) = (Ok d, m', t))"
proof -
  have "server_wf (\<lambda>h n. 0) (Suc 0) (New [0, 1] 0 ()) two_backends" by (rule New_wf) simp
  from readyz_iff_selectable [OF this, of Map.empty "\<lambda>k st. (Inr ([], False), st)"]
  show ?thesis by (simp add: New_def)
qed

end
