(* ===== verification/ChatRequests.thy ===== *)
theory ChatRequests
  imports ServerStrategy
begin

text \<open>
  One chat request from arrival to reply: every branch of the handler, what it does to the metrics,
  the load counters, the health flags and the affinity store, and what the client sees.
\<close>

section \<open>The branches of the handler\<close>

definition chat_request_ok :: "request \<Rightarrow> chat_request \<Rightarrow> bool" where
  "chat_request_ok r req \<longleftrightarrow>
     rq_method r = MethodPost \<and> Option.bind (rq_body r) decode_chat_request = Some req \<and>
     validateChatRequest req = None"

definition chat_input :: "'st chat_env \<Rightarrow> chat_request \<Rightarrow> selection_input" where
  "chat_input env req =
     \<lparr>input_EstimatedCost = word_of_int (estimateRequestCost (req_Messages req)),
      input_CacheKey = buildCacheKey (ce_sha env) (req_Model req) (req_Messages req)\<rparr>"

definition chat_select ::
  "'st chat_env \<Rightarrow> chat_request \<Rightarrow> 'st server \<Rightarrow> mem \<Rightarrow> decision outcome \<times> mem \<times> strategy_obj \<times> 'st" where
  "chat_select env req s m =
     strat_Select (ce_intn env) (ce_preferred env) (chat_input env req) m (srv_strategy s, srv_store s)"

text \<open>The metrics of a request that was forwarded, before the backend answers.\<close>

definition begin_metrics :: "string \<Rightarrow> string \<Rightarrow> decision \<Rightarrow> metrics_state \<Rightarrow> metrics_state" where
  "begin_metrics strategyName backendName d ms =
     IncInFlight (record_kv strategyName d (RecordBackend backendName
       (RecordStrategy strategyName (IncRequestsTotal ms))))"

lemma chat_begin_valid:
  assumes "chat_request_ok r req" and "chat_select env req s m = (sel, m', so, st)"
  shows "chat_begin env h r s m =
    (let s1 = s\<lparr>srv_metrics := IncRequestsTotal (srv_metrics s), srv_strategy := so, srv_store := st\<rparr> in
     case sel of
       Panic \<Rightarrow> (Aborted, s1, m')
     | Err e \<Rightarrow> (Replied (http_Error h ''no healthy backend available'' 503), s1, m')
     | Ok d \<Rightarrow>
         (Waiting \<lparr>pc_decision = d, pc_request = req, pc_cacheKey = input_CacheKey (chat_input env req),
                   pc_headers = chat_headers h (Name m' (decision_Backend d)) (srv_strategyName s) d\<rparr>,
          s1\<lparr>srv_metrics := begin_metrics (srv_strategyName s) (Name m' (decision_Backend d)) d (srv_metrics s)\<rparr>,
          m'))"
  using assms unfolding chat_request_ok_def chat_select_def chat_input_def
  by (simp add: chat_begin_def activeStrategy_def begin_metrics_def Let_def split: outcome.split)

lemma chat_begin_invalid:
  assumes "\<nexists>req. chat_request_ok r req"
  shows "\<exists>text. chat_begin env h r s m =
    (Replied (http_Error h text (if rq_method r = MethodPost then 400 else 405)), s, m)"
proof (cases "rq_method r = MethodPost")
  case True
  show ?thesis
  proof (cases "Option.bind (rq_body r) decode_chat_request")
    case (Some req)
    with assms True have "validateChatRequest req \<noteq> None" by (auto simp: chat_request_ok_def)
    with Some True show ?thesis by (auto simp: chat_begin_def)
  qed (use True in \<open>auto simp: chat_begin_def\<close>)
qed (auto simp: chat_begin_def)

lemma chat_begin_cases:
  obtains (invalid) "\<nexists>req. chat_request_ok r req"
    and "\<exists>text. chat_begin env h r s m =
      (Replied (http_Error h text (if rq_method r = MethodPost then 400 else 405)), s, m)"
  | (valid) req sel m' so st where "chat_request_ok r req" and "chat_select env req s m = (sel, m', so, st)"
  by (metis chat_begin_invalid prod_cases4)

section \<open>Selections that fail leave the memory alone\<close>

lemma lt_select_fail: "lt_select cost mk m s = (r, m', s') \<Longrightarrow> (\<forall>d. r \<noteq> Ok d) \<Longrightarrow> m' = m"
  by (auto simp: lt_select_def Let_def case_prod_beta split: if_splits outcome.splits option.splits)

lemma strat_Select_fail:
  assumes "strat_Select intn pref inp m (so, st) = (r, m', so', st')" and "\<forall>d. r \<noteq> Ok d"
  shows "m' = m"
  using assms(1)
proof (cases rule: strat_Select_cases)
  case (round_robin s s')
  then show ?thesis by (auto simp: RoundRobin_Select_def split: prod.splits outcome.splits)
next
  case (least_pending s s')
  with assms(2) show ?thesis using lt_select_fail by (metis LeastPending_Select_table)
next
  case (random s s')
  then show ?thesis by (auto simp: Random_Select_def Let_def split: if_splits outcome.splits)
next
  case (kv_aware s s')
  from kv_aware(3) show ?thesis
  proof (cases rule: KVAware_Select_cases)
    case (miss s'' st'')
    with assms(2) show ?thesis using lt_select_fail by blast
  qed (use assms(2) in auto)
qed

text \<open>They take a turn of the rotation, if there is one, and \<open>kv_aware\<close> has asked the store.\<close>

lemma lt_select_Err_state:
  "lt_select cost mk m s = (Err e, m', s') \<Longrightarrow>
    s' = (if lt_backends s = [] then s else s\<lparr>lt_next := lt_next s + 1\<rparr>)"
  by (auto simp: lt_select_def Let_def case_prod_beta split: if_splits outcome.splits option.splits)

lemma RoundRobin_Select_Err_state:
  "RoundRobin_Select inp m s = (Err e, m', s') \<Longrightarrow>
    s' = (if rr_backends s = [] then s else s\<lparr>rr_next := rr_next s + 1\<rparr>)"
  by (auto simp: RoundRobin_Select_def Pick_def Let_def split: if_splits outcome.splits)

lemma kv_lookup_store:
  "snd (kv_lookup pref inp m s st) =
    (if kv_has_store s \<and> input_CacheKey inp \<noteq> [] then snd (pref (input_CacheKey inp) st) else st)"
  by (auto simp: kv_lookup_def split: prod.split sum.split bool.split)

lemma strat_Select_Err_state:
  assumes "strat_Select intn pref inp m (so, st) = (Err e, m', so', st')"
  shows "so' = (if strat_members so = [] then so else
      (case so of
         SRoundRobin x \<Rightarrow> SRoundRobin (x\<lparr>rr_next := rr_next x + 1\<rparr>)
       | SLeastPending x \<Rightarrow> SLeastPending (x\<lparr>lt_next := lt_next x + 1\<rparr>)
       | SRandom x \<Rightarrow> SRandom x
       | SKVAware x \<Rightarrow> SKVAware (x\<lparr>lt_next := lt_next x + 1\<rparr>))) \<and>
    st' = (case so of
         SKVAware x \<Rightarrow> if strat_members so \<noteq> [] \<and> kv_has_store x \<and> input_CacheKey inp \<noteq> []
           then snd (pref (input_CacheKey inp) st) else st
       | _ \<Rightarrow> st)"
  using assms
proof (cases rule: strat_Select_cases)
  case (round_robin s s')
  then show ?thesis by (auto simp: strat_members_def dest: RoundRobin_Select_Err_state)
next
  case (least_pending s s')
  then show ?thesis by (auto simp: strat_members_def LeastPending_Select_table dest: lt_select_Err_state)
next
  case (random s s')
  then show ?thesis by (auto simp: strat_members_def Random_Select_def Let_def go_index_def split: if_splits outcome.splits)
next
  case (kv_aware s s')
  show ?thesis
    using kv_aware(3)
  proof (cases rule: KVAware_Select_cases)
    case (miss s'' st'')
    with kv_aware(1,2) kv_lookup_store [of pref inp m s st] show ?thesis
      by (auto simp: strat_members_def dest: lt_select_Err_state)
  qed (use kv_aware(1,2) in \<open>auto simp: strat_members_def\<close>)
qed

lemma strat_Select_cell:
  assumes "strat_Select intn pref inp m (so, st) = (Ok d, m', so', st')"
  shows "cell_Load m' c = cell_Load m c + decision_load c d"
  by (rule dispatch.select_cell [OF assms])

section \<open>The end of a request\<close>

lemma begin_metrics_simps [simp]:
  "ms_inFlight (begin_metrics sn bn d ms) = ms_inFlight ms + 1"
  "ms_requestsTotal (begin_metrics sn bn d ms) = ms_requestsTotal ms + 1"
  "ms_backendErrors (begin_metrics sn bn d ms) = ms_backendErrors ms"
  "ms_strategyCounts (begin_metrics sn bn d ms) = count_one sn (ms_strategyCounts ms)"
  "ms_backendCounts (begin_metrics sn bn d ms) = count_one bn (ms_backendCounts ms)"
  "ms_latencyEMA (begin_metrics sn bn d ms) = ms_latencyEMA ms"
  "ms_kvCacheHits (begin_metrics sn bn d ms) =
     ms_kvCacheHits ms + (if sn = StrategyKVAware \<and> decision_CacheHit d then 1 else 0)"
  "ms_kvCacheMisses (begin_metrics sn bn d ms) =
     ms_kvCacheMisses ms + (if sn = StrategyKVAware \<and> \<not> decision_CacheHit d then 1 else 0)"
  by (simp_all add: begin_metrics_def record_kv_def metrics_defs)

text \<open>The metrics after the reply, and the parts of the state a finished request leaves behind.\<close>

definition finish_metrics :: "bool \<Rightarrow> string \<Rightarrow> int \<Rightarrow> metrics_state \<Rightarrow> metrics_state" where
  "finish_metrics ok backendName elapsed ms =
     (let ms = RecordLatency backendName (f_of_int elapsed) ms
      in DecInFlight (if ok then ms else IncBackendErrors ms))"

lemma finish_metrics_simps [simp]:
  "ms_inFlight (finish_metrics ok bn t ms) = ms_inFlight ms - 1"
  "ms_requestsTotal (finish_metrics ok bn t ms) = ms_requestsTotal ms"
  "ms_backendErrors (finish_metrics ok bn t ms) = ms_backendErrors ms + (if ok then 0 else 1)"
  "ms_strategyCounts (finish_metrics ok bn t ms) = ms_strategyCounts ms"
  "ms_backendCounts (finish_metrics ok bn t ms) = ms_backendCounts ms"
  "ms_kvCacheHits (finish_metrics ok bn t ms) = ms_kvCacheHits ms"
  "ms_kvCacheMisses (finish_metrics ok bn t ms) = ms_kvCacheMisses ms"
  by (simp_all add: finish_metrics_def metrics_defs Let_def)

lemma chat_finish_eq:
  "chat_finish env resp p s m =
    (let b = decision_Backend (pc_decision p);
         ok = (\<exists>x. resp = Inr x);
         s1 = s\<lparr>srv_metrics := finish_metrics ok (Name m b) (ce_elapsed env) (srv_metrics s)\<rparr>
     in (case resp of
           Inl e \<Rightarrow> http_Error (pc_headers p) ''backend request failed'' 502
         | Inr x \<Rightarrow> writeJSON (pc_headers p) 200 (encode_chat_response x),
         if ok then recordAffinity env (pc_cacheKey p) (Name m b) s1 else s1,
         snd (Release (pc_decision p) (if ok then m else SetHealthy b False m))))"
  by (cases resp)
    (simp_all add: chat_finish_def finish_metrics_def recordAffinity_def Let_def case_prod_beta)

lemma recordAffinity_simps [simp]:
  "srv_metrics (recordAffinity env k n s) = srv_metrics s"
  "srv_strategy (recordAffinity env k n s) = srv_strategy s"
  "srv_strategyName (recordAffinity env k n s) = srv_strategyName s"
  "srv_backends (recordAffinity env k n s) = srv_backends s"
  "srv_cacheTTL (recordAffinity env k n s) = srv_cacheTTL s"
  "srv_store (recordAffinity env k n s) =
     (if k = [] \<or> n = [] then srv_store s else snd (ce_remember env k n (srv_cacheTTL s) (srv_store s)))"
  by (simp_all add: recordAffinity_def)

lemma cell_Load_SetHealthy [simp]: "cell_Load (SetHealthy b h m) c = cell_Load m c"
  by (simp add: cell_Load_def)

lemma chat_finish_frame:
  assumes "chat_finish env resp p s m = (r, s', m')" and "\<not> decision_once (pc_decision p)"
  shows "cell_Load m' c = cell_Load m c - decision_load c (pc_decision p)"
    and "ms_inFlight (srv_metrics s') = ms_inFlight (srv_metrics s) - 1"
    and "srv_strategy s' = srv_strategy s" and "srv_strategyName s' = srv_strategyName s"
    and "srv_backends s' = srv_backends s" and "mem_next_cell m' = mem_next_cell m"
    and "Name m' b = Name m b"
proof -
  have m': "m' = snd (Release (pc_decision p) (if \<exists>x. resp = Inr x then m
      else SetHealthy (decision_Backend (pc_decision p)) False m))"
    using assms(1) by (auto simp: chat_finish_eq Let_def)
  show "cell_Load m' c = cell_Load m c - decision_load c (pc_decision p)"
    unfolding m' by (simp add: cell_Load_Release [OF assms(2)])
  show "mem_next_cell m' = mem_next_cell m" unfolding m' by simp
  have "Name (snd (Release d n)) b = Name n b" for d n by (simp add: Name_def)
  then show "Name m' b = Name m b" unfolding m' by simp
  show "ms_inFlight (srv_metrics s') = ms_inFlight (srv_metrics s) - 1"
    and "srv_strategy s' = srv_strategy s" and "srv_strategyName s' = srv_strategyName s"
    and "srv_backends s' = srv_backends s"
    using assms(1) by (auto simp: chat_finish_eq Let_def split: if_splits)
qed

section \<open>Properties\<close>

text \<open>
  C6: No request leaks load.  Whatever the request and whatever the strategy, the store and the
  backend do, when the handler has replied every load counter and the in-flight gauge have the
  values they had before.
\<close>

theorem chat_leaks_nothing:
  assumes "handleChatCompletions env parse_url do now h r s m = (Ok resp, s', m')"
  shows "cell_Load m' c = cell_Load m c \<and> InFlight (srv_metrics s') = InFlight (srv_metrics s)"
proof (cases rule: chat_begin_cases [of r env h s m])
  case invalid
  with assms show ?thesis by (auto simp: handleChatCompletions_def)
next
  case (valid req sel m1 so st)
  note beg = chat_begin_valid [OF valid, of h]
  note sel = valid(2) [unfolded chat_select_def]
  show ?thesis
  proof (cases sel)
    case (Ok d)
    let ?p = "\<lparr>pc_decision = d, pc_request = req, pc_cacheKey = input_CacheKey (chat_input env req),
        pc_headers = chat_headers h (Name m1 (decision_Backend d)) (srv_strategyName s) d\<rparr>"
    let ?s1 = "s\<lparr>srv_strategy := so, srv_store := st,
        srv_metrics := begin_metrics (srv_strategyName s) (Name m1 (decision_Backend d)) d (srv_metrics s)\<rparr>"
    have "ms_inFlight (srv_metrics ?s1) = ms_inFlight (srv_metrics s) + 1" by simp
    moreover from Ok beg assms have fin: "chat_finish env (SendChatCompletion parse_url do now
        (BaseURL m1 (decision_Backend d)) req) ?p ?s1 m1 = (resp, s', m')"
      by (auto simp: handleChatCompletions_def Let_def split: prod.splits)
    moreover have "\<not> decision_once d" using strat_Select_release [OF sel [unfolded Ok]] by simp
    ultimately show ?thesis
      using chat_finish_frame(1,2) [OF fin] strat_Select_cell [of _ _ _ _ _ _ d, OF sel [unfolded Ok]]
      by (simp add: InFlight_def)
  next
    case (Err e)
    with beg assms strat_Select_fail [OF sel] show ?thesis
      by (auto simp: handleChatCompletions_def InFlight_def IncRequestsTotal_def Let_def)
  next
    case Panic
    with beg assms show ?thesis by (simp add: handleChatCompletions_def Let_def)
  qed
qed

text \<open>
  C22: A request that is not a valid chat request (wrong method, a body that does not decode, a blank
  model, no messages) is answered 405 or 400 without any effect: the metrics, the strategy, the
  store and the backends stay as they are.
\<close>

theorem chat_invalid_request:
  assumes "\<nexists>req. chat_request_ok r req"
  shows "\<exists>text. handleChatCompletions env parse_url do now h r s m =
    (Ok (http_Error h text (if rq_method r = MethodPost then 400 else 405)), s, m)"
  using chat_begin_invalid [OF assms, of env h s m] by (auto simp: handleChatCompletions_def)

lemma chat_select_mem:
  assumes "chat_select env req s m = (sel, m1, so, st)"
  shows "mem_backend m1 = mem_backend m" and "Name m1 b = Name m b" and "BaseURL m1 b = BaseURL m b"
    and "Healthy m1 b = Healthy m b"
  using strat_Select_kind(3) [OF assms [unfolded chat_select_def]]
  by (simp_all add: Name_def BaseURL_def Healthy_def)

text \<open>The request's effects in one equation, once a backend was found.\<close>

lemma chat_forwarded:
  assumes "chat_request_ok r req" and "chat_select env req s m = (Ok d, m1, so, st)"
  shows "handleChatCompletions env parse_url do now h r s m =
    (let b = decision_Backend d;
         resp = SendChatCompletion parse_url do now (BaseURL m b) req;
         s1 = s\<lparr>srv_strategy := so, srv_store := st,
                srv_metrics := finish_metrics (\<exists>x. resp = Inr x) (Name m b) (ce_elapsed env)
                  (begin_metrics (srv_strategyName s) (Name m b) d (srv_metrics s))\<rparr>;
         h' = chat_headers h (Name m b) (srv_strategyName s) d
     in case resp of
          Inl e \<Rightarrow>
            (Ok (http_Error h' ''backend request failed'' 502), s1,
             snd (Release d (SetHealthy b False m1)))
        | Inr x \<Rightarrow>
            (Ok (writeJSON h' 200 (encode_chat_response x)),
             recordAffinity env (input_CacheKey (chat_input env req)) (Name m b) s1,
             snd (Release d m1)))"
  using chat_begin_valid [OF assms, of h] chat_select_mem [OF assms(2)]
  by (auto simp: handleChatCompletions_def chat_finish_eq Let_def split: sum.split)

text \<open>
  C4: A valid request whose backend answers is replied to with status 200, the backend's text and
  the names of backend and strategy in the headers.  It counts once in the request total, for its
  strategy and for its backend, is no error, leaves every backend's health alone, and has the
  store remember the backend for the conversation.
\<close>

theorem chat_success:
  assumes "chat_request_ok r req" and "chat_select env req s m = (Ok d, m1, so, st)"
    and "SendChatCompletion parse_url do now (BaseURL m (decision_Backend d)) req = Inr x"
  shows "\<exists>s' m'. handleChatCompletions env parse_url do now h r s m =
      (Ok (writeJSON (chat_headers h (Name m (decision_Backend d)) (srv_strategyName s) d) 200
        (encode_chat_response x)), s', m') \<and>
    mem_backend m' = mem_backend m \<and> srv_strategy s' = so \<and>
    srv_store s' =
      (let key = buildCacheKey (ce_sha env) (req_Model req) (req_Messages req); n = Name m (decision_Backend d)
       in if key = [] \<or> n = [] then st else snd (ce_remember env key n (srv_cacheTTL s) st)) \<and>
    RequestsTotal (srv_metrics s') = RequestsTotal (srv_metrics s) + 1 \<and>
    BackendErrors (srv_metrics s') = BackendErrors (srv_metrics s) \<and>
    (\<forall>k. counter_at (BackendSnapshot (srv_metrics s')) k =
      counter_at (BackendSnapshot (srv_metrics s)) k + (if k = Name m (decision_Backend d) then 1 else 0)) \<and>
    (\<forall>k. counter_at (StrategySnapshot (srv_metrics s')) k =
      counter_at (StrategySnapshot (srv_metrics s)) k + (if k = srv_strategyName s then 1 else 0))"
  unfolding chat_forwarded [OF assms(1,2)] Let_def assms(3)
  by (simp add: chat_select_mem [OF assms(2)] RequestsTotal_def BackendErrors_def BackendSnapshot_def
      StrategySnapshot_def counter_at_count_one chat_input_def Let_def)

text \<open>
  C5: If the backend cannot be reached, answers with an error status or with a body that does not
  decode, the client gets a 502 that still names the backend; exactly this backend is taken out of
  rotation (until the next probe), one backend error is counted, and the conversation is not
  remembered.
\<close>

theorem chat_backend_failure:
  assumes "chat_request_ok r req" and "chat_select env req s m = (Ok d, m1, so, st)"
    and "SendChatCompletion parse_url do now (BaseURL m (decision_Backend d)) req = Inl e"
  shows "\<exists>s' m'. handleChatCompletions env parse_url do now h r s m =
      (Ok (http_Error (chat_headers h (Name m (decision_Backend d)) (srv_strategyName s) d)
        ''backend request failed'' 502), s', m') \<and>
    (\<forall>b. Healthy m' b \<longleftrightarrow> Healthy m b \<and> b \<noteq> decision_Backend d) \<and>
    srv_store s' = st \<and>
    RequestsTotal (srv_metrics s') = RequestsTotal (srv_metrics s) + 1 \<and>
    BackendErrors (srv_metrics s') = BackendErrors (srv_metrics s) + 1 \<and>
    InFlight (srv_metrics s') = InFlight (srv_metrics s)"
  unfolding chat_forwarded [OF assms(1,2)] Let_def assms(3)
  by (simp add: chat_select_mem [OF assms(2)] RequestsTotal_def BackendErrors_def InFlight_def Let_def)

lemma chat_select_none:
  assumes "server_wf (ce_intn env) (Suc k) s m" and "\<forall>b\<in>set (srv_backends s). \<not> Healthy m b"
  obtains e so st where "chat_select env req s m = (Err e, m, so, st)"
proof -
  obtain sel m1 so st where sel: "chat_select env req s m = (sel, m1, so, st)"
    by (metis prod_cases4)
  note raw = sel [unfolded chat_select_def]
  have inv: "strat_invar (ce_intn env) (Suc k) (srv_strategy s)"
    and members: "strat_members (srv_strategy s) = srv_backends s"
    using assms(1) by (simp_all add: server_wf_def)
  show thesis
  proof (cases sel)
    case (Ok d)
    from strat_Select_Ok [OF inv raw [unfolded Ok]] assms(2) members show thesis by auto
  next
    case (Err e)
    with sel strat_Select_fail [OF raw] that show thesis by simp
  next
    case Panic
    from strat_Select_invar [OF inv raw] Panic show thesis by simp
  qed
qed

lemma chat_no_backend:
  assumes "chat_request_ok r req" and "chat_select env req s m = (Err e, m1, so, st)"
  shows "handleChatCompletions env parse_url do now h r s m =
    (Ok (http_Error h ''no healthy backend available'' 503),
     s\<lparr>srv_metrics := IncRequestsTotal (srv_metrics s), srv_strategy := so, srv_store := st\<rparr>, m1)"
  using chat_begin_valid [OF assms, of h] by (simp add: handleChatCompletions_def Let_def)

lemma cache_payload_not_Nil: "messages \<noteq> [] \<Longrightarrow> cache_payload model messages \<noteq> []"
proof -
  assume "messages \<noteq> []"
  then obtain msg msgs where "messages = msg # msgs" by (cases messages) simp_all
  then have "CHR '':'' \<in> set (cache_payload model messages)"
    unfolding cache_payload_def by (intro TrimSpace_keeps) (simp_all add: visible_def byte_in_def)
  then show ?thesis by (metis empty_iff list.set(1))
qed

text \<open>
  C23: If no backend is healthy, a valid request is answered 503.  It is counted in the request total
  and takes a turn of the strategy's rotation, and \<open>kv_aware\<close> looks the conversation up in its store
  (which may drop an expired entry); nothing else of the router changes: no other metric, no load
  counter, no backend, neither the kind of the strategy nor its tables, and no other store operation.
\<close>

theorem chat_unavailable:
  assumes "chat_request_ok r req" and "server_wf (ce_intn env) (Suc k) s m"
    and "\<forall>b\<in>set (srv_backends s). \<not> Healthy m b"
  shows "handleChatCompletions env parse_url do now h r s m =
    (Ok (http_Error h ''no healthy backend available'' 503),
     s\<lparr>srv_metrics := (srv_metrics s)\<lparr>ms_requestsTotal := ms_requestsTotal (srv_metrics s) + 1\<rparr>,
       srv_strategy := (if srv_backends s = [] then srv_strategy s else
         (case srv_strategy s of
            SRoundRobin x \<Rightarrow> SRoundRobin (x\<lparr>rr_next := rr_next x + 1\<rparr>)
          | SLeastPending x \<Rightarrow> SLeastPending (x\<lparr>lt_next := lt_next x + 1\<rparr>)
          | SRandom x \<Rightarrow> SRandom x
          | SKVAware x \<Rightarrow> SKVAware (x\<lparr>lt_next := lt_next x + 1\<rparr>))),
       srv_store := (case srv_strategy s of
            SKVAware x \<Rightarrow> if srv_backends s \<noteq> [] \<and> kv_has_store x
              then snd (ce_preferred env (buildCacheKey (ce_sha env) (req_Model req) (req_Messages req)) (srv_store s))
              else srv_store s
          | _ \<Rightarrow> srv_store s)\<rparr>, m)"
proof -
  obtain e so st where sel: "chat_select env req s m = (Err e, m, so, st)"
    using assms(2,3) by (rule chat_select_none)
  have "req_Messages req \<noteq> []"
    using assms(1) by (auto simp: chat_request_ok_def validateChatRequest_def split: if_splits)
  then have key: "input_CacheKey (chat_input env req) \<noteq> []"
    by (simp add: chat_input_def buildCacheKey_def cache_payload_not_Nil Let_def)
  have members: "strat_members (srv_strategy s) = srv_backends s" using assms(2) by (simp add: server_wf_def)
  from strat_Select_Err_state [OF sel [unfolded chat_select_def]] key
  show ?thesis
    unfolding chat_no_backend [OF assms(1) sel] members
    by (simp add: chat_input_def IncRequestsTotal_def split: strategy_obj.split)
qed

section \<open>Instances\<close>

text \<open>A request for model \<open>m\<close> with one message, and backends that always answer or always fail.\<close>

definition hi_chat :: chat_request where
  "hi_chat = \<lparr>req_Model = ''m'', req_Messages = [\<lparr>msg_Role = ''user'', msg_Content = ''hi''\<rparr>],
     req_Stream = False, req_MaxTokens = 0, req_Temperature = 0, req_RepetitionPenalty = 0\<rparr>"

definition hi_request :: request where
  "hi_request = \<lparr>rq_method = ''POST'', rq_path = ''/v1/chat/completions'',
     rq_body = Some (JObj [(''model'', JStr ''m''),
       (''messages'', JArr [JObj [(''role'', JStr ''user''), (''content'', JStr ''hi'')]])])\<rparr>"

lemma hi_request_ok: "chat_request_ok hi_request hi_chat"
proof -
  have "TrimSpace ''m'' = ''m''" by code_simp
  then show ?thesis
    by (simp add: chat_request_ok_def hi_request_def hi_chat_def MethodPost_def decode_chat_request_def
        chat_request_field_def decode_message_def message_field_def zero_message_def zero_chat_request_def
        validateChatRequest_def)
qed

definition hi_backend :: transport where
  "hi_backend call = Inr \<lparr>reply_status = 200, reply_body = Some (JObj [(''output_text'', JStr ''hello'')])\<rparr>"

definition down_backend :: transport where
  "down_backend call = Inl (ErrMsg ''connection refused'')"

lemma send_hi: "\<exists>x. SendChatCompletion (\<lambda>_. None) hi_backend now url req = Inr x"
  by (simp add: SendChatCompletion_def hi_backend_def decode_backend_response_def
      backend_response_field_def zero_backend_response_def Let_def)

lemma send_down: "SendChatCompletion (\<lambda>_. None) down_backend now url req = Inl (ErrMsg ''connection refused'')"
  by (simp add: SendChatCompletion_def down_backend_def Let_def)

definition plain_env :: "unit chat_env" where
  "plain_env = \<lparr>ce_intn = (\<lambda>h n. 0), ce_sha = (\<lambda>_. replicate 32 CHR ''x''),
     ce_preferred = (\<lambda>k st. (Inr ([], False), st)), ce_remember = (\<lambda>k n t st. (None, st)), ce_elapsed = 12\<rparr>"

definition two_server :: "unit server" where
  "two_server = New [0, 1] 0 ()"

theorem chat_invalid_request_witness:
  "\<exists>text. handleChatCompletions plain_env (\<lambda>_. None) hi_backend 0 Map.empty
      \<lparr>rq_method = ''POST'', rq_path = [], rq_body = Some (JObj [(''model'', JStr ''m'')])\<rparr> two_server two_backends =
    (Ok (http_Error Map.empty text 400), two_server, two_backends)"
proof -
  let ?r = "\<lparr>rq_method = ''POST'', rq_path = [], rq_body = Some (JObj [(''model'', JStr ''m'')])\<rparr>"
  have "\<nexists>req. chat_request_ok ?r req"
    by (auto simp: chat_request_ok_def decode_chat_request_def chat_request_field_def zero_chat_request_def
        validateChatRequest_def split: if_splits)
  from chat_invalid_request [OF this, of plain_env "\<lambda>_. None" hi_backend 0 Map.empty two_server two_backends] show ?thesis
    by (simp add: MethodPost_def)
qed


lemma two_server_wf: "server_wf (ce_intn plain_env) (Suc k) two_server m" if "Suc k \<le> 2 ^ 63"
  using New_wf [OF that] by (simp add: two_server_def)

lemma chat_select_available:
  assumes "server_wf (ce_intn env) (Suc k) s m" and "b \<in> set (srv_backends s)" and "Healthy m b"
  shows "\<exists>d m1 so st. chat_select env req s m = (Ok d, m1, so, st) \<and>
    decision_Backend d \<in> set (srv_backends s) \<and> Healthy m (decision_Backend d)"
proof -
  obtain sel m1 so st where raw: "strat_Select (ce_intn env) (ce_preferred env) (chat_input env req) m
      (srv_strategy s, srv_store s) = (sel, m1, so, st)" by (metis prod_cases4)
  have inv: "strat_invar (ce_intn env) (Suc k) (srv_strategy s)"
    and members: "strat_members (srv_strategy s) = srv_backends s"
    using assms(1) by (simp_all add: server_wf_def)
  have "strat_HasHealthyBackend m (srv_strategy s)"
    using dispatch.has_healthy_iff [of m "(srv_strategy s, ())"] assms(2,3) members by auto
  moreover have "sel = Err e \<Longrightarrow> \<not> strat_HasHealthyBackend m (srv_strategy s)" for e
    using strat_Select_Err [OF inv, of _ _ m "srv_store s" e] raw by blast
  ultimately obtain d where "sel = Ok d"
    using strat_Select_invar [OF inv raw] by (cases sel) auto
  with raw strat_Select_Ok [OF inv] members show ?thesis by (simp add: chat_select_def)
qed

lemma two_server_select:
  obtains d m1 so st where "chat_select plain_env req two_server two_backends = (Ok d, m1, so, st)"
    and "decision_Backend d \<in> {0, 1}"
proof -
  have "server_wf (ce_intn plain_env) (Suc 0) two_server two_backends" by (rule two_server_wf) simp
  from chat_select_available [OF this, of 0 req] that show thesis
    by (auto simp: two_server_def New_def)
qed

theorem chat_leaks_nothing_witness:
  "\<exists>resp s' m'. handleChatCompletions plain_env (\<lambda>_. None) down_backend 0 Map.empty hi_request two_server two_backends
      = (Ok resp, s', m') \<and> cell_Load m' 7 = cell_Load two_backends 7 \<and> InFlight (srv_metrics s') = 0"
proof -
  obtain d m1 so st where sel: "chat_select plain_env hi_chat two_server two_backends = (Ok d, m1, so, st)"
    by (rule two_server_select)
  obtain resp s' m' where run: "handleChatCompletions plain_env (\<lambda>_. None) down_backend 0 Map.empty hi_request
      two_server two_backends = (Ok resp, s', m')"
    using chat_forwarded [OF hi_request_ok sel, of "\<lambda>_. None" down_backend 0 Map.empty]
    by (simp add: send_down Let_def)
  from chat_leaks_nothing [OF run, of 7] run show ?thesis
    by (simp add: two_server_def New_def new_metrics_def InFlight_def)
qed

theorem chat_success_witness:
  "\<exists>x s' m' b. handleChatCompletions plain_env (\<lambda>_. None) hi_backend 0 Map.empty hi_request two_server two_backends
      = (Ok (writeJSON [''X-Inferflow-Backend'' \<mapsto> Name two_backends b, ''X-Inferflow-Strategy'' \<mapsto> ''round_robin''] 200
           (encode_chat_response x)), s', m') \<and> b \<in> {0, 1}"
proof -
  obtain d m1 so st where sel: "chat_select plain_env hi_chat two_server two_backends = (Ok d, m1, so, st)"
    and d: "decision_Backend d \<in> {0, 1}"
    by (rule two_server_select)
  obtain x where x: "SendChatCompletion (\<lambda>_. None) hi_backend 0 (BaseURL two_backends (decision_Backend d)) hi_chat = Inr x"
    using send_hi by blast
  have "srv_strategyName two_server = ''round_robin''"
    by (simp add: two_server_def New_def RoundRobin_Name_def StrategyRoundRobin_def)
  with chat_success [OF hi_request_ok sel x, of Map.empty] d show ?thesis
    by (force simp: chat_headers_def StrategyKVAware_def)
qed

theorem chat_backend_failure_witness:
  "\<exists>h s' m' b. handleChatCompletions plain_env (\<lambda>_. None) down_backend 0 Map.empty hi_request two_server two_backends
      = (Ok (http_Error h ''backend request failed'' 502), s', m') \<and> b \<in> {0, 1} \<and> \<not> Healthy m' b"
proof -
  obtain d m1 so st where sel: "chat_select plain_env hi_chat two_server two_backends = (Ok d, m1, so, st)"
    and d: "decision_Backend d \<in> {0, 1}"
    by (rule two_server_select)
  from chat_backend_failure [OF hi_request_ok sel send_down, of 0 Map.empty] d show ?thesis by blast
qed

theorem chat_unavailable_witness:
  "handleChatCompletions plain_env (\<lambda>_. None) hi_backend 0 Map.empty hi_request two_server empty_mem
    = (Ok (http_Error Map.empty ''no healthy backend available'' 503),
       two_server\<lparr>srv_metrics := new_metrics\<lparr>ms_requestsTotal := 1\<rparr>,
         srv_strategy := SRoundRobin \<lparr>rr_backends = [0, 1], rr_next = 1\<rparr>\<rparr>, empty_mem)"
proof -
  have wf: "server_wf (ce_intn plain_env) (Suc 0) two_server empty_mem" by (rule two_server_wf) simp
  have "\<forall>b\<in>set (srv_backends two_server). \<not> Healthy empty_mem b"
    by (simp add: Healthy_def empty_mem_def)
  from chat_unavailable [OF hi_request_ok wf this, of "\<lambda>_. None" hi_backend 0 Map.empty] show ?thesis
    by (simp add: two_server_def New_def NewRoundRobin_def new_metrics_def)
qed

end
