(* ===== verification/Affinity.thy ===== *)
theory Affinity
  imports ChatRequests
begin

text \<open>
  What the router derives from a conversation, its estimated cost and its cache key, and the path of
  an affinity from one request to the next: remembered after a reply, looked up by the next
  selection of \<open>kv_aware\<close>.
\<close>

section \<open>The estimated cost\<close>

lemma total_bytes_eq:
  "total_bytes messages acc = acc + int (\<Sum>msg\<leftarrow>messages. length (TrimSpace (msg_Content msg)))"
  by (induction messages arbitrary: acc) simp_all

text \<open>
  The estimated cost of a request is a quarter of the bytes of its trimmed contents, rounded up,
  and at least 1.
\<close>

theorem estimate_request_cost:
  "estimateRequestCost messages =
    max 1 \<lceil>of_nat (\<Sum>msg\<leftarrow>messages. length (TrimSpace (msg_Content msg))) / (4 :: rat)\<rceil>"
proof -
  define n where "n = (\<Sum>msg\<leftarrow>messages. length (TrimSpace (msg_Content msg)))"
  have total: "total_bytes messages 0 = int n" by (simp add: total_bytes_eq n_def)
  have "\<lceil>of_nat n / (4 :: rat)\<rceil> = - (- int n div 4)"
    using ceiling_divide_eq_div [of "int n" 4, where 'a = rat] by simp
  also have "\<dots> = (if int n mod 4 \<noteq> 0 then int n div 4 + 1 else int n div 4)"
    by (simp add: zdiv_zminus1_eq_if)
  finally have "\<lceil>of_nat n / (4 :: rat)\<rceil> = (if int n mod 4 \<noteq> 0 then int n div 4 + 1 else int n div 4)" .
  then have "estimateRequestCost messages = max 1 \<lceil>of_nat n / (4 :: rat)\<rceil>"
    by (simp add: estimateRequestCost_def total Let_def max_def) linarith
  then show ?thesis by (simp add: n_def)
qed

section \<open>The cache key\<close>

lemma cache_payload_trimmed:
  "TrimSpace model = TrimSpace model' \<Longrightarrow>
    list_all2 (\<lambda>a b. TrimSpace (msg_Role a) = TrimSpace (msg_Role b) \<and>
      TrimSpace (msg_Content a) = TrimSpace (msg_Content b)) msgs msgs' \<Longrightarrow>
    cache_payload model msgs = cache_payload model' msgs'"
proof -
  assume "TrimSpace model = TrimSpace model'"
  moreover assume "list_all2 (\<lambda>a b. TrimSpace (msg_Role a) = TrimSpace (msg_Role b) \<and>
      TrimSpace (msg_Content a) = TrimSpace (msg_Content b)) msgs msgs'"
  then have "map (\<lambda>msg. TrimSpace (msg_Role msg) @ '':'' @ TrimSpace (msg_Content msg) @ newline) msgs =
      map (\<lambda>msg. TrimSpace (msg_Role msg) @ '':'' @ TrimSpace (msg_Content msg) @ newline) msgs'"
    by (induction rule: list_all2_induct) simp_all
  ultimately show ?thesis by (simp add: cache_payload_def)
qed

lemma buildCacheKey_shape:
  assumes "messages \<noteq> []"
  shows "buildCacheKey sha model messages =
    ''inferflow:prefix:'' @ hex_encode (take 16 (sha (cache_payload model messages)))"
  using cache_payload_not_Nil [OF assms] by (simp add: buildCacheKey_def Let_def)

lemma buildCacheKey_trimmed [simp]:
  "TrimSpace (buildCacheKey sha model messages) = buildCacheKey sha model messages"
proof (cases "cache_payload model messages = []")
  case False
  let ?d = "hex_encode (take 16 (sha (cache_payload model messages)))"
  let ?k = "''inferflow:prefix:'' @ ?d"
  have "visible (last ?k)"
  proof (cases "?d = []")
    case False
    then show ?thesis using visible_hex_encode [OF last_in_set] by simp
  qed (simp add: visible_def byte_in_def)
  then have "TrimSpace ?k = ?k"
    by (intro TrimSpace_visible) (simp_all add: visible_def byte_in_def)
  with False show ?thesis by (simp add: buildCacheKey_def Let_def)
qed (simp add: buildCacheKey_def)

text \<open>
  Every valid request has a cache key: the fixed prefix and the first 16 bytes of the hash of
  the conversation in hexadecimal.  White space around the model, a role or a content does not
  change it, so such requests share their affinity.
\<close>

theorem cache_key:
  assumes "validateChatRequest req = None" and "\<And>x. length (sha x) = 32"
  shows "length (buildCacheKey sha (req_Model req) (req_Messages req)) = 49 \<and>
    take 17 (buildCacheKey sha (req_Model req) (req_Messages req)) = ''inferflow:prefix:'' \<and>
    (\<forall>model msgs. TrimSpace model = TrimSpace (req_Model req) \<longrightarrow>
      list_all2 (\<lambda>a b. TrimSpace (msg_Role a) = TrimSpace (msg_Role b) \<and>
        TrimSpace (msg_Content a) = TrimSpace (msg_Content b)) msgs (req_Messages req) \<longrightarrow>
      buildCacheKey sha model msgs = buildCacheKey sha (req_Model req) (req_Messages req))"
proof -
  have ne: "req_Messages req \<noteq> []" using assms(1) by (auto simp: validateChatRequest_def split: if_splits)
  note shape = buildCacheKey_shape [OF ne]
  have "buildCacheKey sha model msgs = buildCacheKey sha (req_Model req) (req_Messages req)"
    if "TrimSpace model = TrimSpace (req_Model req)"
      and "list_all2 (\<lambda>a b. TrimSpace (msg_Role a) = TrimSpace (msg_Role b) \<and>
        TrimSpace (msg_Content a) = TrimSpace (msg_Content b)) msgs (req_Messages req)" for model msgs
    using cache_payload_trimmed [OF that] by (simp add: buildCacheKey_def)
  then show ?thesis by (simp add: shape assms(2))
qed

theorem cache_key_witness:
  "length (buildCacheKey (\<lambda>_. replicate 32 CHR ''x'') (req_Model hi_chat) (req_Messages hi_chat)) = 49"
proof -
  have "validateChatRequest hi_chat = None" using hi_request_ok by (simp add: chat_request_ok_def)
  from cache_key [OF this, of "\<lambda>_. replicate 32 CHR ''x''"] show ?thesis by simp
qed

text \<open>
  The fields are joined without escaping, so a message that quotes the separator has the key of
  another conversation: one user message with the content \<open>a\<close>, newline, \<open>assistant:b\<close> shares its
  affinity with the two messages \<open>user: a\<close> and \<open>assistant: b\<close>.
\<close>

theorem cache_key_collision:
  "buildCacheKey sha model
     [\<lparr>msg_Role = ''user'', msg_Content = ''a'' @ newline @ ''assistant:b''\<rparr>] =
   buildCacheKey sha model
     [\<lparr>msg_Role = ''user'', msg_Content = ''a''\<rparr>, \<lparr>msg_Role = ''assistant'', msg_Content = ''b''\<rparr>]"
proof -
  have "TrimSpace (''a'' @ newline @ ''assistant:b'') = ''a'' @ newline @ ''assistant:b''"
    "TrimSpace ''a'' = ''a''" "TrimSpace ''b'' = ''b''" "TrimSpace ''assistant'' = ''assistant''"
    "TrimSpace ''user'' = ''user''"
    by (rule TrimSpace_visible; simp add: visible_def byte_in_def newline_def)+
  then show ?thesis by (simp add: buildCacheKey_def cache_payload_def)
qed

section \<open>From one request to the next\<close>




subsection \<open>What happens in between\<close>










end
