(* ===== verification/Interleaving.thy ===== *)
theory Interleaving
  imports ChatRequests
begin

text \<open>
  Many requests at once.  A world is the server, the memory, the requests that wait for their
  backends, and the strategy objects that were replaced; its steps are the atomic parts of the
  handlers and of the prober, in any order and any number: the arrival of a request up to the call of
  its backend, the end of a waiting request with any outcome, a probe result for a backend, and a
  change of the strategy.  A request reads the active strategy before it selects, so a change can come
  in between: it then selects with the replaced object (\<open>arrive_late\<close>).  The lemmas hold in every
  reachable world.
\<close>

section \<open>Worlds and steps\<close>

type_synonym held_strategy = "string \<times> strategy_obj"
type_synonym 'st world = "'st server \<times> mem \<times> pending_chat list \<times> held_strategy list"

text \<open>The server as a request sees it that has read its strategy before.\<close>

definition with_strategy :: "'st server \<Rightarrow> held_strategy \<Rightarrow> 'st server" where
  "with_strategy s x = s\<lparr>srv_strategy := snd x, srv_strategyName := fst x\<rparr>"

fun add_waiting :: "chat_progress \<Rightarrow> pending_chat list \<Rightarrow> pending_chat list" where
  "add_waiting (Waiting p) ws = p # ws"
| "add_waiting _ ws = ws"

inductive world_step :: "'st world \<Rightarrow> 'st world \<Rightarrow> bool" where
  arrive: "chat_begin env h r s m = (prog, s', m') \<Longrightarrow> world_step (s, m, ws, os) (s', m', add_waiting prog ws, os)"
| arrive_late: "chat_begin env h r (with_strategy s x) m = (prog, s', m') \<Longrightarrow>
    world_step (s, m, ws, xs @ x # ys)
      (with_strategy s' (activeStrategy s), m', add_waiting prog ws, xs @ activeStrategy s' # ys)"
| finish: "chat_finish env res p s m = (resp, s', m') \<Longrightarrow> world_step (s, m, ws @ p # vs, os) (s', m', ws @ vs, os)"
| probe: "world_step (s, m, ws, os) (s, SetHealthy b healthy m, ws, os)"
| switch: "setStrategy raw s m = (Inr name, s', m') \<Longrightarrow>
    world_step (s, m, ws, os) (s', m', ws, activeStrategy s # os)"
| switch_fails: "setStrategy raw s m = (Inl e, s', m') \<Longrightarrow> world_step (s, m, ws, os) (s', m', ws, os)"

inductive reachable :: "'st world \<Rightarrow> 'st world \<Rightarrow> bool" for w0 :: "'st world" where
  reach_start: "reachable w0 w0"
| reach_step: "reachable w0 w \<Longrightarrow> world_step w w' \<Longrightarrow> reachable w0 w'"

text \<open>A router that has just been started: no counter is in use yet and no request waits.\<close>

definition initial_world :: "baddr list \<Rightarrow> int \<Rightarrow> 'st \<Rightarrow> mem \<Rightarrow> 'st world" where
  "initial_world backends ttl st m = (New backends ttl st, m, [], [])"

lemma with_strategy_simps [simp]:
  "srv_strategy (with_strategy s x) = snd x" "srv_strategyName (with_strategy s x) = fst x"
  "srv_backends (with_strategy s x) = srv_backends s" "srv_metrics (with_strategy s x) = srv_metrics s"
  "srv_store (with_strategy s x) = srv_store s" "srv_cacheTTL (with_strategy s x) = srv_cacheTTL s"
  "with_strategy s (activeStrategy s) = s" "activeStrategy (with_strategy s x) = x"
  by (simp_all add: with_strategy_def activeStrategy_def)

lemma snd_activeStrategy [simp]: "snd (activeStrategy s) = srv_strategy s" "fst (activeStrategy s) = srv_strategyName s"
  by (simp_all add: activeStrategy_def)

section \<open>The invariant\<close>

definition release_cells :: "pending_chat \<Rightarrow> cref set" where
  "release_cells p =
     (case decision_release (pc_decision p) of NoRelease \<Rightarrow> {} | SubtractFrom c k \<Rightarrow> {c})"

definition waiting_load :: "cref \<Rightarrow> pending_chat list \<Rightarrow> int64" where
  "waiting_load c ws = held c (map pc_decision ws)"

text \<open>The books are right, and every strategy object a request may hold is one of this server.\<close>

definition accounts :: "metrics_state \<Rightarrow> mem \<Rightarrow> pending_chat list \<Rightarrow> bool" where
  "accounts ms m ws \<longleftrightarrow>
     ms_inFlight ms = of_nat (length ws) \<and>
     (\<forall>p\<in>set ws. \<not> decision_once (pc_decision p) \<and> release_cells p \<subseteq> {..<mem_next_cell m}) \<and>
     (\<forall>c<mem_next_cell m. cell_Load m c = waiting_load c ws)"

definition held_ok :: "baddr list \<Rightarrow> nat \<Rightarrow> held_strategy \<Rightarrow> bool" where
  "held_ok bs n x \<longleftrightarrow> strat_members (snd x) = bs \<and> strat_Name (snd x) = fst x \<and> strat_cells (snd x) \<subseteq> {..<n}"

definition world_inv :: "'st world \<Rightarrow> bool" where
  "world_inv = (\<lambda>(s, m, ws, os). accounts (srv_metrics s) m ws \<and>
     list_all (held_ok (srv_backends s) (mem_next_cell m)) (activeStrategy s # os))"

lemma held_ok_mono: "held_ok bs n x \<Longrightarrow> n \<le> n' \<Longrightarrow> held_ok bs n' x"
  by (auto simp: held_ok_def)

lemma waiting_load_simps [simp]:
  "waiting_load c [] = 0"
  "waiting_load c (p # ws) = decision_load c (pc_decision p) + waiting_load c ws"
  "waiting_load c (ws @ vs) = waiting_load c ws + waiting_load c vs"
  by (simp_all add: waiting_load_def)

lemma waiting_load_fresh:
  "\<forall>p\<in>set ws. release_cells p \<subseteq> {..<n} \<Longrightarrow> n \<le> c \<Longrightarrow> waiting_load c ws = 0"
  by (induction ws) (auto simp: release_cells_def decision_load_def split: release_fn.splits)

lemma chat_begin_select:
  assumes "chat_begin env h r s m = (prog, s', m')"
  shows "(s', m') = (s, m) \<and> (\<exists>resp. prog = Replied resp) \<or>
    (\<exists>req sel so st. chat_select env req s m = (sel, m', so, st) \<and>
      srv_strategy s' = so \<and> srv_backends s' = srv_backends s \<and> srv_strategyName s' = srv_strategyName s \<and>
      (case sel of
         Ok d \<Rightarrow> (\<exists>p. prog = Waiting p \<and> pc_decision p = d) \<and>
           srv_metrics s' = begin_metrics (srv_strategyName s) (Name m (decision_Backend d)) d (srv_metrics s)
       | _ \<Rightarrow> (\<nexists>p. prog = Waiting p) \<and> srv_metrics s' = IncRequestsTotal (srv_metrics s)))"
proof (cases rule: chat_begin_cases [of r env h s m])
  case invalid
  with assms show ?thesis by auto
next
  case (valid req sel m1 so st)
  note beg = chat_begin_valid [OF valid, of h, unfolded chat_select_mem(2) [OF valid(2)]]
  show ?thesis
    using assms valid(2) beg
    by (intro disjI2 exI [of _ req] exI [of _ sel] exI [of _ so] exI [of _ st])
      (auto simp: Let_def split: outcome.splits)
qed

lemma chat_select_facts:
  assumes "chat_select env req s m = (sel, m', so, st)"
  shows "strat_members so = strat_members (srv_strategy s)" and "strat_Name so = strat_Name (srv_strategy s)"
    and "strat_cells so = strat_cells (srv_strategy s)" and "mem_next_cell m' = mem_next_cell m"
    and "sel = Ok d \<Longrightarrow> \<not> decision_once d \<and> cell_Load m' c = cell_Load m c + decision_load c d"
    and "sel = Ok d \<Longrightarrow> decision_release d = SubtractFrom c k \<Longrightarrow> c \<in> strat_cells (srv_strategy s)"
    and "\<forall>d. sel \<noteq> Ok d \<Longrightarrow> m' = m"
proof -
  note raw = assms [unfolded chat_select_def]
  show "strat_members so = strat_members (srv_strategy s)" and "strat_Name so = strat_Name (srv_strategy s)"
    using strat_Select_kind [OF raw] by simp_all
  show "strat_cells so = strat_cells (srv_strategy s)" and "mem_next_cell m' = mem_next_cell m"
    using strat_Select_cells(1,2) [OF raw] by simp_all
  show "\<not> decision_once d \<and> cell_Load m' c = cell_Load m c + decision_load c d" if "sel = Ok d"
    using strat_Select_release [OF raw [unfolded that]] strat_Select_cell [OF raw [unfolded that]] by simp
  show "c \<in> strat_cells (srv_strategy s)" if "sel = Ok d" "decision_release d = SubtractFrom c k"
    using strat_Select_cells(3) [OF raw that] .
  show "m' = m" if "\<forall>d. sel \<noteq> Ok d"
    using strat_Select_fail [OF raw that] .
qed

lemma initial_world_inv: "\<forall>c. cell_Load m c = 0 \<Longrightarrow> world_inv (initial_world backends ttl st m)"
  by (simp add: world_inv_def accounts_def held_ok_def activeStrategy_def initial_world_def New_def new_metrics_def
      NewRoundRobin_def strat_simps)

lemma chat_begin_inv:
  assumes "accounts (srv_metrics s) m ws" and "held_ok (srv_backends s) (mem_next_cell m) (activeStrategy s)"
    and "chat_begin env h r s m = (prog, s', m')"
  shows "accounts (srv_metrics s') m' (add_waiting prog ws)" and "srv_backends s' = srv_backends s"
    and "mem_next_cell m' = mem_next_cell m" and "held_ok (srv_backends s) (mem_next_cell m) (activeStrategy s')"
proof -
  have "accounts (srv_metrics s') m' (add_waiting prog ws) \<and> srv_backends s' = srv_backends s \<and>
    mem_next_cell m' = mem_next_cell m \<and> held_ok (srv_backends s) (mem_next_cell m) (activeStrategy s')"
    using chat_begin_select [OF assms(3)]
  proof (elim disjE exE conjE)
    fix resp assume "(s', m') = (s, m)" "prog = Replied resp"
    with assms(1,2) show ?thesis by simp
  next
    fix req sel so st
    assume sel: "chat_select env req s m = (sel, m', so, st)" and so: "srv_strategy s' = so"
      and keeps: "srv_backends s' = srv_backends s" "srv_strategyName s' = srv_strategyName s"
      and result: "case sel of
           Ok d \<Rightarrow> (\<exists>p. prog = Waiting p \<and> pc_decision p = d) \<and>
             srv_metrics s' = begin_metrics (srv_strategyName s) (Name m (decision_Backend d)) d (srv_metrics s)
         | _ \<Rightarrow> (\<nexists>p. prog = Waiting p) \<and> srv_metrics s' = IncRequestsTotal (srv_metrics s)"
    note facts = chat_select_facts [OF sel]
    have held: "held_ok (srv_backends s) (mem_next_cell m) (activeStrategy s')"
      using assms(2) facts(1-3) by (simp add: held_ok_def so keeps)
    show ?thesis
    proof (cases "\<exists>d. sel = Ok d")
      case True
      then obtain d p where d: "sel = Ok d" and p: "prog = Waiting p" "pc_decision p = d"
        using result by auto
      have "release_cells p \<subseteq> {..<mem_next_cell m}"
        using facts(6) [OF d] assms(2) by (auto simp: release_cells_def p held_ok_def split: release_fn.splits)
      with assms(1) facts(4) facts(5) [OF d] result held show ?thesis
        by (auto simp: accounts_def keeps d p)
    next
      case False
      then have "add_waiting prog ws = ws" "ms_inFlight (srv_metrics s') = ms_inFlight (srv_metrics s)"
        using result by (cases prog; auto simp: IncRequestsTotal_def split: outcome.splits)+
      with assms(1) facts(4,7) False held show ?thesis
        by (simp add: accounts_def keeps)
    qed
  qed
  then show "accounts (srv_metrics s') m' (add_waiting prog ws)" and "srv_backends s' = srv_backends s"
    and "mem_next_cell m' = mem_next_cell m" and "held_ok (srv_backends s) (mem_next_cell m) (activeStrategy s')"
    by blast+
qed

lemma world_inv_finish:
  assumes "world_inv (s, m, ws @ p # vs, os)" and "chat_finish env res p s m = (resp, s', m')"
  shows "world_inv (s', m', ws @ vs, os)"
proof -
  have once: "\<not> decision_once (pc_decision p)" using assms(1) by (simp add: world_inv_def accounts_def)
  note frame = chat_finish_frame [OF assms(2) once]
  show ?thesis using assms(1) by (auto simp: world_inv_def accounts_def activeStrategy_def frame)
qed

lemma world_inv_switch:
  assumes "world_inv (s, m, ws, os)" and "setStrategy raw s m = (Inr name, s', m')"
  shows "world_inv (s', m', ws, activeStrategy s # os)"
proof -
  from assms(2) obtain so where norm: "normalizeStrategyName raw = Inr name"
    and fresh: "fresh_strategy name (srv_backends s) m = (so, m')"
    and s': "s' = s\<lparr>srv_strategy := so, srv_strategyName := name\<rparr>"
    by (auto simp: setStrategy_eq split: sum.splits prod.splits)
  note f = fresh_strategy [OF fresh normalizeStrategyName_names [OF norm]]
  have acc: "accounts (srv_metrics s) m ws" using assms(1) by (simp add: world_inv_def)
  then have wait: "\<forall>p\<in>set ws. release_cells p \<subseteq> {..<mem_next_cell m}" by (simp add: accounts_def)
  have "cell_Load m' c = waiting_load c ws" if "c < mem_next_cell m'" for c
  proof (cases "c < mem_next_cell m")
    case True
    with f(7) acc show ?thesis by (simp add: accounts_def)
  next
    case False
    with f(9) that waiting_load_fresh [OF wait, of c] show ?thesis by simp
  qed
  moreover have "\<forall>p\<in>set ws. release_cells p \<subseteq> {..<mem_next_cell m'}"
    using wait f(4) by (meson lessThan_subset_iff order_trans)
  moreover have "held_ok (srv_backends s) (mem_next_cell m') (name, so)"
    using f(1,2,5) by (auto simp: held_ok_def)
  moreover have "list_all (held_ok (srv_backends s) (mem_next_cell m')) (activeStrategy s # os)"
    using assms(1) held_ok_mono [OF _ f(4)] by (auto simp: world_inv_def list_all_iff)
  ultimately show ?thesis using acc by (simp add: world_inv_def accounts_def activeStrategy_def s')
qed

lemma setStrategy_fails: "setStrategy raw s m = (Inl e, s', m') \<Longrightarrow> s' = s \<and> m' = m"
  by (auto simp: setStrategy_eq split: sum.splits prod.splits)

lemma world_inv_step: "world_step w w' \<Longrightarrow> world_inv w \<Longrightarrow> world_inv w'"
proof (induction rule: world_step.induct)
  case (arrive env h r s m prog s' m' ws os)
  then have "accounts (srv_metrics s) m ws" "held_ok (srv_backends s) (mem_next_cell m) (activeStrategy s)"
    by (simp_all add: world_inv_def)
  from chat_begin_inv [OF this arrive(1)] arrive(2) show ?case by (simp add: world_inv_def)
next
  case (arrive_late env h r s x m prog s' m' ws xs ys)
  then have "accounts (srv_metrics (with_strategy s x)) m ws"
    "held_ok (srv_backends (with_strategy s x)) (mem_next_cell m) (activeStrategy (with_strategy s x))"
    by (simp_all add: world_inv_def)
  from chat_begin_inv [OF this arrive_late(1)] arrive_late(2) show ?case by (simp add: world_inv_def)
next
  case (probe s m ws os b healthy)
  then show ?case by (simp add: world_inv_def accounts_def)
next
  case (switch_fails raw s m e s' m' ws os)
  then show ?case using setStrategy_fails by blast
qed (blast intro: world_inv_finish world_inv_switch)+

lemma reachable_inv: "reachable w0 w \<Longrightarrow> world_inv w0 \<Longrightarrow> world_inv w"
  by (induction rule: reachable.induct) (auto intro: world_inv_step)

section \<open>Properties\<close>

text \<open>
  C2: In every reachable world the in-flight gauge is the number of requests that wait for a
  backend, and every load counter of the active strategy, and of the replaced ones that requests may
  still use, is the load held by exactly these requests: none is counted twice, none is lost, and
  when no request waits all of them are zero.
\<close>

theorem counters_count_waiting:
  assumes "\<forall>c. cell_Load m0 c = 0" and "reachable (initial_world backends ttl st m0) (s, m, ws, os)"
  shows "InFlight (srv_metrics s) = of_nat (length ws) \<and>
    (\<forall>x\<in>set (activeStrategy s # os). \<forall>c\<in>strat_cells (snd x). cell_Load m c = held c (map pc_decision ws)) \<and>
    (ws = [] \<longrightarrow> InFlight (srv_metrics s) = 0 \<and>
      (\<forall>x\<in>set (activeStrategy s # os). \<forall>c\<in>strat_cells (snd x). cell_Load m c = 0))"
proof -
  have inv: "world_inv (s, m, ws, os)" using reachable_inv [OF assms(2) initial_world_inv [OF assms(1)]] .
  have "cell_Load m c = held c (map pc_decision ws)"
    if "x \<in> set (activeStrategy s # os)" "c \<in> strat_cells (snd x)" for x c
  proof -
    have "held_ok (srv_backends s) (mem_next_cell m) x"
      using inv that(1) by (auto simp: world_inv_def list_all_iff)
    with that(2) have "c < mem_next_cell m" by (auto simp: held_ok_def)
    with inv show ?thesis by (simp add: world_inv_def accounts_def waiting_load_def)
  qed
  with inv show ?thesis by (auto simp: world_inv_def accounts_def InFlight_def)
qed

lemma kv_backends_cells: "\<forall>c. cell_Load kv_backends c = 0"
  by (simp add: kv_backends_def two_backends_def empty_mem_def cell_Load_def SetHealthy_def)

lemma two_backends_cells: "\<forall>c. cell_Load two_backends c = 0"
  by (simp add: two_backends_def empty_mem_def cell_Load_def SetHealthy_def)

theorem counters_count_waiting_witness:
  "\<exists>s m p. reachable (initial_world [0, 1] 0 () two_backends) (s, m, [p], []) \<and> InFlight (srv_metrics s) = 1"
proof -
  obtain d m1 so st where sel: "chat_select plain_env hi_chat two_server two_backends = (Ok d, m1, so, st)"
    by (rule two_server_select)
  obtain p s where "chat_begin plain_env Map.empty hi_request two_server two_backends = (Waiting p, s, m1)"
    using chat_begin_valid [OF hi_request_ok sel, of Map.empty] by (simp add: Let_def)
  from arrive [OF this, of "[]" "[]"] have reach: "reachable (initial_world [0, 1] 0 () two_backends) (s, m1, [p], [])"
    unfolding initial_world_def two_server_def add_waiting.simps by (rule reach_step [OF reach_start])
  from counters_count_waiting [OF two_backends_cells reach] reach show ?thesis by auto
qed

section \<open>The metrics agree with each other\<close>

definition metrics_inv :: "metrics_state \<Rightarrow> bool" where
  "metrics_inv ms \<longleftrightarrow>
     distinct (map fst (ms_strategyCounts ms)) \<and> distinct (map fst (ms_backendCounts ms)) \<and>
     sum_list (map snd (ms_strategyCounts ms)) = sum_list (map snd (ms_backendCounts ms)) \<and>
     ms_kvCacheHits ms + ms_kvCacheMisses ms = counter_at (ms_strategyCounts ms) StrategyKVAware"

lemma metrics_inv_begin: "metrics_inv ms \<Longrightarrow> metrics_inv (begin_metrics sn bn d ms)"
  by (auto simp: metrics_inv_def distinct_count_one total_count_one counter_at_count_one)

lemma metrics_inv_finish: "metrics_inv ms \<Longrightarrow> metrics_inv (finish_metrics ok bn t ms)"
  by (simp add: metrics_inv_def)

lemma metrics_inv_IncRequestsTotal: "metrics_inv ms \<Longrightarrow> metrics_inv (IncRequestsTotal ms)"
  by (simp add: metrics_inv_def IncRequestsTotal_def)

lemma chat_finish_metrics:
  "chat_finish env res p s m = (resp, s', m') \<Longrightarrow>
    srv_metrics s' = finish_metrics (\<exists>x. res = Inr x) (Name m (decision_Backend (pc_decision p)))
      (ce_elapsed env) (srv_metrics s)"
  by (auto simp: chat_finish_eq Let_def split: if_splits)

lemma metrics_inv_chat_begin:
  assumes "chat_begin env h r s m = (prog, s', m')" and "metrics_inv (srv_metrics s)"
  shows "metrics_inv (srv_metrics s')"
  using chat_begin_select [OF assms(1)]
proof (elim disjE exE conjE)
  fix req sel so st
  assume "case sel of
         Ok d \<Rightarrow> (\<exists>p. prog = Waiting p \<and> pc_decision p = d) \<and>
           srv_metrics s' = begin_metrics (srv_strategyName s) (Name m (decision_Backend d)) d (srv_metrics s)
       | _ \<Rightarrow> (\<nexists>p. prog = Waiting p) \<and> srv_metrics s' = IncRequestsTotal (srv_metrics s)"
  then show ?thesis
    using assms(2) by (cases sel) (simp_all add: metrics_inv_begin metrics_inv_IncRequestsTotal)
qed (use assms(2) in simp)

lemma metrics_inv_step:
  assumes "world_step w w'"
  shows "metrics_inv (srv_metrics (fst w)) \<Longrightarrow> metrics_inv (srv_metrics (fst w'))"
proof -
  show "metrics_inv (srv_metrics (fst w)) \<Longrightarrow> metrics_inv (srv_metrics (fst w'))"
    using assms
  proof (induction rule: world_step.induct)
    case (arrive env h r s m prog s' m' ws os)
    then show ?case by (simp add: metrics_inv_chat_begin)
  next
    case (arrive_late env h r s x m prog s' m' ws xs ys)
    then show ?case by (simp add: metrics_inv_chat_begin [OF arrive_late(1)])
  next
    case (finish env res p s m resp s' m' ws vs os)
    then show ?case by (simp add: chat_finish_metrics [OF finish(1)] metrics_inv_finish)
  next
    case (switch raw s m name s' m' ws os)
    then show ?case by (auto simp: setStrategy_eq split: sum.splits prod.splits)
  next
    case (switch_fails raw s m e s' m' ws os)
    then show ?case using setStrategy_fails by fastforce
  qed simp
qed

text \<open>
  C25: In every reachable world the metrics agree with each other (modulo \<open>2^64\<close>): as many backend
  selections as strategy selections are recorded, no name is listed twice, and the cache hits and
  misses together are the selections of \<open>kv_aware\<close>.
\<close>

theorem metrics_consistent:
  assumes "reachable (initial_world backends ttl st m0) (s, m, ws, os)"
  shows "sum_list (map snd (StrategySnapshot (srv_metrics s))) = sum_list (map snd (BackendSnapshot (srv_metrics s))) \<and>
    distinct (map fst (StrategySnapshot (srv_metrics s))) \<and> distinct (map fst (BackendSnapshot (srv_metrics s))) \<and>
    KVCacheHits (srv_metrics s) + KVCacheMisses (srv_metrics s)
      = counter_at (StrategySnapshot (srv_metrics s)) StrategyKVAware"
proof -
  have "metrics_inv (srv_metrics (fst (s, m, ws, os)))"
    using assms
  proof (induction rule: reachable.induct)
    case reach_start
    show ?case
      by (simp add: initial_world_def New_def new_metrics_def metrics_inv_def counter_at_def)
  qed (rule metrics_inv_step)
  then show ?thesis
    by (simp add: metrics_inv_def StrategySnapshot_def BackendSnapshot_def KVCacheHits_def KVCacheMisses_def)
qed

theorem metrics_consistent_witness:
  "\<exists>s m ws os. reachable (initial_world [0, 1] 0 () kv_backends) (s, m, ws, os) \<and> srv_strategyName s = StrategyKVAware \<and>
    KVCacheHits (srv_metrics s) + KVCacheMisses (srv_metrics s)
      = counter_at (StrategySnapshot (srv_metrics s)) StrategyKVAware"
proof -
  have norm: "normalizeStrategyName ''KV-aware'' = Inr StrategyKVAware" by code_simp
  obtain so m where fresh: "fresh_strategy StrategyKVAware [0, 1] kv_backends = (so, m)" by fastforce
  let ?s0 = "New [0, 1] 0 () :: unit server"
  have "srv_backends ?s0 = [0, 1]" by (simp add: New_def)
  then have "setStrategy ''KV-aware'' ?s0 kv_backends =
      (Inr StrategyKVAware, ?s0\<lparr>srv_strategy := so, srv_strategyName := StrategyKVAware\<rparr>, m)"
    using fresh norm by (simp only: setStrategy_eq sum.case prod.case)
  from world_step.switch [OF this, of "[]" "[]"]
  have reach: "reachable (initial_world [0, 1] 0 () kv_backends)
      (?s0\<lparr>srv_strategy := so, srv_strategyName := StrategyKVAware\<rparr>, m, [], [activeStrategy ?s0])"
    unfolding initial_world_def by (rule reach_step [OF reach_start])
  from metrics_consistent [OF reach] reach show ?thesis by fastforce
qed

end
