(* ===== verification/Endpoints.thy ===== *)
theory Endpoints
  imports Interleaving
begin

text \<open>
  The prober, the status endpoint and the middleware, and the absence of panics in long runs.
\<close>

section \<open>Probes\<close>

lemma HealthCheck_None:
  "HealthCheck parse_url do url = None \<longleftrightarrow>
    parse_url (url @ ''/healthz'') = None \<and>
    (\<exists>reply. do \<lparr>call_method = MethodGet, call_url = url @ ''/healthz'', call_headers = Map.empty, call_body = None\<rparr>
      = Inr reply \<and> reply_status reply < 400)"
  by (auto simp: HealthCheck_def Let_def split: option.splits sum.splits)

lemma probe_loop_spec:
  "distinct bs \<Longrightarrow>
    (\<forall>b. b \<notin> set bs \<longrightarrow> Healthy (probe_loop parse_url do i bs m) b = Healthy m b) \<and>
    (\<forall>j<length bs. Healthy (probe_loop parse_url do i bs m) (bs ! j) \<longleftrightarrow>
        HealthCheck parse_url (do (i + j)) (BaseURL m (bs ! j)) = None) \<and>
    mem_cell (probe_loop parse_url do i bs m) = mem_cell m \<and>
    BaseURL (probe_loop parse_url do i bs m) = BaseURL m"
proof (induction bs arbitrary: i m)
  case (Cons b bs)
  let ?ok = "HealthCheck parse_url (do i) (BaseURL m b) = None"
  let ?m = "SetHealthy b ?ok m"
  have url: "BaseURL ?m = BaseURL m" by (rule ext) simp
  from Cons.IH [of "Suc i" ?m] Cons.prems have IH:
    "\<forall>c. c \<notin> set bs \<longrightarrow> Healthy (probe_loop parse_url do (Suc i) bs ?m) c = Healthy ?m c"
    "\<forall>j<length bs. Healthy (probe_loop parse_url do (Suc i) bs ?m) (bs ! j) \<longleftrightarrow>
        HealthCheck parse_url (do (Suc i + j)) (BaseURL ?m (bs ! j)) = None"
    "mem_cell (probe_loop parse_url do (Suc i) bs ?m) = mem_cell m"
    "BaseURL (probe_loop parse_url do (Suc i) bs ?m) = BaseURL m"
    by (simp_all add: url)
  have step: "probe_loop parse_url do i (b # bs) m = probe_loop parse_url do (Suc i) bs ?m"
    by (simp add: Let_def)
  have "Healthy (probe_loop parse_url do (Suc i) bs ?m) ((b # bs) ! j) \<longleftrightarrow>
      HealthCheck parse_url (do (i + j)) (BaseURL m ((b # bs) ! j)) = None" if "j < length (b # bs)" for j
  proof (cases j)
    case 0
    with IH(1) Cons.prems show ?thesis by simp
  next
    case (Suc k)
    with IH(2) that show ?thesis by (simp add: url)
  qed
  with IH(1,3,4) step show ?case by simp
qed simp

text \<open>
  C16: A round of probes sets the health of every configured backend to the outcome of its own health
  check (the \<open>/healthz\<close> endpoint was reached and answered with a status below 400), whatever it was
  before, so a backend that recovered comes back into rotation; it touches no other backend and no
  load counter.
\<close>

theorem probe_round:
  assumes "distinct (srv_backends s)"
  shows "(\<forall>i<length (srv_backends s). let b = srv_backends s ! i; url = BaseURL m b @ ''/healthz'' in
      Healthy (probeBackends parse_url do s m) b \<longleftrightarrow>
        parse_url url = None \<and>
        (\<exists>reply. do i \<lparr>call_method = MethodGet, call_url = url, call_headers = Map.empty, call_body = None\<rparr>
          = Inr reply \<and> reply_status reply < 400)) \<and>
    (\<forall>b. b \<notin> set (srv_backends s) \<longrightarrow> Healthy (probeBackends parse_url do s m) b = Healthy m b) \<and>
    (\<forall>c. cell_Load (probeBackends parse_url do s m) c = cell_Load m c)"
  using probe_loop_spec [OF assms, of parse_url "do" 0 m]
  by (simp add: probeBackends_def HealthCheck_None cell_Load_def Let_def)

theorem probe_round_witness:
  "Healthy (probeBackends (\<lambda>_. None) (\<lambda>i. if i = 0 then down_backend else hi_backend) two_server two_backends) 1 \<and>
   \<not> Healthy (probeBackends (\<lambda>_. None) (\<lambda>i. if i = 0 then down_backend else hi_backend) two_server two_backends) 0"
proof -
  have bs: "srv_backends two_server = [0, 1]" by (simp add: two_server_def New_def)
  then have "distinct (srv_backends two_server)" by simp
  note probe = conjunct1 [OF probe_round [OF this, of two_backends "\<lambda>_. None"
      "\<lambda>i. if i = 0 then down_backend else hi_backend"], rule_format, unfolded bs Let_def]
  from probe [of 0] probe [of 1] show ?thesis
    by (simp add: down_backend_def hi_backend_def)
qed

section \<open>The status endpoint\<close>

definition json_field :: "string \<Rightarrow> json \<Rightarrow> json option" where
  "json_field k v = (case v of JObj fs \<Rightarrow> map_of fs k | _ \<Rightarrow> None)"

text \<open>
  What \<open>/api/status\<close> reports as \<open>pending\<close> for a backend is the number of all selections so far:
  when a waiting request ends, the in-flight gauge falls and no reported \<open>pending\<close> value does.
\<close>

theorem status_pending_never_falls:
  assumes "chat_finish env res p s m = (rsp, s', m')" and "\<not> decision_once (pc_decision p)"
  shows "json_field ''pending'' (backend_status (srv_metrics s') m' b) =
      Some (JInt (sint (counter_at (BackendSnapshot (srv_metrics s)) (Name m b)))) \<and>
    json_field ''pending'' (backend_status (srv_metrics s') m' b) =
      json_field ''pending'' (backend_status (srv_metrics s) m b) \<and>
    InFlight (srv_metrics s') = InFlight (srv_metrics s) - 1"
  using chat_finish_frame(2,7) [OF assms] chat_finish_metrics [OF assms(1)]
  by (simp add: backend_status_def json_field_def BackendSnapshot_def InFlight_def)

theorem status_pending_never_falls_witness:
  "\<exists>s m b. reachable (initial_world [0, 1] 0 () two_backends) (s, m, [], []) \<and> InFlight (srv_metrics s) = 0 \<and>
    json_field ''pending'' (backend_status (srv_metrics s) m b) = Some (JInt 1)"
proof -
  obtain d m1 so st where sel: "chat_select plain_env hi_chat two_server two_backends = (Ok d, m1, so, st)"
    by (rule two_server_select)
  obtain p s where beg: "chat_begin plain_env Map.empty hi_request two_server two_backends = (Waiting p, s, m1)"
    and p: "pc_decision p = d" and ms: "srv_metrics s = begin_metrics (srv_strategyName two_server)
      (Name two_backends (decision_Backend d)) d (srv_metrics two_server)"
    using chat_begin_valid [OF hi_request_ok sel, of Map.empty] chat_select_mem(2) [OF sel] by (simp add: Let_def)
  have once: "\<not> decision_once (pc_decision p)" using chat_select_facts(5) [OF sel refl] p by simp
  obtain rsp s' m' where fin: "chat_finish plain_env (Inl (ErrMsg ''x'')) p s m1 = (rsp, s', m')"
    by (metis prod_cases3)
  have "world_step (s, m1, [p], []) (s', m', [], [])" using finish [OF fin, of "[]" "[]" "[]"] by simp
  with arrive [OF beg, of "[]" "[]", unfolded add_waiting.simps]
  have "reachable (initial_world [0, 1] 0 () two_backends) (s', m', [], [])"
    unfolding initial_world_def two_server_def by (rule reach_step [OF reach_step [OF reach_start]])
  moreover have "sint (1 :: int64) = 1" by simp
  ultimately show ?thesis
    using status_pending_never_falls [OF fin once, of "decision_Backend d"] ms chat_select_mem(2) [OF sel]
    by (auto simp: BackendSnapshot_def counter_at_count_one InFlight_def two_server_def New_def new_metrics_def
        counter_at_def [of "[]"])
qed

section \<open>The middleware\<close>

definition cors_ok :: "headers \<Rightarrow> bool" where
  "cors_ok h \<longleftrightarrow> h ''Access-Control-Allow-Origin'' = Some ''*'' \<and>
     h ''Access-Control-Allow-Methods'' = Some ''GET, POST, PUT, OPTIONS'' \<and>
     h ''Access-Control-Allow-Headers'' = Some ''Content-Type''"

lemma cors_ok_update [simp]:
  "k \<notin> {''Access-Control-Allow-Origin'', ''Access-Control-Allow-Methods'', ''Access-Control-Allow-Headers''} \<Longrightarrow>
    cors_ok (h(k \<mapsto> v)) = cors_ok h"
  by (auto simp: cors_ok_def)

lemma cors_ok_http_Error [simp]: "cors_ok (rsp_headers (http_Error h e c)) = cors_ok h"
  by simp

lemma cors_ok_writeJSON [simp]: "cors_ok (rsp_headers (writeJSON h c p)) = cors_ok h"
  by simp

lemma cors_ok_chat_headers [simp]: "cors_ok (chat_headers h n sn d) = cors_ok h"
  by (simp add: chat_headers_def Let_def)

lemma cors_ok_chat:
  assumes "handleChatCompletions env parse_url do now h r s m = (Ok rsp, s', m')" and "cors_ok h"
  shows "cors_ok (rsp_headers rsp)"
proof (cases rule: chat_begin_cases [of r env h s m])
  case invalid
  with assms show ?thesis by (auto simp: handleChatCompletions_def simp del: http_Error_simps)
next
  case (valid req sel m1 so st)
  note beg = chat_begin_valid [OF valid, of h]
  show ?thesis
  proof (cases sel)
    case (Ok d)
    from assms show ?thesis
      unfolding chat_forwarded [OF valid(1) valid(2) [unfolded Ok]] Let_def
      by (auto simp del: http_Error_simps writeJSON_simps split: sum.splits)
  qed (use beg assms in \<open>auto simp: handleChatCompletions_def Let_def simp del: http_Error_simps\<close>)
qed

text \<open>
  Browsers may call the router: every reply, of every endpoint and on every path, carries the three
  CORS headers, and a preflight request is answered 204 without reaching any handler.
\<close>

theorem cors_everywhere:
  assumes "ServeHTTP env parse_url do now r (s, m) = (Ok rsp, s', m')"
  shows "cors_ok (rsp_headers rsp) \<and>
    (rq_method r = MethodOptions \<longrightarrow> rsp_status rsp = 204 \<and> rsp_body rsp = NoBody \<and> s' = s \<and> m' = m)"
proof (cases "rq_method r = MethodOptions")
  case True
  with assms show ?thesis
    by (auto simp: ServeHTTP_def corsMiddleware_def cors_ok_def cors_headers_def)
next
  case False
  have cors: "cors_ok cors_headers" by (simp add: cors_ok_def cors_headers_def)
  from False assms have mux: "server_mux env parse_url do now cors_headers r s m = (Ok rsp, s', m')"
    by (simp add: ServeHTTP_def corsMiddleware_def)
  have "cors_ok (rsp_headers rsp)"
  proof (cases "rq_path r = ''/v1/chat/completions''")
    case True
    with mux have "handleChatCompletions env parse_url do now cors_headers r s m = (Ok rsp, s', m')"
      by (simp add: server_mux_def)
    then show ?thesis using cors by (rule cors_ok_chat)
  next
    case False
    with mux cors show ?thesis
      by (auto simp: server_mux_def handleHealthz_def handleReadyz_def handleStrategy_def handleMetrics_def
          handleStatus_def http_NotFound_def Let_def case_prod_beta
          simp del: http_Error_simps writeJSON_simps split: if_splits option.splits sum.splits prod.splits)
  qed
  with False show ?thesis by simp
qed

theorem cors_everywhere_witness:
  "\<exists>rsp s' m'. ServeHTTP plain_env (\<lambda>_. None) hi_backend 0 \<lparr>rq_method = ''GET'', rq_path = ''/nothing'', rq_body = None\<rparr>
      (two_server, two_backends) = (Ok rsp, s', m') \<and> rsp_status rsp = 404 \<and> cors_ok (rsp_headers rsp)"
proof -
  let ?r = "\<lparr>rq_method = ''GET'', rq_path = ''/nothing'', rq_body = None\<rparr>"
  have run: "ServeHTTP plain_env (\<lambda>_. None) hi_backend 0 ?r (two_server, two_backends) =
      (Ok (http_NotFound cors_headers), two_server, two_backends)"
    by (simp add: ServeHTTP_def corsMiddleware_def server_mux_def MethodOptions_def)
  from cors_everywhere [OF run] run show ?thesis by (auto simp: http_NotFound_def)
qed

section \<open>Panics\<close>

text \<open>
  The rotation counter of the active strategy is at most the number of steps since the start, so it
  stays in the range in which the index arithmetic of the selections is right.
\<close>

inductive reaches_in :: "'st world \<Rightarrow> nat \<Rightarrow> 'st world \<Rightarrow> bool" for w0 :: "'st world" where
  reaches_0: "reaches_in w0 0 w0"
| reaches_Suc: "reaches_in w0 n w \<Longrightarrow> world_step w w' \<Longrightarrow> reaches_in w0 (Suc n) w'"

lemma strat_invar_change: "strat_invar i k so \<Longrightarrow> intn_range j \<Longrightarrow> strat_invar j k so"
  by (simp add: strat_invar_def split: strategy_obj.splits)

lemma strat_invar_mono: "strat_invar i k so \<Longrightarrow> k' \<le> k \<Longrightarrow> strat_invar i k' so"
  by (auto simp: strat_invar_def rr_invar_def lt_invar_def split: strategy_obj.splits)

lemma Random_Select_kind:
  "strat_Select intn pref inp m (SRandom s, st) = (r, m', so', st') \<Longrightarrow> \<exists>s'. so' = SRandom s'"
  by (auto simp: strat_Select_def split: prod.splits)

text \<open>Even with a generator out of its range a selection keeps the tables in order.\<close>

lemma strat_Select_invar_any:
  assumes "strat_invar i (Suc k) so" and "strat_Select j pref inp m (so, st) = (r, m', so', st')"
  shows "strat_invar i k so'"
proof (cases so)
  case (SRandom s)
  with assms Random_Select_kind show ?thesis by (fastforce simp: strat_invar_def)
next
  case (SRoundRobin s)
  with assms(1) have "strat_invar j (Suc k) so" by (simp add: strat_invar_def)
  from strat_Select_invar [OF this assms(2)] assms(2) SRoundRobin show ?thesis
    by (auto simp: strat_invar_def strat_Select_def split: prod.splits)
next
  case (SLeastPending s)
  with assms(1) have "strat_invar j (Suc k) so" by (simp add: strat_invar_def)
  from strat_Select_invar [OF this assms(2)] assms(2) SLeastPending show ?thesis
    by (auto simp: strat_invar_def strat_Select_def split: prod.splits)
next
  case (SKVAware s)
  with assms(1) have "strat_invar j (Suc k) so" by (simp add: strat_invar_def)
  from strat_Select_invar [OF this assms(2)] assms(2) SKVAware show ?thesis
    by (auto simp: strat_invar_def strat_Select_def split: prod.splits)
qed

lemma chat_begin_strat_invar:
  assumes "chat_begin env h r s m = (prog, s', m')" and "strat_invar i (Suc k) (srv_strategy s)"
  shows "strat_invar i k (srv_strategy s')"
  using chat_begin_select [OF assms(1)]
proof (elim disjE exE conjE)
  fix resp assume "(s', m') = (s, m)"
  with assms(2) show ?thesis by (auto intro: strat_invar_mono)
next
  fix req sel so st
  assume "chat_select env req s m = (sel, m', so, st)" and "srv_strategy s' = so"
  with strat_Select_invar_any [OF assms(2)] show ?thesis by (auto simp: chat_select_def)
qed

definition held_invar :: "nat \<Rightarrow> 'st world \<Rightarrow> bool" where
  "held_invar k = (\<lambda>(s, m, ws, os). \<forall>x\<in>set (activeStrategy s # os). strat_invar (\<lambda>h n. 0) k (snd x))"

lemma held_invar_mono: "held_invar k w \<Longrightarrow> k' \<le> k \<Longrightarrow> held_invar k' w"
  by (auto simp: held_invar_def intro: strat_invar_mono split: prod.splits)

lemma held_invarI:
  "strat_invar (\<lambda>h n. 0) k (srv_strategy s) \<Longrightarrow> (\<And>x. x \<in> set os \<Longrightarrow> strat_invar (\<lambda>h n. 0) k (snd x)) \<Longrightarrow>
    held_invar k (s, m, ws, os)"
  by (simp add: held_invar_def)

lemma held_invarD:
  "held_invar k (s, m, ws, os) \<Longrightarrow> strat_invar (\<lambda>h n. 0) k (srv_strategy s)"
  "held_invar k (s, m, ws, os) \<Longrightarrow> x \<in> set os \<Longrightarrow> strat_invar (\<lambda>h n. 0) k (snd x)"
  by (simp_all add: held_invar_def)

lemma world_step_strat_invar:
  assumes "world_step w w'" and "held_invar (Suc k) w" and "Suc k \<le> 2 ^ 63"
  shows "held_invar k w'"
proof -
  have "held_invar k w" by (rule held_invar_mono [OF assms(2)]) simp
  with assms show ?thesis
  proof (induction rule: world_step.induct)
    case (arrive env h r s m prog s' m' ws os)
    have "strat_invar (\<lambda>h n. 0) k (srv_strategy s')"
      using chat_begin_strat_invar [OF arrive(1) held_invarD(1) [OF arrive(2)]] .
    then show ?case using held_invarD(2) [OF arrive(4)] by (rule held_invarI)
  next
    case (arrive_late env h r s x m prog s' m' ws xs ys)
    have "strat_invar (\<lambda>h n. 0) (Suc k) (srv_strategy (with_strategy s x))"
      using held_invarD(2) [OF arrive_late(2), of x] by simp
    from chat_begin_strat_invar [OF arrive_late(1) this]
    have new: "strat_invar (\<lambda>h n. 0) k (srv_strategy s')" .
    show ?case
    proof (rule held_invarI)
      show "strat_invar (\<lambda>h n. 0) k (srv_strategy (with_strategy s' (activeStrategy s)))"
        using held_invarD(1) [OF arrive_late(4)] by simp
      fix y assume "y \<in> set (xs @ activeStrategy s' # ys)"
      then show "strat_invar (\<lambda>h n. 0) k (snd y)" using new held_invarD(2) [OF arrive_late(4), of y] by auto
    qed
  next
    case (finish env res p s m resp s' m' ws vs os)
    then have "srv_strategy s' = srv_strategy s" by (auto simp: chat_finish_eq Let_def split: if_splits)
    with finish show ?case by (simp add: held_invar_def)
  next
    case (probe s m ws os b healthy)
    then show ?case by (simp add: held_invar_def)
  next
    case (switch raw s m name s' m' ws os)
    have range: "intn_range (\<lambda>h n. 0)" by (simp add: intn_range_def)
    have "k \<le> 2 ^ 63" using switch(3) by simp
    then have "strat_invar (\<lambda>h n. 0) k (srv_strategy s')"
      using setStrategy_wf [OF switch(1) range] by (simp add: server_wf_def)
    with switch(4) show ?case by (simp add: held_invar_def)
  next
    case (switch_fails raw s m e s' m' ws os)
    then show ?case using setStrategy_fails by (metis held_invarD held_invarI)
  qed
qed

lemma reaches_in_strat_invar:
  "reaches_in (initial_world backends ttl st m0) n w \<Longrightarrow> n \<le> 2 ^ 63 \<Longrightarrow> held_invar (2 ^ 63 - n) w"
proof (induction rule: reaches_in.induct)
  case reaches_0
  show ?case
    by (simp add: initial_world_def New_def NewRoundRobin_def held_invar_def activeStrategy_def strat_invar_def
        rr_invar_def)
next
  case (reaches_Suc n w w')
  then have eq: "Suc (2 ^ 63 - Suc n) = 2 ^ 63 - n" by (intro Suc_diff_Suc) simp
  from reaches_Suc have "held_invar (2 ^ 63 - n) w" by simp
  then have "held_invar (Suc (2 ^ 63 - Suc n)) w" by (simp only: eq)
  with reaches_Suc(2) show ?case by (rule world_step_strat_invar) (simp only: eq diff_le_self)
qed

lemma reaches_in_held:
  assumes "reaches_in (initial_world backends ttl st m0) n (s, m, ws, os)" and "n < 2 ^ 63"
    and "x \<in> set (activeStrategy s # os)"
  shows "strat_invar (\<lambda>h n. 0) (Suc (2 ^ 63 - Suc n)) (snd x)"
proof -
  have eq: "Suc (2 ^ 63 - Suc n) = 2 ^ 63 - n" using assms(2) by (rule Suc_diff_Suc)
  from reaches_in_strat_invar [OF assms(1)] assms(2,3) show ?thesis
    unfolding eq held_invar_def by auto
qed

text \<open>
  C11: No request panics in the first \<open>2^63\<close> steps of a router, whatever requests, probes, backend
  failures and strategy changes happen in whatever order, and whether it selects with the active
  strategy or with one that was replaced after it was read: every request is replied to or waits for
  its backend.
\<close>

theorem no_panic:
  assumes "reaches_in (initial_world backends ttl st m0) n (s, m, ws, os)" and "n < 2 ^ 63"
    and "intn_range (ce_intn env)" and "x \<in> set (activeStrategy s # os)"
  shows "fst (chat_begin env h r (with_strategy s x) m) \<noteq> Aborted"
proof
  let ?s = "with_strategy s x"
  assume abort: "fst (chat_begin env h r ?s m) = Aborted"
  have inv: "strat_invar (ce_intn env) (Suc (2 ^ 63 - Suc n)) (srv_strategy ?s)"
    using strat_invar_change [OF reaches_in_held [OF assms(1,2,4)] assms(3)] by simp
  show False
  proof (cases rule: chat_begin_cases [of r env h ?s m])
    case invalid
    with abort show False by auto
  next
    case (valid req sel m1 so st)
    from strat_Select_invar [OF inv valid(2) [unfolded chat_select_def]]
    have "sel \<noteq> Panic" ..
    with abort chat_begin_valid [OF valid, of h] show False
      by (cases sel) (simp_all add: Let_def)
  qed
qed

theorem no_panic_witness:
  "fst (chat_begin plain_env Map.empty hi_request (New [0, 1] 0 ()) two_backends) \<noteq> Aborted"
proof -
  let ?s = "New [0, 1] 0 () :: unit server"
  have "reaches_in (initial_world [0, 1] 0 () two_backends) 0 (?s, two_backends, [], [])"
    unfolding initial_world_def by (rule reaches_0)
  from no_panic [OF this, of plain_env "activeStrategy ?s"] show ?thesis by (simp add: plain_env_def intn_range_def)
qed

end
