(* ===== verification/Outage.thy ===== *)
theory Outage
  imports Endpoints
begin

text \<open>
  How the router degrades and recovers: what a sequence of chat requests meets when no backend works,
  and what the next probe round changes.
\<close>

section \<open>Chat requests during an outage\<close>

text \<open>A network on which every call fails, with an error of the transport or with an error status.\<close>

definition dead :: "transport \<Rightarrow> bool" where
  "dead net \<longleftrightarrow> (\<forall>call. case net call of Inl e \<Rightarrow> True | Inr reply \<Rightarrow> 400 \<le> reply_status reply)"

lemma deadD: "dead net \<Longrightarrow> net call = Inr reply \<Longrightarrow> 400 \<le> reply_status reply"
  unfolding dead_def by (metis sum.simps(6))

lemma dead_SendChatCompletion: "dead net \<Longrightarrow> \<exists>e. SendChatCompletion parse_url net now url req = Inl e"
  by (auto simp: SendChatCompletion_def Let_def dest: deadD split: option.split sum.split)

definition healthy_backends :: "'st server \<Rightarrow> mem \<Rightarrow> baddr set" where
  "healthy_backends s m = {b \<in> set (srv_backends s). Healthy m b}"

lemma finite_healthy_backends [simp]: "finite (healthy_backends s m)"
  by (simp add: healthy_backends_def)

lemma server_wf_kept:
  assumes "server_wf (ce_intn env) (Suc k) s m" and "chat_select env req s m = (sel, m1, so, st)"
    and "srv_strategy s' = so" and "srv_backends s' = srv_backends s" and "srv_strategyName s' = srv_strategyName s"
    and "mem_next_cell m' = mem_next_cell m1"
  shows "server_wf (ce_intn env) k s' m'"
  using assms(1,3-6) chat_select_facts(1-4) [OF assms(2)]
    strat_Select_invar [OF _ assms(2) [unfolded chat_select_def], of k]
  by (simp add: server_wf_def)

lemma server_wf_mem: "server_wf intn k s m \<Longrightarrow> mem_next_cell m' = mem_next_cell m \<Longrightarrow> server_wf intn k s m'"
  by (simp add: server_wf_def)

lemma mem_next_cell_probe: "mem_next_cell (probeBackends parse_url net s m) = mem_next_cell m"
proof -
  have "mem_next_cell (probe_loop parse_url net i bs m) = mem_next_cell m" for i bs m
    by (induction bs arbitrary: i m) (simp_all add: Let_def SetHealthy_def)
  then show ?thesis by (simp add: probeBackends_def)
qed

text \<open>One request: it takes one healthy backend out of rotation, or finds none.\<close>

lemma chat_during_outage:
  assumes "chat_request_ok r req" and wf: "server_wf (ce_intn env) (Suc k) s m" and "dead net"
  shows "\<exists>rsp s' m'. handleChatCompletions env parse_url net now h r s m = (Ok rsp, s', m') \<and>
    server_wf (ce_intn env) k s' m' \<and> srv_backends s' = srv_backends s \<and>
    (if healthy_backends s m = {} then rsp_status rsp = 503 \<and> healthy_backends s' m' = {}
     else rsp_status rsp = 502 \<and> (\<exists>b\<in>healthy_backends s m. healthy_backends s' m' = healthy_backends s m - {b}))"
proof (cases "healthy_backends s m = {}")
  case True
  then have none: "\<forall>b\<in>set (srv_backends s). \<not> Healthy m b" by (simp add: healthy_backends_def)
  obtain e so st where sel: "chat_select env req s m = (Err e, m, so, st)"
    using wf none by (rule chat_select_none)
  have wf': "server_wf (ce_intn env) k (s\<lparr>srv_metrics := IncRequestsTotal (srv_metrics s), srv_strategy := so,
      srv_store := st\<rparr>) m"
    by (rule server_wf_kept [OF wf sel]) simp_all
  note run = chat_no_backend [OF assms(1) sel, of parse_url net now h]
  show ?thesis unfolding run using True wf' by (simp add: healthy_backends_def)
next
  case False
  then obtain b where "b \<in> set (srv_backends s)" "Healthy m b" by (auto simp: healthy_backends_def)
  from chat_select_available [OF wf this, of req] obtain d m1 so st
    where sel: "chat_select env req s m = (Ok d, m1, so, st)"
      and d: "decision_Backend d \<in> set (srv_backends s)" "Healthy m (decision_Backend d)" by blast
  obtain e where e: "SendChatCompletion parse_url net now (BaseURL m (decision_Backend d)) req = Inl e"
    using dead_SendChatCompletion [OF assms(3)] by blast
  let ?m = "snd (Release d (SetHealthy (decision_Backend d) False m1))"
  obtain x where run: "handleChatCompletions env parse_url net now h r s m =
      (Ok (http_Error (chat_headers h (Name m (decision_Backend d)) (srv_strategyName s) d)
         ''backend request failed'' 502),
       s\<lparr>srv_strategy := so, srv_store := st, srv_metrics := x\<rparr>, ?m)"
    unfolding chat_forwarded [OF assms(1) sel] Let_def e by simp
  have "server_wf (ce_intn env) k (s\<lparr>srv_strategy := so, srv_store := st, srv_metrics := x\<rparr>) ?m"
    by (rule server_wf_kept [OF wf sel]) simp_all
  moreover have "healthy_backends (s\<lparr>srv_strategy := so, srv_store := st, srv_metrics := x\<rparr>) ?m
      = healthy_backends s m - {decision_Backend d}"
    by (auto simp: healthy_backends_def chat_select_mem [OF sel])
  moreover have "decision_Backend d \<in> healthy_backends s m" using d by (simp add: healthy_backends_def)
  ultimately show ?thesis unfolding run using False by auto
qed

text \<open>A sequence of chat requests, one after the other, and the statuses of their replies (0 for a panic).\<close>

fun chat_statuses ::
  "(string \<Rightarrow> gerror option) \<Rightarrow> ('st chat_env \<times> transport \<times> request) list \<Rightarrow> 'st server \<Rightarrow> mem \<Rightarrow> nat list" where
  "chat_statuses parse_url [] s m = []"
| "chat_statuses parse_url ((env, net, r) # calls) s m =
     (case handleChatCompletions env parse_url net 0 Map.empty r s m of
        (Ok rsp, s', m') \<Rightarrow> rsp_status rsp # chat_statuses parse_url calls s' m'
      | (_, s', m') \<Rightarrow> 0 # chat_statuses parse_url calls s' m')"

lemma server_wf_change: "server_wf i k s m \<Longrightarrow> intn_range j \<Longrightarrow> server_wf j k s m"
  by (auto simp: server_wf_def intro: strat_invar_change)

lemma outage_statuses:
  assumes "\<forall>(env, net, r)\<in>set calls. (\<exists>req. chat_request_ok r req) \<and> dead net \<and> intn_range (ce_intn env)"
    and "server_wf intn (length calls) s m"
  shows "chat_statuses parse_url calls s m =
    (let k = min (length calls) (card (healthy_backends s m))
     in replicate k 502 @ replicate (length calls - k) 503)"
  using assms
proof (induction calls arbitrary: s m intn)
  case (Cons call calls)
  obtain env net r where call: "call = (env, net, r)" by (cases call)
  with Cons.prems(1) obtain req where req: "chat_request_ok r req" "dead net" "intn_range (ce_intn env)" by auto
  have wf: "server_wf (ce_intn env) (Suc (length calls)) s m"
    using server_wf_change [OF Cons.prems(2) req(3)] by simp
  obtain rsp s' m' where run: "handleChatCompletions env parse_url net 0 Map.empty r s m = (Ok rsp, s', m')"
    and wf': "server_wf (ce_intn env) (length calls) s' m'"
    and one: "if healthy_backends s m = {} then rsp_status rsp = 503 \<and> healthy_backends s' m' = {}
      else rsp_status rsp = 502 \<and> (\<exists>b\<in>healthy_backends s m. healthy_backends s' m' = healthy_backends s m - {b})"
    using chat_during_outage [OF req(1) wf req(2), of parse_url 0 Map.empty] by blast
  have IH: "chat_statuses parse_url calls s' m' =
      (let k = min (length calls) (card (healthy_backends s' m'))
       in replicate k 502 @ replicate (length calls - k) 503)"
    using Cons.IH [OF _ wf'] Cons.prems(1) by simp
  show ?case
  proof (cases "healthy_backends s m = {}")
    case True
    with one have status: "rsp_status rsp = 503" "healthy_backends s' m' = {}" by simp_all
    show ?thesis unfolding call True by (simp add: run status IH)
  next
    case False
    with one obtain b where status: "rsp_status rsp = 502" and b: "b \<in> healthy_backends s m"
      and left: "healthy_backends s' m' = healthy_backends s m - {b}" by auto
    have card: "card (healthy_backends s m) = Suc (card (healthy_backends s' m'))"
      unfolding left using card_Suc_Diff1 [OF finite_healthy_backends b] by simp
    show ?thesis unfolding call card by (simp add: run status IH Let_def)
  qed
qed simp

section \<open>Properties\<close>

text \<open>
  C9: An outage drains the rotation.  Of a sequence of valid chat requests that are handled one after
  the other, with no probe in between, and whose backend calls all fail (the backend cannot be reached,
  or answers with an error status), exactly the first \<open>k\<close> are answered 502, where \<open>k\<close> is the number of
  backends that were healthy at the start, and every later one is answered 503, whatever strategy is
  active.  (Requests that overlap can get more replies 502: they may wait on the same backend.)
\<close>

theorem outage_drains_rotation:
  assumes "\<forall>(env, net, r)\<in>set calls. (\<exists>req. chat_request_ok r req) \<and> dead net \<and> intn_range (ce_intn env)"
    and "server_wf intn (length calls) s m"
  shows "chat_statuses parse_url calls s m =
    (let k = min (length calls) (card {b \<in> set (srv_backends s). Healthy m b})
     in replicate k 502 @ replicate (length calls - k) 503)"
  using outage_statuses [OF assms] by (simp add: healthy_backends_def)

theorem outage_drains_rotation_witness:
  "chat_statuses (\<lambda>_. None) (replicate 5 (plain_env, down_backend, hi_request)) two_server two_backends
    = [502, 502, 503, 503, 503]"
proof -
  have bs: "srv_backends two_server = [0, 1]" by (simp add: two_server_def New_def)
  have "intn_range (ce_intn plain_env)" by (simp add: plain_env_def intn_range_def)
  then have "\<forall>(env, net, r)\<in>set (replicate 5 (plain_env, down_backend, hi_request)).
      (\<exists>req. chat_request_ok r req) \<and> dead net \<and> intn_range (ce_intn env)"
    using hi_request_ok by (auto simp: dead_def down_backend_def)
  moreover have "server_wf (ce_intn plain_env) (length (replicate 5 (plain_env, down_backend, hi_request))) two_server two_backends"
    using two_server_wf [of 4] by simp
  ultimately have "chat_statuses (\<lambda>_. None) (replicate 5 (plain_env, down_backend, hi_request)) two_server two_backends =
      (let k = min (length (replicate 5 (plain_env, down_backend, hi_request)))
         (card {b \<in> set (srv_backends two_server). Healthy two_backends b})
       in replicate k 502 @ replicate (length (replicate 5 (plain_env, down_backend, hi_request)) - k) 503)"
    by (rule outage_drains_rotation)
  moreover have "{b \<in> set (srv_backends two_server). Healthy two_backends b} = {0, 1}"
    by (auto simp: bs)
  ultimately show ?thesis by (simp add: numeral_eq_Suc)
qed

text \<open>
  C10: Recovery.  After a probe round in which the health check of some backend succeeds the router is ready
  again, whatever happened before, and the next valid chat request goes to a backend whose check
  succeeded in this round.
\<close>

theorem probe_recovers:
  assumes "server_wf (ce_intn env) (Suc k) s m" and "distinct (srv_backends s)"
    and "i < length (srv_backends s)" and "HealthCheck parse_url (net i) (BaseURL m (srv_backends s ! i)) = None"
    and "chat_request_ok r req"
  shows "rsp_status (handleReadyz h s (probeBackends parse_url net s m)) = 200 \<and>
    (\<exists>p s' m' j. chat_begin env h r s (probeBackends parse_url net s m) = (Waiting p, s', m') \<and>
      j < length (srv_backends s) \<and> decision_Backend (pc_decision p) = srv_backends s ! j \<and>
      HealthCheck parse_url (net j) (BaseURL m (srv_backends s ! j)) = None)"
proof
  let ?m = "probeBackends parse_url net s m"
  note spec = probe_loop_spec [OF assms(2), of parse_url net 0 m, folded probeBackends_def, simplified]
  have wf: "server_wf (ce_intn env) (Suc k) s ?m"
    using server_wf_mem [OF assms(1)] spec by (simp add: mem_next_cell_probe)
  have up: "srv_backends s ! i \<in> set (srv_backends s)" "Healthy ?m (srv_backends s ! i)"
    using assms(3,4) spec by auto
  then have "strat_HasHealthyBackend ?m (srv_strategy s)"
    using dispatch.has_healthy_iff [of ?m "(srv_strategy s, ())"] assms(1) by (auto simp: server_wf_def)
  then show "rsp_status (handleReadyz h s ?m) = 200" by (simp add: handleReadyz_def activeStrategy_def)
  from chat_select_available [OF wf up, of req] obtain d m1 so st
    where sel: "chat_select env req s ?m = (Ok d, m1, so, st)"
      and d: "decision_Backend d \<in> set (srv_backends s)" "Healthy ?m (decision_Backend d)" by blast
  obtain j where j: "j < length (srv_backends s)" "decision_Backend d = srv_backends s ! j"
    using d(1) by (metis in_set_conv_nth)
  with d(2) spec have "HealthCheck parse_url (net j) (BaseURL m (srv_backends s ! j)) = None" by auto
  with chat_begin_valid [OF assms(5) sel, of h] j
  show "\<exists>p s' m' j. chat_begin env h r s ?m = (Waiting p, s', m') \<and>
      j < length (srv_backends s) \<and> decision_Backend (pc_decision p) = srv_backends s ! j \<and>
      HealthCheck parse_url (net j) (BaseURL m (srv_backends s ! j)) = None"
    by (auto simp: Let_def)
qed

theorem probe_recovers_witness:
  "rsp_status (handleReadyz Map.empty two_server (probeBackends (\<lambda>_. None)
      (\<lambda>i. if i = 0 then down_backend else hi_backend) two_server
      (SetHealthy 0 False (SetHealthy 1 False two_backends)))) = 200"
proof -
  have bs: "srv_backends two_server = [0, 1]" by (simp add: two_server_def New_def)
  have wf: "server_wf (ce_intn plain_env) (Suc 0) two_server m" for m by (rule two_server_wf) simp
  have up: "HealthCheck (\<lambda>_. None) hi_backend url = None" for url
    by (simp add: HealthCheck_def hi_backend_def Let_def)
  show ?thesis
    using probe_recovers [OF wf _ _ _ hi_request_ok, where parse_url = "\<lambda>_. None" and i = 1
        and net = "\<lambda>i. if i = 0 then down_backend else hi_backend"
        and m = "SetHealthy 0 False (SetHealthy 1 False two_backends)" and h = Map.empty] up bs
    by simp
qed

end
