(* ===== verification/Balancer.thy ===== *)
theory Balancer
  imports Outage "HOL-Library.Multiset"
begin

text \<open>
  The router as a load balancer.  The abstract balancer knows only which backends are up and which
  backends work on a request; the interleaved worlds of the router (\<open>Interleaving\<close>) refine it: every
  step of the router is a step of the balancer, whatever strategy is active.
\<close>

section \<open>The abstract balancer\<close>

record balancer =
  bal_up :: "baddr set"
  bal_jobs :: "baddr multiset"

inductive balancer_step :: "baddr set \<Rightarrow> balancer \<Rightarrow> balancer \<Rightarrow> bool" for bs :: "baddr set" where
  bal_same: "balancer_step bs x x"
| bal_assign: "b \<in> bal_up x \<Longrightarrow> balancer_step bs x (x\<lparr>bal_jobs := add_mset b (bal_jobs x)\<rparr>)"
| bal_complete: "b \<in># bal_jobs x \<Longrightarrow> balancer_step bs x (x\<lparr>bal_jobs := bal_jobs x - {#b#}\<rparr>)"
| bal_fail: "b \<in># bal_jobs x \<Longrightarrow>
    balancer_step bs x (x\<lparr>bal_up := bal_up x - {b}, bal_jobs := bal_jobs x - {#b#}\<rparr>)"
| bal_probe_up: "b \<in> bs \<Longrightarrow> balancer_step bs x (x\<lparr>bal_up := insert b (bal_up x)\<rparr>)"
| bal_probe_down: "balancer_step bs x (x\<lparr>bal_up := bal_up x - {b}\<rparr>)"

definition balancer_of :: "'st world \<Rightarrow> balancer" where
  "balancer_of = (\<lambda>(s, m, ws, os).
     \<lparr>bal_up = healthy_backends s m, bal_jobs = image_mset (\<lambda>p. decision_Backend (pc_decision p)) (mset ws)\<rparr>)"

inductive_cases world_stepE [consumes 1, case_names arrive arrive_late finish probe switch switch_fails]:
  "world_step (s, m, ws, os) w'"

section \<open>The configured backends stay\<close>

definition on_backends :: "baddr list \<Rightarrow> 'st world \<Rightarrow> bool" where
  "on_backends backends = (\<lambda>(s, m, ws, os). srv_backends s = backends \<and>
     (\<forall>x\<in>set (activeStrategy s # os). strat_members (snd x) = backends))"

lemma chat_begin_backends:
  assumes "chat_begin env h r s m = (prog, s', m')"
  shows "srv_backends s' = srv_backends s" and "strat_members (srv_strategy s') = strat_members (srv_strategy s)"
  using chat_begin_select [OF assms] by (auto dest: chat_select_facts(1))

lemma chat_finish_backends:
  assumes "chat_finish env res p s m = (rsp, s', m')"
  shows "srv_backends s' = srv_backends s" and "srv_strategy s' = srv_strategy s"
  using assms by (auto simp: chat_finish_eq Let_def split: if_splits)

lemma setStrategy_backends:
  assumes "setStrategy raw s m = (Inr name, s', m')"
  shows "srv_backends s' = srv_backends s" and "strat_members (srv_strategy s') = srv_backends s"
    and "mem_backend m' = mem_backend m"
proof -
  from assms(1) obtain so where norm: "normalizeStrategyName raw = Inr name"
    and fresh: "fresh_strategy name (srv_backends s) m = (so, m')"
    and s': "s' = s\<lparr>srv_strategy := so, srv_strategyName := name\<rparr>"
    by (auto simp: setStrategy_eq split: sum.splits prod.splits)
  from fresh_strategy [OF fresh normalizeStrategyName_names [OF norm]]
  show "srv_backends s' = srv_backends s" and "strat_members (srv_strategy s') = srv_backends s"
    and "mem_backend m' = mem_backend m" by (simp_all add: s')
qed

lemma world_step_backends: "world_step w w' \<Longrightarrow> on_backends backends w \<Longrightarrow> on_backends backends w'"
proof (induction rule: world_step.induct)
  case (arrive env h r s m prog s' m' ws os)
  then show ?case by (simp add: on_backends_def chat_begin_backends [OF arrive(1)])
next
  case (arrive_late env h r s x m prog s' m' ws xs ys)
  then show ?case using chat_begin_backends [OF arrive_late(1)] by (auto simp: on_backends_def)
next
  case (finish env res p s m resp s' m' ws vs os)
  then show ?case by (simp add: on_backends_def chat_finish_backends [OF finish(1)])
next
  case (switch raw s m name s' m' ws os)
  then show ?case by (simp add: on_backends_def setStrategy_backends [OF switch(1)])
next
  case (switch_fails raw s m e s' m' ws os)
  then show ?case using setStrategy_fails [OF switch_fails(1)] by simp
qed (simp add: on_backends_def)

lemma reaches_in_backends:
  "reaches_in (initial_world backends ttl st m0) n w \<Longrightarrow> on_backends backends w"
proof (induction rule: reaches_in.induct)
  case reaches_0
  show ?case
    by (simp add: initial_world_def New_def NewRoundRobin_def on_backends_def activeStrategy_def strat_members_def)
qed (rule world_step_backends)

section \<open>What a step does to the health of the backends\<close>

lemma Random_Select_Ok_any:
  assumes "Random_Select intn inp m r = (Ok d, m', r')"
  shows "decision_Backend d \<in> set (rnd_backends r) \<and> Healthy m (decision_Backend d)"
proof -
  let ?healthy = "filter (Healthy m) (rnd_backends r)"
  have "decision_Backend d \<in> set ?healthy"
    using assms by (auto simp: Random_Select_def Let_def go_index_def simp del: set_filter intro: nth_mem
        split: if_splits outcome.splits)
  then show ?thesis by simp
qed

text \<open>Even with a generator out of its range a selection takes a healthy configured backend.\<close>

lemma strat_Select_Ok_any:
  assumes "strat_invar i (Suc k) so" and "strat_Select j pref inp m (so, st) = (Ok d, m', so', st')"
  shows "decision_Backend d \<in> set (strat_members so) \<and> Healthy m (decision_Backend d)"
proof (cases "\<exists>s. so = SRandom s")
  case True
  with assms(2) Random_Select_Ok_any [of j inp m] show ?thesis
    by (auto simp: strat_Select_def strat_members_def split: prod.splits)
next
  case False
  then have "strat_invar j (Suc k) so" using assms(1) by (cases so) (simp_all add: strat_invar_def)
  then show ?thesis using assms(2) by (rule strat_Select_Ok)
qed

lemma chat_begin_balancer:
  assumes "chat_begin env h r s m = (prog, s', m')" and "strat_members (srv_strategy s) = srv_backends s"
    and "strat_invar i (Suc k) (srv_strategy s)"
  shows "healthy_backends s' m' = healthy_backends s m \<and>
    (\<forall>p. prog = Waiting p \<longrightarrow> decision_Backend (pc_decision p) \<in> healthy_backends s m)"
  using chat_begin_select [OF assms(1)]
proof (elim disjE exE conjE)
  fix resp assume "(s', m') = (s, m)" "prog = Replied resp"
  then show ?thesis by simp
next
  fix req sel so st
  assume sel: "chat_select env req s m = (sel, m', so, st)" and keeps: "srv_backends s' = srv_backends s"
    and result: "case sel of
         Ok d \<Rightarrow> (\<exists>p. prog = Waiting p \<and> pc_decision p = d) \<and>
           srv_metrics s' = begin_metrics (srv_strategyName s) (Name m (decision_Backend d)) d (srv_metrics s)
       | _ \<Rightarrow> (\<nexists>p. prog = Waiting p) \<and> srv_metrics s' = IncRequestsTotal (srv_metrics s)"
  have "healthy_backends s' m' = healthy_backends s m"
    by (simp add: healthy_backends_def keeps chat_select_mem(4) [OF sel])
  moreover have "decision_Backend (pc_decision p) \<in> healthy_backends s m" if "prog = Waiting p" for p
  proof -
    have ok: "sel = Ok (pc_decision p)" using result that by (auto split: outcome.splits)
    from strat_Select_Ok_any [OF assms(3) sel [unfolded chat_select_def ok]] assms(2)
    show ?thesis by (simp add: healthy_backends_def)
  qed
  ultimately show ?thesis by blast
qed

lemma chat_finish_balancer:
  assumes "chat_finish env res p s m = (rsp, s', m')"
  shows "healthy_backends s' m' = healthy_backends s m -
    (if \<exists>x. res = Inr x then {} else {decision_Backend (pc_decision p)})"
  using assms by (auto simp: chat_finish_eq Let_def healthy_backends_def split: if_splits)

section \<open>The refinement\<close>

text \<open>
  C1: The router refines the balancer.  Each of its first \<open>2^63\<close> steps, however requests, replies,
  failures, probes and strategy changes interleave, is a step of the abstract balancer: a request is
  only ever given to a backend that is up, its end takes exactly this job away, a failure takes down
  the backend of the failed job and no other, only a probe brings a backend up, and a change of the
  strategy is invisible, even to a request that still selects with the old one.
\<close>

theorem router_refines_balancer:
  assumes "reaches_in (initial_world backends ttl st m0) n w" and "n < 2 ^ 63" and "world_step w w'"
  shows "balancer_step (set backends) (balancer_of w) (balancer_of w')"
proof -
  obtain s m ws os where w: "w = (s, m, ws, os)" by (cases w)
  have on: "srv_backends s = backends" and members: "x \<in> set (activeStrategy s # os) \<Longrightarrow> strat_members (snd x) = backends" for x
    using reaches_in_backends [OF assms(1)] by (auto simp: w on_backends_def)
  note inv = reaches_in_held [OF assms(1) [unfolded w] assms(2)]
  have begun: "balancer_step (set backends) (balancer_of w) (balancer_of (t, m', add_waiting prog ws, os'))"
    if "chat_begin env h r (with_strategy s x) m = (prog, s', m')" and x: "x \<in> set (activeStrategy s # os)"
      and t: "srv_backends t = srv_backends s'" for env h r x prog s' m' t os'
  proof -
    have same: "healthy_backends t m' = healthy_backends s m"
      and up: "\<forall>p. prog = Waiting p \<longrightarrow> decision_Backend (pc_decision p) \<in> healthy_backends s m"
      using chat_begin_balancer [OF that(1)] members [OF x] inv [OF x] on t by (auto simp: healthy_backends_def)
    show ?thesis
    proof (cases prog)
      case (Waiting p)
      with up bal_assign [of _ "balancer_of w" "set backends"] same show ?thesis by (simp add: w balancer_of_def)
    qed (use bal_same same in \<open>simp_all add: w balancer_of_def\<close>)
  qed
  from assms(3) have "world_step (s, m, ws, os) w'" by (simp add: w)
  then show ?thesis
  proof (cases rule: world_stepE)
    case (arrive env h r prog s' m')
    with begun [of env h r "activeStrategy s" prog s' m' s' os] show ?thesis by simp
  next
    case (arrive_late env h r x prog s' m' xs ys)
    with begun [of env h r x prog s' m' "with_strategy s' (activeStrategy s)" "xs @ activeStrategy s' # ys"]
    show ?thesis by simp
  next
    case (finish env res p resp s' m' us vs)
    let ?b = "decision_Backend (pc_decision p)" and ?x = "balancer_of (s, m, ws, os)"
    have job: "?b \<in># bal_jobs ?x" by (simp add: balancer_of_def finish)
    show ?thesis
    proof (cases "\<exists>x. res = Inr x")
      case True
      with chat_finish_balancer [OF finish(3)] bal_complete [OF job, of "set backends"]
      show ?thesis by (simp add: w balancer_of_def finish)
    next
      case False
      with chat_finish_balancer [OF finish(3)] bal_fail [OF job, of "set backends"]
      show ?thesis by (simp add: w balancer_of_def finish)
    qed
  next
    case (probe b healthy)
    let ?x = "balancer_of (s, m, ws, os)"
    show ?thesis
    proof (cases "healthy \<and> b \<in> set backends")
      case True
      then have "healthy_backends s (SetHealthy b healthy m) = insert b (healthy_backends s m)"
        using on by (auto simp: healthy_backends_def)
      with bal_probe_up [of b "set backends" ?x] True show ?thesis by (simp add: w balancer_of_def probe)
    next
      case False
      then have "healthy_backends s (SetHealthy b healthy m) = healthy_backends s m - {b}"
        using on by (auto simp: healthy_backends_def)
      with bal_probe_down [of "set backends" ?x b] show ?thesis by (simp add: w balancer_of_def probe)
    qed
  next
    case (switch raw name s' m')
    have "healthy_backends s' m' = healthy_backends s m"
      using setStrategy_backends [OF switch(2)] by (simp add: healthy_backends_def Healthy_def)
    with bal_same show ?thesis by (simp add: w balancer_of_def switch)
  next
    case (switch_fails raw e s' m')
    with setStrategy_fails bal_same show ?thesis by (simp add: w) blast
  qed
qed

theorem router_refines_balancer_witness:
  "\<exists>w'. world_step (initial_world [0, 1] 0 () two_backends) w' \<and>
    balancer_step (set [0, 1]) (balancer_of (initial_world [0, 1] 0 () two_backends)) (balancer_of w') \<and>
    size (bal_jobs (balancer_of w')) = 1"
proof -
  let ?w = "initial_world [0, 1] 0 () two_backends"
  have start: "?w = (two_server, two_backends, [], [])" by (simp add: initial_world_def two_server_def)
  obtain d m1 so st where sel: "chat_select plain_env hi_chat two_server two_backends = (Ok d, m1, so, st)"
    by (rule two_server_select)
  obtain p s where "chat_begin plain_env Map.empty hi_request two_server two_backends = (Waiting p, s, m1)"
    using chat_begin_valid [OF hi_request_ok sel, of Map.empty] by (simp add: Let_def)
  then have step: "world_step ?w (s, m1, [p], [])"
    unfolding start using arrive [of plain_env _ _ _ _ "Waiting p" s m1 "[]" "[]"] by simp
  from router_refines_balancer [OF reaches_0 _ step] step show ?thesis
    by (intro exI [of _ "(s, m1, [p], [])"]) (simp add: balancer_of_def)
qed

end
