(* ===== verification/LlmClient.thy ===== *)
theory LlmClient
  imports ProxyClient
begin

text \<open>
  \<open>internal/llm/client.go\<close>: the client of an OpenAI-compatible server, which the llama adapter puts
  behind its \<open>/infer\<close> endpoint.  \<open>internal/vllm/client.go\<close> is a copy of it with another name for the
  message type that nothing imports.  The network is the argument \<open>do\<close>, as in \<open>ProxyClient\<close>;
  \<open>llm.Message\<close> has the fields and tags of \<open>proxy.ChatMessage\<close> and shares its model.
\<close>

section \<open>The code\<close>

record llm_client =
  llm_baseURL :: string
  llm_modelName :: string

record generate_opts =
  opt_Messages :: "chat_message list"
  opt_MaxTokens :: int
  opt_Temperature :: rat
  opt_RepetitionPenalty :: rat

definition NewLlmClient :: "string \<Rightarrow> string \<Rightarrow> llm_client" where
  "NewLlmClient baseURL modelName =
     \<lparr>llm_baseURL = TrimRight baseURL CHR ''/'', llm_modelName = modelName\<rparr>"

definition Llm_HealthCheck :: "(string \<Rightarrow> gerror option) \<Rightarrow> transport \<Rightarrow> llm_client \<Rightarrow> gerror option" where
  "Llm_HealthCheck parse_url do c =
     (let url = llm_baseURL c @ ''/health'' in
      case parse_url url of
        Some e \<Rightarrow> Some e
      | None \<Rightarrow>
          (case do \<lparr>call_method = MethodGet, call_url = url, call_headers = Map.empty, call_body = None\<rparr> of
             Inl e \<Rightarrow> Some e
           | Inr resp \<Rightarrow>
               if 400 \<le> reply_status resp
               then Some (ErrMsg (''llama health status '' @ itoa (reply_status resp)))
               else None))"

text \<open>\<open>chatRequest\<close> on the wire, and \<open>chatResponse\<close> back: the messages of its choices.\<close>

definition encode_llm_request :: "llm_client \<Rightarrow> generate_opts \<Rightarrow> json" where
  "encode_llm_request c opts = JObj (
     [(''model'', JStr (llm_modelName c)),
      (''messages'', encode_slice encode_message (opt_Messages opts))]
     @ omitempty (opt_MaxTokens opts = 0) ''max_tokens'' (JInt (opt_MaxTokens opts))
     @ omitempty (opt_Temperature opts = 0) ''temperature'' (encode_float (opt_Temperature opts))
     @ omitempty (opt_RepetitionPenalty opts = 0) ''repetition_penalty''
         (encode_float (opt_RepetitionPenalty opts)))"

definition llm_choice_field :: "string \<Rightarrow> json \<Rightarrow> chat_message \<Rightarrow> chat_message option" where
  "llm_choice_field k v x = (if k = ''message'' then decode_message v x else Some x)"

definition llm_response_field :: "string \<Rightarrow> json \<Rightarrow> chat_message list \<Rightarrow> chat_message list option" where
  "llm_response_field k v x =
     (if k = ''choices'' then decode_list (decode_struct llm_choice_field) zero_message v x else Some x)"

definition decode_llm_response :: "json \<Rightarrow> chat_message list option" where
  "decode_llm_response v = decode_struct llm_response_field v []"

definition Llm_Generate ::
  "(string \<Rightarrow> gerror option) \<Rightarrow> transport \<Rightarrow> llm_client \<Rightarrow> generate_opts \<Rightarrow> gerror + string" where
  "Llm_Generate parse_url do c opts =
     (if length (opt_Messages opts) = 0 then Inl (ErrMsg ''no messages provided'')
      else
        let payload = encode_llm_request c opts;
            url = llm_baseURL c @ ''/v1/chat/completions''
        in case parse_url url of
             Some e \<Rightarrow> Inl e
           | None \<Rightarrow>
               (case do \<lparr>call_method = MethodPost, call_url = url,
                         call_headers = [''Content-Type'' \<mapsto> ''application/json''], call_body = Some payload\<rparr> of
                  Inl e \<Rightarrow> Inl e
                | Inr resp \<Rightarrow>
                    if 400 \<le> reply_status resp
                    then Inl (ErrMsg (''llama completion status '' @ itoa (reply_status resp)))
                    else
                      (case Option.bind (reply_body resp) decode_llm_response of
                         None \<Rightarrow> Inl decode_error
                       | Some choices \<Rightarrow>
                           if length choices = 0 then Inl (ErrMsg ''llama completion returned no choices'')
                           else
                             let text = TrimSpace (msg_Content (choices ! 0))
                             in if text = [] then Inl (ErrMsg ''llama completion returned empty content'')
                                else Inr text)))"

section \<open>The interface of the adapters\<close>

text \<open>
  \<open>adapter.Generator\<close>: what the adapter's handler relies on is that a generated text is not empty;
  an error is the only other outcome.
\<close>

locale generator =
  fixes health :: "gerror option"
    and generate :: "generate_opts \<Rightarrow> gerror + string"
  assumes generate_not_Nil: "generate opts = Inr text \<Longrightarrow> text \<noteq> []"

interpretation llama: generator "Llm_HealthCheck parse_url do c" "Llm_Generate parse_url do c"
  for parse_url "do" c
  by unfold_locales
    (auto simp: Llm_Generate_def Let_def split: if_splits option.splits sum.splits)

section \<open>Properties\<close>

lemma fold_name_llm [simp]: "fold_name ''message'' = ''message''" "fold_name ''choices'' = ''choices''"
  by code_simp+

text \<open>
  A generation returns a text exactly if there are messages, the server was reached and answered
  with a status below 400 and a body whose first choice has a content that is not blank; the text is
  that content without surrounding white space.
\<close>

theorem llm_generate_text:
  "Llm_Generate parse_url do c opts = Inr text \<longleftrightarrow>
    opt_Messages opts \<noteq> [] \<and> parse_url (llm_baseURL c @ ''/v1/chat/completions'') = None \<and>
    (\<exists>reply msg msgs. do \<lparr>call_method = MethodPost, call_url = llm_baseURL c @ ''/v1/chat/completions'',
          call_headers = [''Content-Type'' \<mapsto> ''application/json''],
          call_body = Some (encode_llm_request c opts)\<rparr> = Inr reply \<and>
      reply_status reply < 400 \<and> Option.bind (reply_body reply) decode_llm_response = Some (msg # msgs) \<and>
      text = TrimSpace (msg_Content msg) \<and> text \<noteq> [])"
proof -
  have first: "xs \<noteq> [] \<longleftrightarrow> (\<exists>y ys. xs = y # ys)" for xs :: "chat_message list" by (cases xs) simp_all
  show ?thesis
    by (cases "opt_Messages opts = []")
      (auto simp: Llm_Generate_def Let_def not_le first split: option.splits sum.splits if_splits)
qed

end
