(* ===== verification/TritonClient.thy ===== *)
theory TritonClient
  imports LlmClient
begin

text \<open>
  \<open>internal/triton/client.go\<close>: the client of a Triton inference server, the other generator behind the
  adapter's \<open>/infer\<close> endpoint.
\<close>

section \<open>The code\<close>

record triton_client =
  tri_baseURL :: string
  tri_modelName :: string
  tri_maxNewTokens :: int

definition NewTritonClient :: "string \<Rightarrow> string \<Rightarrow> int \<Rightarrow> triton_client" where
  "NewTritonClient baseURL modelName maxNewTokens =
     \<lparr>tri_baseURL = TrimRight baseURL CHR ''/'', tri_modelName = modelName,
      tri_maxNewTokens = maxNewTokens\<rparr>"

text \<open>\<open>url.PathEscape\<close>\<close>

definition path_byte_ok :: "char \<Rightarrow> bool" where
  "path_byte_ok c \<longleftrightarrow>
     byte_in 48 57 c \<or> byte_in 65 90 c \<or> byte_in 97 122 c \<or> c \<in> set ''-_.~$&+=:@''"

definition upper_hex_digit :: "nat \<Rightarrow> char" where
  "upper_hex_digit n = (if n < 10 then char_of (48 + n) else char_of (55 + n))"

definition PathEscape :: "string \<Rightarrow> string" where
  "PathEscape s = concat (map (\<lambda>c. if path_byte_ok c then [c]
     else [CHR ''%'', upper_hex_digit (byte c div 16), upper_hex_digit (byte c mod 16)]) s)"

definition getHealth :: "(string \<Rightarrow> gerror option) \<Rightarrow> transport \<Rightarrow> string \<Rightarrow> gerror option" where
  "getHealth parse_url do endpoint =
     (case parse_url endpoint of
        Some e \<Rightarrow> Some e
      | None \<Rightarrow>
          (case do \<lparr>call_method = MethodGet, call_url = endpoint, call_headers = Map.empty, call_body = None\<rparr> of
             Inl e \<Rightarrow> Some e
           | Inr resp \<Rightarrow>
               if reply_status resp \<noteq> 200
               then Some (ErrMsg (''triton health status '' @ itoa (reply_status resp)))
               else None))"

definition Triton_HealthCheck ::
  "(string \<Rightarrow> gerror option) \<Rightarrow> transport \<Rightarrow> triton_client \<Rightarrow> gerror option" where
  "Triton_HealthCheck parse_url do c =
     (case getHealth parse_url do (tri_baseURL c @ ''/v2/health/ready'') of
        Some e \<Rightarrow> Some e
      | None \<Rightarrow>
          getHealth parse_url do
            (tri_baseURL c @ ''/v2/models/'' @ PathEscape (tri_modelName c) @ ''/ready''))"

fun flatten_loop :: "chat_message list \<Rightarrow> string list \<Rightarrow> string list" where
  "flatten_loop [] parts = parts"
| "flatten_loop (m # ms) parts =
     (let c = TrimSpace (msg_Content m)
      in flatten_loop ms (if c \<noteq> [] then parts @ [msg_Role m @ '': '' @ c] else parts))"

definition flattenMessages :: "chat_message list \<Rightarrow> string" where
  "flattenMessages messages = Join (flatten_loop messages []) newline"

text \<open>\<open>buildInferRequest\<close> as it is encoded on the wire.\<close>

definition buildInferRequest :: "string \<Rightarrow> int \<Rightarrow> json" where
  "buildInferRequest prompt maxNewTokens = JObj [(''inputs'', JArr
     [JObj [(''name'', JStr ''prompt''), (''shape'', JArr [JInt 1]), (''datatype'', JStr ''BYTES''),
            (''data'', JArr [JStr prompt])],
      JObj [(''name'', JStr ''max_new_tokens''), (''shape'', JArr [JInt 1]), (''datatype'', JStr ''INT32''),
            (''data'', JArr [JInt maxNewTokens])]])]"

text \<open>
  \<open>inferResponse\<close>: the data of an output are values of any type (a number has to fit a \<open>float64\<close>).
\<close>

record output_tensor =
  out_Name :: string
  out_Data :: "json list"
  out_Shape :: "int list"

definition zero_output :: output_tensor where
  "zero_output = \<lparr>out_Name = [], out_Data = [], out_Shape = []\<rparr>"

fun any_ok :: "json \<Rightarrow> bool" where
  "any_ok (JInt n) = float_in_range (of_int n)"
| "any_ok (JFloat x) = float_in_range x"
| "any_ok (JArr vs) = list_all any_ok vs"
| "any_ok (JObj fs) = list_all (\<lambda>(k, v). any_ok v) fs"
| "any_ok _ = True"

definition decode_any :: "json \<Rightarrow> json \<Rightarrow> json option" where
  "decode_any v old = (if any_ok v then Some v else None)"

definition output_field :: "string \<Rightarrow> json \<Rightarrow> output_tensor \<Rightarrow> output_tensor option" where
  "output_field k v x =
     (if k = ''name'' then map_option (\<lambda>s. x\<lparr>out_Name := s\<rparr>) (decode_string v (out_Name x))
      else if k = ''data'' then map_option (\<lambda>d. x\<lparr>out_Data := d\<rparr>) (decode_list decode_any JNull v (out_Data x))
      else if k = ''shape'' then map_option (\<lambda>d. x\<lparr>out_Shape := d\<rparr>) (decode_list decode_int 0 v (out_Shape x))
      else Some x)"

definition infer_response_field :: "string \<Rightarrow> json \<Rightarrow> output_tensor list \<Rightarrow> output_tensor list option" where
  "infer_response_field k v x =
     (if k = ''outputs'' then decode_list (decode_struct output_field) zero_output v x else Some x)"

definition decode_infer_response :: "json \<Rightarrow> output_tensor list option" where
  "decode_infer_response v = decode_struct infer_response_field v []"

text \<open>In a JSON object with a repeated key the last value counts.\<close>

fun extractGeneratedText :: "output_tensor list \<Rightarrow> gerror + string" where
  "extractGeneratedText [] = Inl (ErrMsg ''generated_text output missing'')"
| "extractGeneratedText (output # outputs) =
     (if out_Name output \<noteq> ''generated_text'' \<or> length (out_Data output) = 0 then extractGeneratedText outputs
      else
        (case out_Data output ! 0 of
           JStr text \<Rightarrow>
             if TrimSpace text = [] then Inl (ErrMsg ''empty generated_text output'') else Inr text
         | JObj fs \<Rightarrow>
             (case map_of (rev fs) ''b64'' of
                Some (JStr nested) \<Rightarrow> if nested \<noteq> [] then Inr nested else extractGeneratedText outputs
              | _ \<Rightarrow> extractGeneratedText outputs)
         | _ \<Rightarrow> extractGeneratedText outputs))"

definition Triton_Generate ::
  "(string \<Rightarrow> gerror option) \<Rightarrow> transport \<Rightarrow> triton_client \<Rightarrow> generate_opts \<Rightarrow> gerror + string" where
  "Triton_Generate parse_url do c opts =
     (let prompt = flattenMessages (opt_Messages opts);
          payload = buildInferRequest prompt (tri_maxNewTokens c);
          inferURL = tri_baseURL c @ ''/v2/models/'' @ PathEscape (tri_modelName c) @ ''/infer''
      in case parse_url inferURL of
           Some e \<Rightarrow> Inl e
         | None \<Rightarrow>
             (case do \<lparr>call_method = MethodPost, call_url = inferURL,
                       call_headers = [''Content-Type'' \<mapsto> ''application/json''], call_body = Some payload\<rparr> of
                Inl e \<Rightarrow> Inl e
              | Inr resp \<Rightarrow>
                  if 400 \<le> reply_status resp
                  then Inl (ErrMsg (''triton infer status '' @ itoa (reply_status resp)))
                  else
                    (case Option.bind (reply_body resp) decode_infer_response of
                       None \<Rightarrow> Inl decode_error
                     | Some inferResp \<Rightarrow> extractGeneratedText inferResp)))"

section \<open>The contract\<close>

lemma extractGeneratedText_not_Nil: "extractGeneratedText outputs = Inr text \<Longrightarrow> text \<noteq> []"
  by (induction outputs rule: extractGeneratedText.induct)
    (auto split: if_splits json.splits option.splits)

interpretation triton: generator "Triton_HealthCheck parse_url do c" "Triton_Generate parse_url do c"
  for parse_url "do" c
  by unfold_locales
    (auto simp: Triton_Generate_def Let_def dest: extractGeneratedText_not_Nil
      split: if_splits option.splits sum.splits)

section \<open>Properties\<close>

lemma fold_name_triton [simp]:
  "fold_name ''outputs'' = ''outputs''" "fold_name ''name'' = ''name''" "fold_name ''data'' = ''data''"
  "fold_name ''shape'' = ''shape''"
  by code_simp+

lemma flatten_loop_eq:
  "flatten_loop ms parts = parts @ map (\<lambda>m. msg_Role m @ '': '' @ TrimSpace (msg_Content m))
     (filter (\<lambda>m. TrimSpace (msg_Content m) \<noteq> []) ms)"
  by (induction ms arbitrary: parts) (simp_all add: Let_def)

text \<open>
  The request to Triton depends on the messages only: the token limit, the temperature and the
  repetition penalty of a chat request never reach the model, which always generates up to the
  adapter's own \<open>maxNewTokens\<close>.
\<close>

theorem triton_ignores_sampling_options:
  "Triton_Generate parse_url do c (opts\<lparr>opt_MaxTokens := n, opt_Temperature := t, opt_RepetitionPenalty := p\<rparr>) =
     Triton_Generate parse_url do c opts"
  by (simp add: Triton_Generate_def)

text \<open>
  The generated text is taken from the first output named \<open>generated_text\<close> whose data decide it:
  a string that is not blank is the text as it is, a blank string is an error; for an object the
  base64 text of its \<open>b64\<close> member is returned without being decoded.
\<close>

theorem triton_extract_text:
  assumes "\<forall>out\<in>set before. out_Name out \<noteq> ''generated_text'' \<or> out_Data out = []"
    and "out_Name output = ''generated_text''" and "out_Data output = v # vs"
  shows "(\<forall>text. v = JStr text \<longrightarrow>
      extractGeneratedText (before @ output # outputs) =
        (if TrimSpace text = [] then Inl (ErrMsg ''empty generated_text output'') else Inr text)) \<and>
    (\<forall>fs nested. v = JObj fs \<longrightarrow> map_of (rev fs) ''b64'' = Some (JStr nested) \<longrightarrow> nested \<noteq> [] \<longrightarrow>
      extractGeneratedText (before @ output # outputs) = Inr nested) \<and>
    ((\<forall>text. v \<noteq> JStr text) \<and> (\<forall>fs. v \<noteq> JObj fs) \<longrightarrow>
      extractGeneratedText (before @ output # outputs) = extractGeneratedText outputs)"
proof -
  have "extractGeneratedText (before @ output # outputs) = extractGeneratedText (output # outputs)"
    using assms(1) by (induction before) auto
  then show ?thesis using assms(2,3) by (cases v) auto
qed

theorem triton_extract_text_witness:
  "extractGeneratedText [\<lparr>out_Name = ''logits'', out_Data = [JInt 1], out_Shape = []\<rparr>,
      \<lparr>out_Name = ''generated_text'', out_Data = [JObj [(''b64'', JStr ''aGk='')]], out_Shape = []\<rparr>] = Inr ''aGk=''"
  using triton_extract_text [of "[\<lparr>out_Name = ''logits'', out_Data = [JInt 1], out_Shape = []\<rparr>]"
      "\<lparr>out_Name = ''generated_text'', out_Data = [JObj [(''b64'', JStr ''aGk='')]], out_Shape = []\<rparr>"
      "JObj [(''b64'', JStr ''aGk='')]" "[]" "[]"]
  by simp

end
