(* ===== verification/Adapter.thy ===== *)
theory Adapter
  imports TritonClient
begin

text \<open>
  \<open>internal/adapter/server.go\<close>: the HTTP server that puts a text generator (the interface \<open>generator\<close>:
  the llama or the Triton client) behind the \<open>/healthz\<close> and \<open>/infer\<close> endpoints the router calls, and
  the composition of the router's client with it.  \<open>health\<close> and \<open>generate\<close> are what the generator's
  methods return for this request.
\<close>

section \<open>The code\<close>

definition adapter_healthz :: "gerror option \<Rightarrow> response" where
  "adapter_healthz health =
     (case health of
        Some err \<Rightarrow> http_Error Map.empty ''backend unavailable'' 503
      | None \<Rightarrow> writeJSON Map.empty 200 (JObj [(''status'', JStr ''ok'')]))"

text \<open>The copy of the messages into \<open>llm.Message\<close> values, and the options of the call.\<close>

definition copy_messages :: "chat_message list \<Rightarrow> chat_message list" where
  "copy_messages messages = map (\<lambda>m. \<lparr>msg_Role = msg_Role m, msg_Content = msg_Content m\<rparr>) messages"

definition generate_opts_of :: "backend_request \<Rightarrow> generate_opts" where
  "generate_opts_of req =
     \<lparr>opt_Messages = copy_messages (breq_Messages req), opt_MaxTokens = breq_MaxTokens req,
      opt_Temperature = breq_Temperature req, opt_RepetitionPenalty = breq_RepetitionPenalty req\<rparr>"

definition adapter_infer :: "(generate_opts \<Rightarrow> gerror + string) \<Rightarrow> request \<Rightarrow> response" where
  "adapter_infer generate r =
     (if rq_method r \<noteq> MethodPost then http_Error Map.empty ''method not allowed'' 405
      else
        (case Option.bind (rq_body r) decode_backend_request of
           None \<Rightarrow> http_Error Map.empty ''invalid json'' 400
         | Some req \<Rightarrow>
             if breq_Model req = [] then http_Error Map.empty ''model is required'' 400
             else if length (breq_Messages req) = 0 then http_Error Map.empty ''messages must not be empty'' 400
             else
               (case generate (generate_opts_of req) of
                  Inl err \<Rightarrow> http_Error Map.empty ''backend inference failed'' 502
                | Inr output \<Rightarrow>
                    writeJSON Map.empty 200 (encode_backend_response
                      \<lparr>bresp_Model = breq_Model req, bresp_OutputText = output\<rparr>))))"

definition NewHandler :: "gerror option \<Rightarrow> (generate_opts \<Rightarrow> gerror + string) \<Rightarrow> request \<Rightarrow> response" where
  "NewHandler health generate r =
     (if rq_path r = ''/healthz'' then adapter_healthz health
      else if rq_path r = ''/infer'' then adapter_infer generate r
      else http_NotFound Map.empty)"

section \<open>A server behind an address\<close>

text \<open>
  The network on which a handler serves the address \<open>base\<close>, a URL without a path (with one, a reverse
  proxy in front of the handler has to strip it): a call to \<open>base\<close> followed by a path reaches the handler
  with this path, and no other call reaches it.  A text body is no JSON value.
\<close>

definition json_body :: "body \<Rightarrow> json option" where
  "json_body b = (case b of JsonBody v \<Rightarrow> Some v | _ \<Rightarrow> None)"

definition serve :: "string \<Rightarrow> (request \<Rightarrow> response) \<Rightarrow> transport" where
  "serve base handler call =
     (if take (length base) (call_url call) = base \<and> take 1 (drop (length base) (call_url call)) = ''/''
      then (let rsp = handler \<lparr>rq_method = call_method call, rq_path = drop (length base) (call_url call),
                               rq_body = call_body call\<rparr>
            in Inr \<lparr>reply_status = int (rsp_status rsp), reply_body = json_body (rsp_body rsp)\<rparr>)
      else Inl (ErrMsg ''no such host''))"

lemma serve_at [simp]:
  "take 1 path = ''/'' \<Longrightarrow> serve base handler \<lparr>call_method = meth, call_url = base @ path, call_headers = hs, call_body = b\<rparr> =
     (let rsp = handler \<lparr>rq_method = meth, rq_path = path, rq_body = b\<rparr>
      in Inr \<lparr>reply_status = int (rsp_status rsp), reply_body = json_body (rsp_body rsp)\<rparr>)"
  by (simp add: serve_def)

lemma json_body_simps [simp]: "json_body (JsonBody v) = Some v" "json_body (TextBody t) = None"
  by (simp_all add: json_body_def)

section \<open>Lemmas\<close>

lemma copy_messages [simp]: "copy_messages ms = ms"
  unfolding copy_messages_def by (rule map_idI) simp

text \<open>What a generator that keeps its contract gives the adapter.\<close>

context generator
begin

lemma infer_ok_text:
  assumes "rsp_status (adapter_infer generate r) = 200"
  shows "\<exists>model text. rsp_body (adapter_infer generate r) =
      JsonBody (encode_backend_response \<lparr>bresp_Model = model, bresp_OutputText = text\<rparr>) \<and>
    model \<noteq> [] \<and> text \<noteq> []"
  using assms
  by (auto simp: adapter_infer_def dest: generate_not_Nil split: if_splits option.splits sum.splits)

end

lemma generate_opts_of_backend_request [simp]:
  "generate_opts_of (backend_request_of r) =
     \<lparr>opt_Messages = req_Messages r, opt_MaxTokens = req_MaxTokens r, opt_Temperature = req_Temperature r,
      opt_RepetitionPenalty = req_RepetitionPenalty r\<rparr>"
  by (simp add: generate_opts_of_def backend_request_of_def)

lemma backend_request_of_simps [simp]:
  "breq_Model (backend_request_of r) = req_Model r" "breq_Messages (backend_request_of r) = req_Messages r"
  by (simp_all add: backend_request_of_def)

lemma adapter_infer_forwarded:
  assumes "chat_request_wf r" and "req_Model r \<noteq> []" and "req_Messages r \<noteq> []"
  shows "adapter_infer generate \<lparr>rq_method = MethodPost, rq_path = path,
      rq_body = Some (encode_backend_request (backend_request_of r))\<rparr> =
    (case generate (generate_opts_of (backend_request_of r)) of
       Inl err \<Rightarrow> http_Error Map.empty ''backend inference failed'' 502
     | Inr output \<Rightarrow> writeJSON Map.empty 200 (encode_backend_response
         \<lparr>bresp_Model = req_Model r, bresp_OutputText = output\<rparr>))"
proof -
  have "decode_backend_request (encode_backend_request (backend_request_of r)) = Some (backend_request_of r)"
    using assms(1) by (intro decode_encode_backend_request) (simp_all add: chat_request_wf_def backend_request_of_def)
  with assms(2,3) show ?thesis
    by (auto simp: adapter_infer_def split: sum.split)
qed

lemma SendChatCompletion_adapter:
  assumes "chat_request_wf r" and "req_Model r \<noteq> []" and "req_Messages r \<noteq> []"
    and "parse_url (url @ ''/infer'') = None"
  shows "SendChatCompletion parse_url (serve url (NewHandler health generate)) now url r =
    (case generate (generate_opts_of (backend_request_of r)) of
       Inl err \<Rightarrow> Inl (ErrMsg ''backend status 502'')
     | Inr output \<Rightarrow> Inr
         \<lparr>resp_ID = ''chatcmpl-'' @ itoa now, resp_Object = ''chat.completion'', resp_Created = now,
          resp_Model = req_Model r,
          resp_Choices = [\<lparr>ch_Index = 0, ch_Message = \<lparr>msg_Role = ''assistant'', msg_Content = output\<rparr>,
             ch_FinishReason = ''stop''\<rparr>],
          resp_Usage = \<lparr>us_PromptTokens = estimateTokensFromMessages (req_Messages r),
             us_CompletionTokens = estimateTokens output,
             us_TotalTokens = estimateTokensFromMessages (req_Messages r) + estimateTokens output\<rparr>\<rparr>)"
proof -
  have "itoa 502 = ''502''" by code_simp
  then show ?thesis
    using assms(2,4) by (auto simp: SendChatCompletion_def NewHandler_def Let_def chooseModel_def
        adapter_infer_forwarded [OF assms(1-3)] split: sum.split)
qed

section \<open>Properties\<close>

text \<open>
  The answers of \<open>/infer\<close>, exactly: 405 for anything but a POST, 400 for a body that does not
  decode or has no model or no messages, 502 if the generator fails, and otherwise 200 with the
  requested model and the generated text.
\<close>

theorem adapter_infer_answers:
  assumes "rq_path r = ''/infer''"
  shows "(rsp_status (NewHandler health generate r) = 405 \<longleftrightarrow> rq_method r \<noteq> MethodPost) \<and>
    (rsp_status (NewHandler health generate r) = 400 \<longleftrightarrow> rq_method r = MethodPost \<and>
      (\<forall>req. Option.bind (rq_body r) decode_backend_request = Some req \<longrightarrow>
        breq_Model req = [] \<or> breq_Messages req = [])) \<and>
    (rsp_status (NewHandler health generate r) = 502 \<longleftrightarrow> rq_method r = MethodPost \<and>
      (\<exists>req e. Option.bind (rq_body r) decode_backend_request = Some req \<and> breq_Model req \<noteq> [] \<and>
        breq_Messages req \<noteq> [] \<and> generate (generate_opts_of req) = Inl e)) \<and>
    (rsp_status (NewHandler health generate r) = 200 \<longleftrightarrow> rq_method r = MethodPost \<and>
      (\<exists>req text. Option.bind (rq_body r) decode_backend_request = Some req \<and> breq_Model req \<noteq> [] \<and>
        breq_Messages req \<noteq> [] \<and> generate (generate_opts_of req) = Inr text \<and>
        rsp_body (NewHandler health generate r) = JsonBody (encode_backend_response
          \<lparr>bresp_Model = breq_Model req, bresp_OutputText = text\<rparr>)))"
  using assms
  by (cases "rq_method r = MethodPost")
    (auto simp: NewHandler_def adapter_infer_def split: option.splits sum.splits)

theorem adapter_infer_answers_witness:
  "rsp_status (NewHandler None (\<lambda>_. Inr ''x'') \<lparr>rq_method = ''GET'', rq_path = ''/infer'', rq_body = None\<rparr>) = 405 \<and>
   rsp_status (NewHandler None (\<lambda>_. Inr ''x'') \<lparr>rq_method = ''POST'', rq_path = ''/infer'', rq_body = None\<rparr>) = 400"
  using adapter_infer_answers [of "\<lparr>rq_method = ''GET'', rq_path = ''/infer'', rq_body = None\<rparr>" None "\<lambda>_. Inr ''x''"]
    adapter_infer_answers [of "\<lparr>rq_method = ''POST'', rq_path = ''/infer'', rq_body = None\<rparr>" None "\<lambda>_. Inr ''x''"]
  by (simp add: MethodPost_def)

text \<open>
  The router's probe of a Triton adapter succeeds exactly if the URL is accepted and both health
  endpoints of the Triton server, the server's own and that of the configured model, are reached and
  answer with status 200.
\<close>

theorem triton_adapter_health:
  "HealthCheck parse_url (serve url (NewHandler (Triton_HealthCheck parse_url2 net c) generate)) url = None \<longleftrightarrow>
    parse_url (url @ ''/healthz'') = None \<and>
    parse_url2 (tri_baseURL c @ ''/v2/health/ready'') = None \<and>
    (\<exists>reply. net \<lparr>call_method = MethodGet, call_url = tri_baseURL c @ ''/v2/health/ready'',
        call_headers = Map.empty, call_body = None\<rparr> = Inr reply \<and> reply_status reply = 200) \<and>
    parse_url2 (tri_baseURL c @ ''/v2/models/'' @ PathEscape (tri_modelName c) @ ''/ready'') = None \<and>
    (\<exists>reply. net \<lparr>call_method = MethodGet,
        call_url = tri_baseURL c @ ''/v2/models/'' @ PathEscape (tri_modelName c) @ ''/ready'',
        call_headers = Map.empty, call_body = None\<rparr> = Inr reply \<and> reply_status reply = 200)"
  by (auto simp: HealthCheck_def NewHandler_def adapter_healthz_def Triton_HealthCheck_def getHealth_def Let_def
      split: option.splits sum.splits if_splits)

end
