(* ===== verification/MockBackend.thy ===== *)
theory MockBackend
  imports Adapter ServerConfig
begin

text \<open>
  \<open>cmd/mock-backend/main.go\<close>: the stand-in for a model server used by tests and demos.  Its handler is
  built by \<open>main\<close> itself; the 20 ms it sleeps per request are not modelled.
\<close>

section \<open>The code\<close>

record mock_message =
  mm_Role :: string
  mm_Content :: string

record mock_request =
  mreq_Model :: string
  mreq_Messages :: "mock_message list"
  mreq_Stream :: bool

record mock_response =
  mresp_Model :: string
  mresp_OutputText :: string

definition mock_message_field :: "string \<Rightarrow> json \<Rightarrow> mock_message \<Rightarrow> mock_message option" where
  "mock_message_field k v x =
     (if k = ''role'' then map_option (\<lambda>s. x\<lparr>mm_Role := s\<rparr>) (decode_string v (mm_Role x))
      else if k = ''content'' then map_option (\<lambda>s. x\<lparr>mm_Content := s\<rparr>) (decode_string v (mm_Content x))
      else Some x)"

definition zero_mock_message :: mock_message where
  "zero_mock_message = \<lparr>mm_Role = [], mm_Content = []\<rparr>"

definition mock_request_field :: "string \<Rightarrow> json \<Rightarrow> mock_request \<Rightarrow> mock_request option" where
  "mock_request_field k v x =
     (if k = ''model'' then map_option (\<lambda>s. x\<lparr>mreq_Model := s\<rparr>) (decode_string v (mreq_Model x))
      else if k = ''messages''
        then map_option (\<lambda>l. x\<lparr>mreq_Messages := l\<rparr>)
          (decode_list (decode_struct mock_message_field) zero_mock_message v (mreq_Messages x))
      else if k = ''stream'' then map_option (\<lambda>b. x\<lparr>mreq_Stream := b\<rparr>) (decode_bool v (mreq_Stream x))
      else Some x)"

definition decode_mock_request :: "json \<Rightarrow> mock_request option" where
  "decode_mock_request v =
     decode_struct mock_request_field v \<lparr>mreq_Model = [], mreq_Messages = [], mreq_Stream = False\<rparr>"

definition encode_mock_response :: "mock_response \<Rightarrow> json" where
  "encode_mock_response x =
     JObj [(''model'', JStr (mresp_Model x)), (''output_text'', JStr (mresp_OutputText x))]"

fun collapse_loop :: "mock_message list \<Rightarrow> string list \<Rightarrow> string list" where
  "collapse_loop [] parts = parts"
| "collapse_loop (msg # msgs) parts =
     collapse_loop msgs (if TrimSpace (mm_Content msg) \<noteq> [] then parts @ [mm_Content msg] else parts)"

definition collapseMessages :: "mock_message list \<Rightarrow> string" where
  "collapseMessages messages = Join (collapse_loop messages []) '' ''"

definition fallback :: "string \<Rightarrow> string \<Rightarrow> string" where
  "fallback value defaultValue = (if value = [] then defaultValue else value)"

definition mock_infer :: "request \<Rightarrow> response" where
  "mock_infer r =
     (if rq_method r \<noteq> MethodPost then http_Error Map.empty ''method not allowed'' 405
      else
        (case Option.bind (rq_body r) decode_mock_request of
           None \<Rightarrow> http_Error Map.empty ''invalid json'' 400
         | Some req \<Rightarrow>
             let prompt = collapseMessages (mreq_Messages req);
                 text = (if TrimSpace prompt = [] then ''Mock response with no prompt content''
                         else ''Mock response to: '' @ prompt)
             in writeJSON Map.empty 200 (encode_mock_response
                  \<lparr>mresp_Model = fallback (mreq_Model req) ''mock-llm'', mresp_OutputText = text\<rparr>)))"

definition mock_handler :: "request \<Rightarrow> response" where
  "mock_handler r =
     (if rq_path r = ''/healthz'' then writeJSON Map.empty 200 (JObj [(''status'', JStr ''ok'')])
      else if rq_path r = ''/infer'' then mock_infer r
      else http_NotFound Map.empty)"

definition mock_addr :: "(string \<rightharpoonup> string) \<Rightarrow> string" where
  "mock_addr env = getenv env ''MOCK_BACKEND_ADDR'' '':9000''"

section \<open>Lemmas\<close>

lemma collapse_loop_eq:
  "collapse_loop msgs parts = parts @ filter (\<lambda>c. TrimSpace c \<noteq> []) (map mm_Content msgs)"
  by (induction msgs arbitrary: parts) simp_all

text \<open>The mock decodes what the router sends; the fields it does not know are skipped.\<close>

definition mock_message_of :: "chat_message \<Rightarrow> mock_message" where
  "mock_message_of m = \<lparr>mm_Role = msg_Role m, mm_Content = msg_Content m\<rparr>"

lemma mm_Content_of [simp]: "mm_Content (mock_message_of m) = msg_Content m"
  by (simp add: mock_message_of_def)

lemma decode_mock_messages:
  "decode_list (decode_struct mock_message_field) zero_mock_message (encode_slice encode_message ms) old =
    Some (map mock_message_of ms)"
proof -
  have one: "decode_struct mock_message_field (encode_message m) y = Some (mock_message_of m)" for m y
    by (simp add: encode_message_def mock_message_field_def mock_message_of_def)
  then have "decode_slice (decode_struct mock_message_field) zero_mock_message (map encode_message ms) old =
      Some (map mock_message_of ms)"
    by (induction ms arbitrary: old) simp_all
  then show ?thesis by (simp add: encode_slice_def)
qed

lemma decode_mock_request_forwarded:
  "decode_mock_request (encode_backend_request b) =
    Some \<lparr>mreq_Model = breq_Model b, mreq_Messages = map mock_message_of (breq_Messages b),
      mreq_Stream = breq_Stream b\<rparr>"
  by (simp add: decode_mock_request_def encode_backend_request_def mock_request_field_def decode_mock_messages
      omitempty_def)

lemma decode_mock_response [simp]:
  "decode_backend_response (encode_mock_response x) =
    Some \<lparr>bresp_Model = mresp_Model x, bresp_OutputText = mresp_OutputText x\<rparr>"
  by (simp add: decode_backend_response_def encode_mock_response_def backend_response_field_def
      zero_backend_response_def)

section \<open>Properties\<close>

text \<open>
  C32: The mock backend never fails the router: every request the router sends, whatever its fields,
  is answered with the requested model and a text that quotes the contents that are not blank, joined
  by spaces, and its health check always succeeds.
\<close>

theorem mock_backend_answers:
  assumes "parse_url (url @ ''/infer'') = None" and "parse_url (url @ ''/healthz'') = None"
  shows "HealthCheck parse_url (serve url mock_handler) url = None \<and>
    (\<exists>x. SendChatCompletion parse_url (serve url mock_handler) now url r = Inr x \<and>
      resp_Model x = (if req_Model r = [] then ''mock-llm'' else req_Model r) \<and>
      map (msg_Content \<circ> ch_Message) (resp_Choices x) =
        [case filter (\<lambda>c. TrimSpace c \<noteq> []) (map msg_Content (req_Messages r)) of
           [] \<Rightarrow> ''Mock response with no prompt content''
         | cs \<Rightarrow> ''Mock response to: '' @ Join cs '' ''])"
proof -
  let ?cs = "filter (\<lambda>c. TrimSpace c \<noteq> []) (map msg_Content (req_Messages r))"
  have collapse: "collapseMessages (map mock_message_of (req_Messages r)) = Join ?cs '' ''"
    by (simp add: collapseMessages_def collapse_loop_eq comp_def)
  have prompt: "TrimSpace (Join ?cs '' '') = [] \<longleftrightarrow> ?cs = []"
    by (rule Join_blank) simp
  show ?thesis
  proof
    show "HealthCheck parse_url (serve url mock_handler) url = None"
      using assms(2) by (simp add: HealthCheck_def mock_handler_def Let_def)
    show "\<exists>x. SendChatCompletion parse_url (serve url mock_handler) now url r = Inr x \<and>
      resp_Model x = (if req_Model r = [] then ''mock-llm'' else req_Model r) \<and>
      map (msg_Content \<circ> ch_Message) (resp_Choices x) =
        [case ?cs of [] \<Rightarrow> ''Mock response with no prompt content'' | cs \<Rightarrow> ''Mock response to: '' @ Join cs '' '']"
      using assms(1)
      by (simp add: SendChatCompletion_def mock_handler_def mock_infer_def decode_mock_request_forwarded collapse
          prompt fallback_def chooseModel_def Let_def split: list.split)
  qed
qed

theorem mock_backend_answers_witness:
  "\<exists>x. SendChatCompletion (\<lambda>_. None) (serve ''http://localhost:9000'' mock_handler) 0 ''http://localhost:9000''
      zero_chat_request = Inr x \<and> resp_Model x = ''mock-llm'' \<and>
    map (msg_Content \<circ> ch_Message) (resp_Choices x) = [''Mock response with no prompt content'']"
  using mock_backend_answers [of "\<lambda>_. None" "''http://localhost:9000''" 0 zero_chat_request]
  by (simp add: zero_chat_request_def)

end
