(* ===== verification/Pipeline.thy ===== *)
theory Pipeline
  imports MockBackend ChatRequests
begin

text \<open>
  The router, an adapter and its model server together: what a chat request comes to when the selected
  backend is the llama adapter (\<open>cmd/vllm-adapter\<close>) and the adapter talks to a server \<open>net\<close>.
\<close>

lemma chat_request_ok_forwardable:
  assumes "chat_request_ok r req"
  shows "chat_request_wf req" and "req_Model req \<noteq> []" and "req_Messages req \<noteq> []"
  using assms
  by (auto simp: chat_request_ok_def validateChatRequest_def bind_eq_Some_conv intro: decode_chat_request_wf
      split: if_splits)

lemma Llm_Generate_not_Nil: "Llm_Generate parse_url net c opts = Inr text \<Longrightarrow> text \<noteq> []"
  by (rule llama.generate_not_Nil)

text \<open>
  C3: A chat request through the whole chain.  If the llama server yields a text, the client receives
  exactly this text, which is not empty, under the model name it asked for, and no backend changes its
  health.  If it does not, for whatever reason, the adapter answers 502, the router answers 502 and
  takes this adapter, and no other, out of rotation.
\<close>

theorem chat_through_llama:
  assumes "chat_request_ok r req" and "chat_select env req s m = (Ok d, m1, so, st)"
    and "BaseURL m (decision_Backend d) = url" and "parse_url (url @ ''/infer'') = None"
  shows "\<exists>rsp s' m'. handleChatCompletions env parse_url
      (serve url (NewHandler health (Llm_Generate parse_url2 net c))) now h r s m = (Ok rsp, s', m') \<and>
    (case Llm_Generate parse_url2 net c (generate_opts_of (backend_request_of req)) of
       Inl e \<Rightarrow> rsp_status rsp = 502 \<and> (\<forall>b. Healthy m' b \<longleftrightarrow> Healthy m b \<and> b \<noteq> decision_Backend d)
     | Inr text \<Rightarrow> rsp_status rsp = 200 \<and> text \<noteq> [] \<and> (\<forall>b. Healthy m' b = Healthy m b) \<and>
         (\<exists>x. rsp_body rsp = JsonBody (encode_chat_response x) \<and> resp_Model x = req_Model req \<and>
           map (msg_Content \<circ> ch_Message) (resp_Choices x) = [text]))"
  unfolding chat_forwarded [OF assms(1,2)] Let_def assms(3)
    SendChatCompletion_adapter [of req parse_url url, OF chat_request_ok_forwardable [OF assms(1)] assms(4)]
  by (auto simp: chat_select_mem [OF assms(2)] dest: Llm_Generate_not_Nil split: sum.split)

definition llama_example :: transport where
  "llama_example call = Inr \<lparr>reply_status = 200, reply_body = Some (JObj [(''choices'', JArr
     [JObj [(''message'', JObj [(''role'', JStr ''assistant''), (''content'', JStr '' hello'')])]])])\<rparr>"

lemma llama_example_generates:
  assumes "opt_Messages opts \<noteq> []"
  shows "Llm_Generate (\<lambda>_. None) llama_example c opts = Inr ''hello''"
proof -
  have "TrimSpace '' hello'' = ''hello''" by code_simp
  with assms show ?thesis
    by (simp add: Llm_Generate_def llama_example_def decode_llm_response_def llm_response_field_def
        llm_choice_field_def decode_message_def message_field_def zero_message_def Let_def)
qed

theorem chat_through_llama_witness:
  "\<exists>url rsp s' m' x. handleChatCompletions plain_env (\<lambda>_. None)
      (serve url (NewHandler None (Llm_Generate (\<lambda>_. None) llama_example (NewLlmClient ''http://llama'' ''qwen''))))
      0 Map.empty hi_request two_server two_backends = (Ok rsp, s', m') \<and> rsp_status rsp = 200 \<and>
    rsp_body rsp = JsonBody (encode_chat_response x) \<and> map (msg_Content \<circ> ch_Message) (resp_Choices x) = [''hello'']"
proof -
  obtain d m1 so st where sel: "chat_select plain_env hi_chat two_server two_backends = (Ok d, m1, so, st)"
    by (rule two_server_select)
  have "opt_Messages (generate_opts_of (backend_request_of hi_chat)) \<noteq> []" by (simp add: hi_chat_def)
  from llama_example_generates [OF this]
  show ?thesis
    using chat_through_llama [OF hi_request_ok sel refl, of "\<lambda>_. None" None "\<lambda>_. None" llama_example
        "NewLlmClient ''http://llama'' ''qwen''" 0 Map.empty]
    by simp metis
qed

end
