(* ===== verification/Mains.thy ===== *)
theory Mains
  imports Adapter ServerConfig
begin

text \<open>
  \<open>cmd/triton-adapter/main.go\<close> and \<open>cmd/vllm-adapter/main.go\<close>: what the two adapter programs read from
  the environment and the handlers they serve.  Their copies of \<open>getenv\<close> and \<open>durationFromEnv\<close> are
  those of the router's configuration word for word and share its model.  Listening itself is not
  modelled; a program is the address, the client it builds and the timeout of its HTTP client.
\<close>

section \<open>The code\<close>

definition intFromEnv :: "(string \<rightharpoonup> string) \<Rightarrow> string \<Rightarrow> int \<Rightarrow> int" where
  "intFromEnv env key fallback =
     (let value = Getenv env key in
      if value = [] then fallback
      else (case Atoi value of None \<Rightarrow> fallback | Some parsed \<Rightarrow> parsed))"

record 'c adapter_program =
  ap_Addr :: string
  ap_Client :: 'c
  ap_Timeout :: int

definition triton_adapter_main :: "(string \<rightharpoonup> string) \<Rightarrow> triton_client adapter_program" where
  "triton_adapter_main env =
     (let addr = getenv env ''TRITON_ADAPTER_ADDR'' '':9000'';
          tritonURL = getenv env ''TRITON_BASE_URL'' ''http://localhost:8000'';
          modelName = getenv env ''TRITON_MODEL_NAME'' ''qwen3_0_6b'';
          timeout = durationFromEnv env ''TRITON_TIMEOUT'' (60 * 10 ^ 9);
          maxNewTokens = intFromEnv env ''TRITON_MAX_NEW_TOKENS'' 128
      in \<lparr>ap_Addr = addr, ap_Client = NewTritonClient tritonURL modelName maxNewTokens, ap_Timeout = timeout\<rparr>)"

definition triton_adapter_handler ::
  "(string \<Rightarrow> gerror option) \<Rightarrow> transport \<Rightarrow> triton_client adapter_program \<Rightarrow> request \<Rightarrow> response" where
  "triton_adapter_handler parse_url do p =
     NewHandler (Triton_HealthCheck parse_url do (ap_Client p)) (Triton_Generate parse_url do (ap_Client p))"

definition llama_adapter_main :: "(string \<rightharpoonup> string) \<Rightarrow> llm_client adapter_program" where
  "llama_adapter_main env =
     (let addr = getenv env ''LLAMA_ADAPTER_ADDR'' '':9000'';
          llamaURL = getenv env ''LLAMA_BASE_URL'' ''http://localhost:8080'';
          modelName = getenv env ''LLAMA_MODEL_NAME'' ''Qwen/Qwen2.5-0.5B-Instruct'';
          timeout = durationFromEnv env ''LLAMA_TIMEOUT'' (60 * 10 ^ 9)
      in \<lparr>ap_Addr = addr, ap_Client = NewLlmClient llamaURL modelName, ap_Timeout = timeout\<rparr>)"

definition llama_adapter_handler ::
  "(string \<Rightarrow> gerror option) \<Rightarrow> transport \<Rightarrow> llm_client adapter_program \<Rightarrow> request \<Rightarrow> response" where
  "llama_adapter_handler parse_url do p =
     NewHandler (Llm_HealthCheck parse_url do (ap_Client p)) (Llm_Generate parse_url do (ap_Client p))"

section \<open>Properties\<close>

lemma itoa_not_Nil [simp]: "itoa k \<noteq> []"
  by (simp add: itoa_def)

lemma intFromEnv_itoa:
  "- (2 ^ 63) \<le> n \<Longrightarrow> n < 2 ^ 63 \<Longrightarrow> intFromEnv (env(key \<mapsto> itoa n)) key fallback = n"
  by (simp add: intFromEnv_def Getenv_def Atoi_itoa Let_def)

text \<open>
  C33: The Triton adapter asks its server for as many tokens as \<open>TRITON_MAX_NEW_TOKENS\<close> says (128 if
  that is unset or no number), whatever token limit, temperature and repetition penalty the router
  forwards: for two \<open>/infer\<close> requests of the same model and messages the adapter makes the same call.
\<close>

theorem triton_adapter_token_limit:
  assumes "- (2 ^ 63) \<le> n" and "n < 2 ^ 63"
    and "env ''TRITON_MAX_NEW_TOKENS'' = Some (itoa n) \<or> env ''TRITON_MAX_NEW_TOKENS'' = None \<and> n = 128"
    and "decode_backend_request v = Some req" and "breq_Model req \<noteq> []" and "breq_Messages req \<noteq> []"
    and "parse_url (tri_baseURL c @ ''/v2/models/'' @ PathEscape (tri_modelName c) @ ''/infer'') = None"
    and "c = ap_Client (triton_adapter_main env)"
  shows "triton_adapter_handler parse_url net (triton_adapter_main env)
      \<lparr>rq_method = MethodPost, rq_path = ''/infer'', rq_body = Some v\<rparr> =
    (case net \<lparr>call_method = MethodPost,
         call_url = tri_baseURL c @ ''/v2/models/'' @ PathEscape (tri_modelName c) @ ''/infer'',
         call_headers = [''Content-Type'' \<mapsto> ''application/json''],
         call_body = Some (buildInferRequest (flattenMessages (breq_Messages req)) n)\<rparr> of
       Inl e \<Rightarrow> http_Error Map.empty ''backend inference failed'' 502
     | Inr reply \<Rightarrow>
         (case if 400 \<le> reply_status reply then None
               else Option.bind (reply_body reply) decode_infer_response of
            None \<Rightarrow> http_Error Map.empty ''backend inference failed'' 502
          | Some outputs \<Rightarrow>
              (case extractGeneratedText outputs of
                 Inl e \<Rightarrow> http_Error Map.empty ''backend inference failed'' 502
               | Inr text \<Rightarrow> writeJSON Map.empty 200 (encode_backend_response
                   \<lparr>bresp_Model = breq_Model req, bresp_OutputText = text\<rparr>))))"
proof -
  have "tri_maxNewTokens c = n"
    using assms(1-3,8)
    by (auto simp: triton_adapter_main_def NewTritonClient_def intFromEnv_def Getenv_def Atoi_itoa Let_def)
  then show ?thesis
    using assms(4-7) unfolding assms(8) [symmetric] triton_adapter_handler_def
    by (auto simp: NewHandler_def adapter_infer_def generate_opts_of_def Triton_Generate_def Let_def
        split: sum.split option.split)
qed

definition picky_triton :: transport where
  "picky_triton call =
     (if call_body call = Some (buildInferRequest ''user: hi'' (- 7))
      then Inr \<lparr>reply_status = 200, reply_body = Some (JObj [(''outputs'', JArr [JObj
        [(''name'', JStr ''generated_text''), (''data'', JArr [JStr ''hello''])]])])\<rparr>
      else Inl (ErrMsg ''unexpected request''))"

theorem triton_adapter_token_limit_witness:
  "triton_adapter_handler (\<lambda>_. None) picky_triton (triton_adapter_main [''TRITON_MAX_NEW_TOKENS'' \<mapsto> ''-7''])
      \<lparr>rq_method = MethodPost, rq_path = ''/infer'', rq_body = Some (JObj [(''model'', JStr ''m''),
        (''messages'', JArr [JObj [(''role'', JStr ''user''), (''content'', JStr ''hi'')]]), (''max_tokens'', JInt 99)])\<rparr> =
    writeJSON Map.empty 200 (encode_backend_response \<lparr>bresp_Model = ''m'', bresp_OutputText = ''hello''\<rparr>)"
proof -
  let ?env = "[''TRITON_MAX_NEW_TOKENS'' \<mapsto> ''-7'']"
  let ?req = "\<lparr>breq_Model = ''m'', breq_Messages = [\<lparr>msg_Role = ''user'', msg_Content = ''hi''\<rparr>],
    breq_Stream = False, breq_MaxTokens = 99, breq_Temperature = 0, breq_RepetitionPenalty = 0\<rparr>"
  let ?v = "JObj [(''model'', JStr ''m''),
    (''messages'', JArr [JObj [(''role'', JStr ''user''), (''content'', JStr ''hi'')]]), (''max_tokens'', JInt 99)]"
  let ?outputs = "[\<lparr>out_Name = ''generated_text'', out_Data = [JStr ''hello''], out_Shape = []\<rparr>]"
  have decode: "decode_backend_request ?v = Some ?req"
    by (simp add: decode_backend_request_def backend_request_field_def decode_message_def message_field_def
        zero_message_def zero_backend_request_def)
  have "itoa (- 7) = ''-7''" "TrimSpace ''hi'' = ''hi''" "TrimSpace ''hello'' = ''hello''" by code_simp+
  moreover have "decode_infer_response (JObj [(''outputs'', JArr [JObj
      [(''name'', JStr ''generated_text''), (''data'', JArr [JStr ''hello''])]])]) = Some ?outputs"
    by (simp add: decode_infer_response_def infer_response_field_def output_field_def zero_output_def decode_any_def)
  moreover have "flattenMessages (breq_Messages ?req) = ''user: hi''"
    using calculation by (simp add: flattenMessages_def)
  ultimately show ?thesis
    using triton_adapter_token_limit [of "- 7" ?env ?v ?req "\<lambda>_. None" _ picky_triton, OF _ _ _ decode _ _ _ refl]
    by (simp add: picky_triton_def)
qed

end
