(* ===== verification/VllmClient.thy ===== *)
theory VllmClient
  imports LlmClient
begin

text \<open>
  \<open>internal/vllm/client.go\<close>: an earlier copy of the llama client with message and option types of its
  own, which no program of the repository imports any more.  It is kept here to show that the copy
  has not drifted: it makes the same calls and returns the same results as \<open>internal/llm\<close>.
\<close>

section \<open>The code\<close>

record vllm_client =
  vllm_baseURL :: string
  vllm_modelName :: string

record vllm_message =
  vm_Role :: string
  vm_Content :: string

record vllm_opts =
  vopt_Messages :: "vllm_message list"
  vopt_MaxTokens :: int
  vopt_Temperature :: rat
  vopt_RepetitionPenalty :: rat

definition NewVllmClient :: "string \<Rightarrow> string \<Rightarrow> vllm_client" where
  "NewVllmClient baseURL modelName =
     \<lparr>vllm_baseURL = TrimRight baseURL CHR ''/'', vllm_modelName = modelName\<rparr>"

definition Vllm_HealthCheck :: "(string \<Rightarrow> gerror option) \<Rightarrow> transport \<Rightarrow> vllm_client \<Rightarrow> gerror option" where
  "Vllm_HealthCheck parse_url do c =
     (let url = vllm_baseURL c @ ''/health'' in
      case parse_url url of
        Some e \<Rightarrow> Some e
      | None \<Rightarrow>
          (case do \<lparr>call_method = MethodGet, call_url = url, call_headers = Map.empty, call_body = None\<rparr> of
             Inl e \<Rightarrow> Some e
           | Inr resp \<Rightarrow>
               if 400 \<le> reply_status resp
               then Some (ErrMsg (''llama health status '' @ itoa (reply_status resp)))
               else None))"

definition encode_vllm_message :: "vllm_message \<Rightarrow> json" where
  "encode_vllm_message x = JObj [(''role'', JStr (vm_Role x)), (''content'', JStr (vm_Content x))]"

text \<open>\<open>chatRequest\<close> on the wire: the model of the client and the options.\<close>

definition encode_vllm_request :: "vllm_client \<Rightarrow> vllm_opts \<Rightarrow> json" where
  "encode_vllm_request c opts = JObj (
     [(''model'', JStr (vllm_modelName c)),
      (''messages'', encode_slice encode_vllm_message (vopt_Messages opts))]
     @ omitempty (vopt_MaxTokens opts = 0) ''max_tokens'' (JInt (vopt_MaxTokens opts))
     @ omitempty (vopt_Temperature opts = 0) ''temperature'' (encode_float (vopt_Temperature opts))
     @ omitempty (vopt_RepetitionPenalty opts = 0) ''repetition_penalty''
         (encode_float (vopt_RepetitionPenalty opts)))"

definition zero_vllm_message :: vllm_message where
  "zero_vllm_message = \<lparr>vm_Role = [], vm_Content = []\<rparr>"

definition vllm_message_field :: "string \<Rightarrow> json \<Rightarrow> vllm_message \<Rightarrow> vllm_message option" where
  "vllm_message_field k v x =
     (if k = ''role'' then map_option (\<lambda>s. x\<lparr>vm_Role := s\<rparr>) (decode_string v (vm_Role x))
      else if k = ''content'' then map_option (\<lambda>s. x\<lparr>vm_Content := s\<rparr>) (decode_string v (vm_Content x))
      else Some x)"

definition vllm_choice_field :: "string \<Rightarrow> json \<Rightarrow> vllm_message \<Rightarrow> vllm_message option" where
  "vllm_choice_field k v x = (if k = ''message'' then decode_struct vllm_message_field v x else Some x)"

definition vllm_response_field :: "string \<Rightarrow> json \<Rightarrow> vllm_message list \<Rightarrow> vllm_message list option" where
  "vllm_response_field k v x =
     (if k = ''choices'' then decode_list (decode_struct vllm_choice_field) zero_vllm_message v x else Some x)"

definition decode_vllm_response :: "json \<Rightarrow> vllm_message list option" where
  "decode_vllm_response v = decode_struct vllm_response_field v []"

definition Vllm_Generate ::
  "(string \<Rightarrow> gerror option) \<Rightarrow> transport \<Rightarrow> vllm_client \<Rightarrow> vllm_opts \<Rightarrow> gerror + string" where
  "Vllm_Generate parse_url do c opts =
     (let messages = vopt_Messages opts in
      if length messages = 0 then Inl (ErrMsg ''no messages provided'')
      else
        let payload = encode_vllm_request c opts;
            url = vllm_baseURL c @ ''/v1/chat/completions''
        in case parse_url url of
             Some e \<Rightarrow> Inl e
           | None \<Rightarrow>
               (case do \<lparr>call_method = MethodPost, call_url = url,
                         call_headers = [''Content-Type'' \<mapsto> ''application/json''], call_body = Some payload\<rparr> of
                  Inl e \<Rightarrow> Inl e
                | Inr resp \<Rightarrow>
                    if 400 \<le> reply_status resp
                    then Inl (ErrMsg (''llama completion status '' @ itoa (reply_status resp)))
                    else
                      (case Option.bind (reply_body resp) decode_vllm_response of
                         None \<Rightarrow> Inl decode_error
                       | Some choices \<Rightarrow>
                           if length choices = 0 then Inl (ErrMsg ''llama completion returned no choices'')
                           else
                             let text = TrimSpace (vm_Content (choices ! 0))
                             in if text = [] then Inl (ErrMsg ''llama completion returned empty content'')
                                else Inr text)))"

section \<open>The two copies\<close>

definition as_message :: "vllm_message \<Rightarrow> chat_message" where
  "as_message x = \<lparr>msg_Role = vm_Role x, msg_Content = vm_Content x\<rparr>"

definition as_client :: "vllm_client \<Rightarrow> llm_client" where
  "as_client c = \<lparr>llm_baseURL = vllm_baseURL c, llm_modelName = vllm_modelName c\<rparr>"

definition as_opts :: "vllm_opts \<Rightarrow> generate_opts" where
  "as_opts x = \<lparr>opt_Messages = map as_message (vopt_Messages x), opt_MaxTokens = vopt_MaxTokens x,
     opt_Temperature = vopt_Temperature x, opt_RepetitionPenalty = vopt_RepetitionPenalty x\<rparr>"

lemma as_message_field: "message_field k v (as_message x) = map_option as_message (vllm_message_field k v x)"
  by (simp add: message_field_def vllm_message_field_def as_message_def option.map_comp comp_def)

lemma as_choice_field: "llm_choice_field k v (as_message x) = map_option as_message (vllm_choice_field k v x)"
  by (simp add: llm_choice_field_def vllm_choice_field_def decode_message_def
      decode_struct_hom [of message_field as_message vllm_message_field, OF as_message_field])

lemma as_choice: "decode_struct llm_choice_field v (as_message x) =
    map_option as_message (decode_struct vllm_choice_field v x)"
  by (rule decode_struct_hom) (rule as_choice_field)

lemma as_zero: "zero_message = as_message zero_vllm_message"
  by (simp add: zero_message_def zero_vllm_message_def as_message_def)

lemma as_response_field:
  "llm_response_field k v (map as_message xs) = map_option (map as_message) (vllm_response_field k v xs)"
  by (simp add: llm_response_field_def vllm_response_field_def as_zero
      decode_list_hom [of "decode_struct llm_choice_field" as_message "decode_struct vllm_choice_field", OF as_choice])

lemma decode_as_response: "decode_llm_response v = map_option (map as_message) (decode_vllm_response v)"
  using decode_struct_hom [of llm_response_field "map as_message" vllm_response_field v "[]", OF as_response_field]
  by (simp add: decode_llm_response_def decode_vllm_response_def)

lemma bind_as_response:
  "Option.bind b decode_llm_response = map_option (map as_message) (Option.bind b decode_vllm_response)"
  by (cases b) (simp_all add: decode_as_response)

lemma encode_as_request: "encode_llm_request (as_client c) (as_opts opts) = encode_vllm_request c opts"
  by (simp add: encode_llm_request_def encode_vllm_request_def as_client_def as_opts_def encode_slice_def
      encode_message_def encode_vllm_message_def as_message_def comp_def)

text \<open>
  The copy agrees with the client the llama adapter uses: built from the same configuration, with
  the same options and the same network, both health checks and both generations have the same results.
\<close>

theorem vllm_client_agrees:
  "as_client (NewVllmClient baseURL modelName) = NewLlmClient baseURL modelName \<and>
   Vllm_HealthCheck parse_url net c = Llm_HealthCheck parse_url net (as_client c) \<and>
   Vllm_Generate parse_url net c opts = Llm_Generate parse_url net (as_client c) (as_opts opts)"
proof -
  have "as_client (NewVllmClient baseURL modelName) = NewLlmClient baseURL modelName"
    by (simp add: as_client_def NewVllmClient_def NewLlmClient_def)
  moreover have "Vllm_HealthCheck parse_url net c = Llm_HealthCheck parse_url net (as_client c)"
    by (simp add: Vllm_HealthCheck_def Llm_HealthCheck_def as_client_def)
  moreover have "Vllm_Generate parse_url net c opts = Llm_Generate parse_url net (as_client c) (as_opts opts)"
    unfolding Vllm_Generate_def Llm_Generate_def encode_as_request Let_def
    by (auto simp: as_client_def as_opts_def as_message_def bind_as_response split: option.split sum.split)
  ultimately show ?thesis by blast
qed

end
