(* ===== verification/Lifecycle.thy ===== *)
theory Lifecycle
  imports Server
begin

text \<open>
  Starting and stopping the router: the prober goroutine (\<open>startProber\<close>), \<open>Run\<close> and \<open>Shutdown\<close> of
  \<open>internal/server/server.go\<close>, and \<open>cmd/router/main.go\<close>, whose main goroutine is in \<open>Run\<close> while a
  second one waits for a signal and calls \<open>Shutdown\<close>.  The process is a state machine: an event is one
  atomic step of a goroutine, of the ticker, of a client or of \<open>net/http\<close>, and is possible only where
  the code lets it happen.  What a probe round does to the backends is \<open>probeBackends\<close> (\<open>Server\<close>); here
  only its begin and end count.
\<close>

section \<open>The code\<close>

text \<open>\<open>Run\<close>: what it returns for the error \<open>ListenAndServe\<close> returned.\<close>

datatype listen_error = ErrServerClosed | ListenError string

definition Run :: "listen_error \<Rightarrow> listen_error option" where
  "Run err = (if err = ErrServerClosed then None else Some err)"

datatype prober_pc = Probing | Selecting | ProberExited
datatype shutdown_pc = AwaitSignal | AwaitProber | Stopping | Draining | ShutdownReturned bool
datatype main_pc = Serving | Returned "listen_error option" | ProcessExited

record life =
  lf_prober :: prober_pc
  lf_ticker :: bool      \<comment> \<open>\<open>NewTicker\<close> was called\<close>
  lf_tick :: bool        \<comment> \<open>a tick in the ticker's channel, which holds one\<close>
  lf_stopCh :: bool      \<comment> \<open>closed\<close>
  lf_probeDone :: bool   \<comment> \<open>closed\<close>
  lf_shutdown :: shutdown_pc
  lf_listening :: bool
  lf_open :: nat         \<comment> \<open>accepted connections whose request is not answered yet\<close>
  lf_main :: main_pc

text \<open>The state after \<open>New\<close>: the prober is in its first round, \<open>main\<close> is in \<open>Run\<close>.\<close>

definition life_start :: life where
  "life_start = \<lparr>lf_prober = Probing, lf_ticker = False, lf_tick = False, lf_stopCh = False, lf_probeDone = False,
     lf_shutdown = AwaitSignal, lf_listening = True, lf_open = 0, lf_main = Serving\<rparr>"

datatype life_event =
    RoundEnds                \<comment> \<open>a probe round is over\<close>
  | Tick                     \<comment> \<open>the ticker fires\<close>
  | TakeTick                 \<comment> \<open>\<open>select\<close> takes the tick and the next round begins\<close>
  | TakeStop                 \<comment> \<open>\<open>select\<close> takes \<open>stopCh\<close>, the prober returns\<close>
  | Signal                   \<comment> \<open>a signal: \<open>Shutdown\<close> closes \<open>stopCh\<close>\<close>
  | ProberSeen               \<comment> \<open>\<open>Shutdown\<close> receives from \<open>probeDone\<close>\<close>
  | StopsListening           \<comment> \<open>\<open>httpSrv.Shutdown\<close> closes the listener\<close>
  | Drained                  \<comment> \<open>\<open>httpSrv.Shutdown\<close> finds no open request and returns\<close>
  | Deadline                 \<comment> \<open>its five seconds are over\<close>
  | Request                  \<comment> \<open>a connection with a request is accepted\<close>
  | Answer                   \<comment> \<open>a request is answered\<close>
  | ListenReturns listen_error
  | MainReturns

text \<open>
  The steps of the prober goroutine, of \<open>Shutdown\<close> in the signal goroutine, of \<open>main\<close>, and of what is
  around them; each is possible only where its equation gives a state.  Closing a channel twice panics;
  \<open>stopOnce\<close> and the single signal goroutine leave one call that closes \<open>stopCh\<close>, and only the prober's
  return closes \<open>probeDone\<close>.
\<close>

fun prober_step :: "life_event \<Rightarrow> life \<Rightarrow> life option" where
  "prober_step RoundEnds s =
     (if lf_prober s = Probing then Some (s\<lparr>lf_prober := Selecting, lf_ticker := True\<rparr>) else None)"
| "prober_step TakeTick s =
     (if lf_prober s = Selecting \<and> lf_tick s
      then Some (s\<lparr>lf_prober := Probing, lf_tick := False\<rparr>) else None)"
| "prober_step TakeStop s =
     (if lf_prober s = Selecting \<and> lf_stopCh s
      then Some (s\<lparr>lf_prober := ProberExited, lf_probeDone := True\<rparr>) else None)"
| "prober_step _ s = None"

fun shutdown_step :: "life_event \<Rightarrow> life \<Rightarrow> life option" where
  "shutdown_step Signal s =
     (if lf_shutdown s = AwaitSignal
      then Some (s\<lparr>lf_stopCh := True, lf_shutdown := AwaitProber\<rparr>) else None)"
| "shutdown_step ProberSeen s =
     (if lf_shutdown s = AwaitProber \<and> lf_probeDone s then Some (s\<lparr>lf_shutdown := Stopping\<rparr>) else None)"
| "shutdown_step StopsListening s =
     (if lf_shutdown s = Stopping
      then Some (s\<lparr>lf_shutdown := Draining, lf_listening := False\<rparr>) else None)"
| "shutdown_step Drained s =
     (if lf_shutdown s = Draining \<and> lf_open s = 0
      then Some (s\<lparr>lf_shutdown := ShutdownReturned True\<rparr>) else None)"
| "shutdown_step Deadline s =
     (if lf_shutdown s = Draining then Some (s\<lparr>lf_shutdown := ShutdownReturned False\<rparr>) else None)"
| "shutdown_step _ s = None"

fun main_step :: "life_event \<Rightarrow> life \<Rightarrow> life option" where
  "main_step (ListenReturns err) s =
     (if lf_main s = Serving \<and> (err = ErrServerClosed) = (\<not> lf_listening s)
      then Some (s\<lparr>lf_listening := False, lf_main := Returned (Run err)\<rparr>) else None)"
| "main_step MainReturns s =
     (case lf_main s of
        Returned _ \<Rightarrow> Some (s\<lparr>lf_main := ProcessExited\<rparr>)
      | _ \<Rightarrow> None)"
| "main_step _ s = None"

fun outside_step :: "life_event \<Rightarrow> life \<Rightarrow> life option" where
  "outside_step Tick s =
     (if lf_ticker s \<and> lf_prober s \<noteq> ProberExited then Some (s\<lparr>lf_tick := True\<rparr>) else None)"
| "outside_step Request s =
     (if lf_listening s then Some (s\<lparr>lf_open := lf_open s + 1\<rparr>) else None)"
| "outside_step Answer s =
     (if 0 < lf_open s then Some (s\<lparr>lf_open := lf_open s - 1\<rparr>) else None)"
| "outside_step _ s = None"

text \<open>The process: when \<open>main\<close> has returned, every goroutine is gone.\<close>

fun life_step :: "life_event \<Rightarrow> life \<Rightarrow> life option" where
  "life_step RoundEnds s = (if lf_main s = ProcessExited then None else prober_step RoundEnds s)"
| "life_step TakeTick s = (if lf_main s = ProcessExited then None else prober_step TakeTick s)"
| "life_step TakeStop s = (if lf_main s = ProcessExited then None else prober_step TakeStop s)"
| "life_step Signal s = (if lf_main s = ProcessExited then None else shutdown_step Signal s)"
| "life_step ProberSeen s = (if lf_main s = ProcessExited then None else shutdown_step ProberSeen s)"
| "life_step StopsListening s = (if lf_main s = ProcessExited then None else shutdown_step StopsListening s)"
| "life_step Drained s = (if lf_main s = ProcessExited then None else shutdown_step Drained s)"
| "life_step Deadline s = (if lf_main s = ProcessExited then None else shutdown_step Deadline s)"
| "life_step (ListenReturns err) s = (if lf_main s = ProcessExited then None else main_step (ListenReturns err) s)"
| "life_step MainReturns s = (if lf_main s = ProcessExited then None else main_step MainReturns s)"
| "life_step Tick s = (if lf_main s = ProcessExited then None else outside_step Tick s)"
| "life_step Request s = (if lf_main s = ProcessExited then None else outside_step Request s)"
| "life_step Answer s = (if lf_main s = ProcessExited then None else outside_step Answer s)"

fun life_run :: "life_event list \<Rightarrow> life \<Rightarrow> life option" where
  "life_run [] s = Some s"
| "life_run (e # es) s = (case life_step e s of None \<Rightarrow> None | Some s' \<Rightarrow> life_run es s')"

section \<open>The invariant\<close>

definition life_inv :: "life \<Rightarrow> bool" where
  "life_inv s \<longleftrightarrow>
     (lf_probeDone s \<longleftrightarrow> lf_prober s = ProberExited) \<and>
     (lf_stopCh s \<longleftrightarrow> lf_shutdown s \<noteq> AwaitSignal) \<and>
     (lf_prober s = ProberExited \<longrightarrow> lf_stopCh s) \<and>
     (lf_shutdown s \<noteq> AwaitSignal \<and> lf_shutdown s \<noteq> AwaitProber \<longrightarrow>
        lf_prober s = ProberExited \<and> (lf_shutdown s \<noteq> Stopping \<longrightarrow> \<not> lf_listening s))"

lemma prober_step_inv: "prober_step e s = Some s' \<Longrightarrow> life_inv s \<Longrightarrow> life_inv s'"
  by (cases e) (simp_all split: if_splits, (clarify, auto simp: life_inv_def)+)

lemma shutdown_step_inv: "shutdown_step e s = Some s' \<Longrightarrow> life_inv s \<Longrightarrow> life_inv s'"
  by (cases e) (simp_all split: if_splits, (clarify, simp add: life_inv_def)+)

lemma main_step_inv: "main_step e s = Some s' \<Longrightarrow> life_inv s \<Longrightarrow> life_inv s'"
  by (cases e) (simp_all split: if_splits main_pc.splits, (clarify, simp add: life_inv_def)+)

lemma outside_step_inv: "outside_step e s = Some s' \<Longrightarrow> life_inv s \<Longrightarrow> life_inv s'"
  by (cases e) (simp_all split: if_splits, (clarify, simp add: life_inv_def)+)

lemma life_step_actor:
  "life_step e s = Some s' \<Longrightarrow> lf_main s \<noteq> ProcessExited \<and>
    (prober_step e s = Some s' \<or> shutdown_step e s = Some s' \<or> main_step e s = Some s' \<or> outside_step e s = Some s')"
  by (cases e) (auto simp only: life_step.simps option.distinct split: if_splits)

lemma life_step_inv: "life_step e s = Some s' \<Longrightarrow> life_inv s \<Longrightarrow> life_inv s'"
  using life_step_actor prober_step_inv shutdown_step_inv main_step_inv outside_step_inv by blast

lemma life_run_inv: "life_run es s = Some s' \<Longrightarrow> life_inv s \<Longrightarrow> life_inv s'"
  by (induction es arbitrary: s) (auto split: option.splits dest: life_step_inv)

lemma life_start_inv: "life_inv life_start"
  by (simp add: life_inv_def life_start_def)

lemma life_run_append:
  "life_run (es @ fs) s = (case life_run es s of None \<Rightarrow> None | Some s' \<Rightarrow> life_run fs s')"
  by (induction es arbitrary: s) (auto split: option.splits)

section \<open>Properties\<close>

definition is_prober_event :: "life_event \<Rightarrow> bool" where
  "is_prober_event e \<longleftrightarrow> e = RoundEnds \<or> e = TakeTick \<or> e = TakeStop"

text \<open>The steps the prober can still take without another tick.\<close>

definition prober_left :: "life \<Rightarrow> nat" where
  "prober_left s = (case lf_prober s of Probing \<Rightarrow> 2 | Selecting \<Rightarrow> 1 | ProberExited \<Rightarrow> 0)
     + (if lf_tick s \<and> lf_prober s \<noteq> ProberExited then 2 else 0)"

lemma prober_left_step:
  assumes "life_step e s = Some s'"
  shows "(if is_prober_event e then 1 else 0) + prober_left s' \<le> prober_left s + (if e = Tick then 2 else 0)"
proof (cases e)
  case MainReturns
  with assms show ?thesis
    by (cases "lf_main s") (auto simp: is_prober_event_def prober_left_def)
qed (use assms in \<open>auto simp: is_prober_event_def prober_left_def split: if_splits prober_pc.splits\<close>)

lemma prober_left_run:
  "life_run es s = Some s' \<Longrightarrow>
    length (filter is_prober_event es) + prober_left s' \<le> prober_left s + 2 * count_list es Tick"
proof (induction es arbitrary: s)
  case (Cons e es)
  then obtain t where t: "life_step e s = Some t" "life_run es t = Some s'" by (auto split: option.splits)
  with Cons.IH [OF t(2)] prober_left_step [OF t(1)] show ?case by (auto split: if_splits)
qed simp

text \<open>
  C20: \<open>Shutdown\<close> does not wait for ever.  In every stretch of a run the prober takes at most four steps
  and two more for each tick; and as long as \<open>Shutdown\<close> waits for the prober and the process has not
  exited, a probe round can end, the prober can leave its loop or \<open>Shutdown\<close> can go on.  So after the
  signal the prober exits within four of its steps unless the ticker fires, and \<open>Shutdown\<close> gets past it.
\<close>

theorem shutdown_gets_past_prober:
  assumes "life_run es life_start = Some s" and "life_run fs s = Some s'"
    and "lf_shutdown s' = AwaitProber" and "lf_main s' \<noteq> ProcessExited"
  shows "length (filter is_prober_event fs) \<le> 4 + 2 * count_list fs Tick \<and>
    (life_step ProberSeen s' \<noteq> None \<or> life_step RoundEnds s' \<noteq> None \<or> life_step TakeStop s' \<noteq> None)"
proof
  have "prober_left s \<le> 4" by (simp add: prober_left_def split: prober_pc.split)
  with prober_left_run [OF assms(2)]
  show "length (filter is_prober_event fs) \<le> 4 + 2 * count_list fs Tick" by linarith
  have "life_inv s'" using assms(1,2) life_start_inv life_run_inv by blast
  with assms(3,4)
  show "life_step ProberSeen s' \<noteq> None \<or> life_step RoundEnds s' \<noteq> None \<or> life_step TakeStop s' \<noteq> None"
    by (cases "lf_prober s'") (auto simp: life_inv_def)
qed

theorem shutdown_gets_past_prober_witness:
  "\<exists>s'. life_run [Signal, RoundEnds, Tick, TakeTick] life_start = Some s' \<and> life_step RoundEnds s' \<noteq> None"
proof -
  let ?s = "\<lparr>lf_prober = Probing, lf_ticker = True, lf_tick = False, lf_stopCh = True, lf_probeDone = False,
     lf_shutdown = AwaitProber, lf_listening = True, lf_open = 0, lf_main = Serving\<rparr>"
  have run: "life_run [Signal, RoundEnds, Tick, TakeTick] life_start = Some ?s" by (simp add: life_start_def)
  have start: "life_run [] life_start = Some life_start" by simp
  from shutdown_gets_past_prober [OF start run] run show ?thesis by simp
qed

text \<open>
  C38: Once \<open>Shutdown\<close> is past the prober, or has returned, no probe round begins or ends any more, so
  the prober cannot change a backend's health while requests drain; and once it has also closed the
  listener, which is the next thing it does, no new connection is accepted.
\<close>

theorem no_probe_after_shutdown:
  assumes "life_run es life_start = Some s" and "lf_shutdown s \<notin> {AwaitSignal, AwaitProber}"
    and "life_run fs s = Some s'"
  shows "filter is_prober_event fs = [] \<and>
    (lf_shutdown s \<noteq> Stopping \<longrightarrow> Request \<notin> set fs \<and> \<not> lf_listening s')"
  using assms(3,2) life_run_inv [OF assms(1) life_start_inv]
proof (induction fs arbitrary: s)
  case Nil
  then show ?case by (simp add: life_inv_def)
next
  case (Cons e fs)
  then obtain t where t: "life_step e s = Some t" "life_run fs t = Some s'" by (auto split: option.splits)
  have "lf_shutdown t \<notin> {AwaitSignal, AwaitProber} \<and> \<not> is_prober_event e \<and>
      (lf_shutdown s \<noteq> Stopping \<longrightarrow> lf_shutdown t \<noteq> Stopping \<and> e \<noteq> Request)"
    using t(1) Cons.prems(2,3)
    by (cases e) (auto simp: life_inv_def is_prober_event_def split: if_splits main_pc.splits)
  with Cons.IH [OF t(2)] life_step_inv [OF t(1) Cons.prems(3)] show ?case by auto
qed

theorem no_probe_after_shutdown_witness:
  "\<exists>s. life_run [RoundEnds, Signal, TakeStop, ProberSeen, StopsListening] life_start = Some s \<and>
    life_run [Drained] s \<noteq> None \<and> \<not> lf_listening s"
proof -
  let ?s = "\<lparr>lf_prober = ProberExited, lf_ticker = True, lf_tick = False, lf_stopCh = True, lf_probeDone = True,
     lf_shutdown = Draining, lf_listening = False, lf_open = 0, lf_main = Serving\<rparr>"
  have run: "life_run [RoundEnds, Signal, TakeStop, ProberSeen, StopsListening] life_start = Some ?s"
    by (simp add: life_start_def)
  have "\<not> lf_listening ?s" using no_probe_after_shutdown [OF run, of "[]" ?s] by simp
  with run show ?thesis by simp
qed

text \<open>
  C21: The process does not wait for \<open>Shutdown\<close>.  \<open>ListenAndServe\<close> returns as soon as the listener is
  stopped, \<open>Run\<close> turns \<open>ErrServerClosed\<close> into success and \<open>main\<close> returns, so a run exists in which the
  process has exited while a request is still open and \<open>Shutdown\<close> has not returned; from then on
  nothing happens any more.
\<close>

theorem main_exits_before_drain:
  "\<exists>es s. life_run es life_start = Some s \<and> lf_main s = ProcessExited \<and> 0 < lf_open s \<and>
    lf_shutdown s = Draining \<and> (\<forall>e. life_step e s = None)"
proof -
  let ?es = "[Request, RoundEnds, Signal, TakeStop, ProberSeen, StopsListening,
    ListenReturns ErrServerClosed, MainReturns]"
  let ?s = "\<lparr>lf_prober = ProberExited, lf_ticker = True, lf_tick = False, lf_stopCh = True, lf_probeDone = True,
     lf_shutdown = Draining, lf_listening = False, lf_open = 1, lf_main = ProcessExited\<rparr>"
  have "life_run ?es life_start = Some ?s" by (simp add: life_start_def Run_def)
  moreover have "life_step e ?s = None" for e by (cases e) simp_all
  ultimately show ?thesis by (intro exI [of _ ?es] exI [of _ ?s]) simp
qed

end
