(* ===== verification/RouterMain.thy ===== *)
theory RouterMain
  imports ServerStrategy Lifecycle
begin

text \<open>
  \<open>cmd/router/main.go\<close> up to the point where the router listens: the configuration is loaded from the
  environment and the server is built from it.  \<open>open_store\<close> is the connection to the affinity store
  the configuration chose; what the process does from there on is the state machine of \<open>Lifecycle\<close>.
\<close>

definition router_start ::
  "(string \<Rightarrow> gerror option) \<Rightarrow> (string \<rightharpoonup> string) \<Rightarrow> (store_choice \<Rightarrow> 'st) \<Rightarrow> mem \<Rightarrow>
   (gerror + 'st server) \<times> mem" where
  "router_start parse_uri env open_store m =
     (case LoadConfigFromEnv parse_uri env m of
        (Err e, m') \<Rightarrow> (Inl (ErrMsg (''load config: '' @ error_text e)), m')
      | (Panic, m') \<Rightarrow> (Inl (ErrMsg ''panic''), m')
      | (Ok cfg, m') \<Rightarrow>
          (Inr (New (cfg_Backends cfg) (cfg_CacheTTL cfg) (open_store (cfg_AffinityStore cfg))), m'))"

lemma config_ready:
  assumes "LoadConfigFromEnv parse_uri env m = (Ok cfg, m')"
  shows "cfg_Backends cfg \<noteq> []" and "distinct (cfg_Backends cfg)"
    and "\<forall>b\<in>set (cfg_Backends cfg). Healthy m' b"
proof -
  let ?urls = "splitAndTrim (getenv env ''INFERFLOW_BACKENDS'' ''http://localhost:9000'')"
  from assms have "?urls \<noteq> []" and "load_backends parse_uri 0 ?urls [] m = (Ok (cfg_Backends cfg), m')"
    by (auto simp: LoadConfigFromEnv_def Let_def split: if_splits prod.splits outcome.splits)
  with load_backends_Ok [OF this(2)]
  show "cfg_Backends cfg \<noteq> []" and "distinct (cfg_Backends cfg)" by simp_all
  show "\<forall>b\<in>set (cfg_Backends cfg). Healthy m' b"
  proof
    fix b assume "b \<in> set (cfg_Backends cfg)"
    then have "mem_next_backend m \<le> b" "b - mem_next_backend m < length ?urls"
      using load_backends_Ok [OF \<open>load_backends parse_uri 0 ?urls [] m = (Ok (cfg_Backends cfg), m')\<close>] by auto
    then show "Healthy m' b"
      using load_backends_Ok [OF \<open>load_backends parse_uri 0 ?urls [] m = (Ok (cfg_Backends cfg), m')\<close>]
      by (metis le_add_diff_inverse)
  qed
qed

text \<open>
  C24: Whatever the environment, if the router starts at all its server is well-formed for \<open>2^63\<close>
  selections, has at least one backend and no backend twice, runs round robin with all metrics at
  zero, and is ready from the first moment on: every backend counts as healthy until it is probed.
\<close>

theorem router_starts_ready:
  assumes "router_start parse_uri env open_store m = (Inr s, m')"
  shows "server_wf intn (2 ^ 63) s m' \<and> srv_backends s \<noteq> [] \<and> distinct (srv_backends s) \<and>
    (\<forall>b\<in>set (srv_backends s). Healthy m' b) \<and>
    srv_strategyName s = StrategyRoundRobin \<and> srv_metrics s = new_metrics \<and>
    rsp_status (handleReadyz h s m') = 200"
proof -
  from assms obtain cfg where cfg: "LoadConfigFromEnv parse_uri env m = (Ok cfg, m')"
    and s: "s = New (cfg_Backends cfg) (cfg_CacheTTL cfg) (open_store (cfg_AffinityStore cfg))"
    by (auto simp: router_start_def split: prod.splits outcome.splits)
  note ready = config_ready [OF cfg]
  have wf: "server_wf intn (2 ^ 63) s m'" unfolding s by (rule New_wf) simp
  have fields: "srv_backends s = cfg_Backends cfg" "srv_strategyName s = StrategyRoundRobin"
    "srv_metrics s = new_metrics"
    by (simp_all add: s New_def Let_def RoundRobin_Name_def)
  have "strat_HasHealthyBackend m' (srv_strategy s)"
    using dispatch.has_healthy_iff [of m' "(srv_strategy s, ())"] wf ready fields
    by (auto simp: server_wf_def dest: hd_in_set)
  with wf ready fields show ?thesis by (simp add: handleReadyz_def activeStrategy_def)
qed

theorem router_starts_ready_witness:
  "\<exists>(s :: unit server) m'. router_start (\<lambda>_. None) Map.empty (\<lambda>_. ()) empty_mem = (Inr s, m') \<and>
    rsp_status (handleReadyz Map.empty s m') = 200"
proof -
  have split: "splitAndTrim ''http://localhost:9000'' = [''http://localhost:9000'']" by code_simp
  obtain s :: "unit server" and m'
    where start: "router_start (\<lambda>_. None) Map.empty (\<lambda>_. ()) empty_mem = (Inr s, m')"
    by (simp add: router_start_def LoadConfigFromEnv_def getenv_def Getenv_def split NewBackend_def Let_def)
  from router_starts_ready [OF start, of "\<lambda>h n. 0" Map.empty] start show ?thesis by blast
qed

end
